(* ===== verification/Forge_Prelude.thy ===== *)
theory Forge_Prelude
  imports Main "HOL-Library.Word" "HOL-Library.Sublist" "HOL-Library.Multiset"
begin

text \<open>
  Shared vocabulary of the development: the machine types of the Rust sources, Rust's
  \<open>Result\<close> as a sum, the \<open>?\<close> operator on it, strings and byte slices, and the generic
  facts on first occurrences of a pattern in a list that the serial console parser and
  the wire format rest on.

  A Rust \<open>String\<close> or \<open>&str\<close> is a \<^typ>\<open>string\<close> whose characters are its UTF-8
  bytes; a \<open>Vec<u8>\<close> or \<open>&[u8]\<close> is a list of \<open>u8\<close>. The two views are connected
  by \<open>as_bytes\<close>.
\<close>

named_theorems text_simps \<open>rules that evaluate formatted text and byte literals\<close>
named_theorems exec_simps \<open>rules that unfold one step of an effectful computation\<close>

section \<open>Machine types and results\<close>

type_synonym u8 = "8 word"
type_synonym u16 = "16 word"
type_synonym u32 = "32 word"
type_synonym i32 = "32 word"
type_synonym u64 = "64 word"
type_synonym uuid = "128 word"

text \<open>\<open>Result<T, E>\<close> is \<open>'e + 'a\<close>; \<open>Ok\<close> and \<open>Err\<close> name its two sides.\<close>

abbreviation Ok :: "'a \<Rightarrow> 'e + 'a" where
  "Ok \<equiv> Inr"

abbreviation Err :: "'e \<Rightarrow> 'e + 'a" where
  "Err \<equiv> Inl"

definition is_ok :: "'e + 'a \<Rightarrow> bool" where
  "is_ok r = (case r of Inl _ \<Rightarrow> False | Inr _ \<Rightarrow> True)"

definition map_err :: "('e \<Rightarrow> 'f) \<Rightarrow> 'e + 'a \<Rightarrow> 'f + 'a" where
  "map_err f r = (case r of Inl e \<Rightarrow> Inl (f e) | Inr a \<Rightarrow> Inr a)"

definition and_then :: "'e + 'a \<Rightarrow> ('a \<Rightarrow> 'e + 'b) \<Rightarrow> 'e + 'b" where
  "and_then r f = (case r of Inl e \<Rightarrow> Inl e | Inr a \<Rightarrow> f a)"

lemma is_ok_simps [simp]: "is_ok (Inr a)" "\<not> is_ok (Inl e)"
  by (simp_all add: is_ok_def)

lemma map_err_simps [simp]: "map_err f (Inl e) = Inl (f e)" "map_err f (Inr a) = Inr a"
  by (simp_all add: map_err_def)

lemma and_then_simps [simp]: "and_then (Inl e) f = Inl e" "and_then (Inr a) f = f a"
  by (simp_all add: and_then_def)

lemma map_err_eq_Inr [simp]: "map_err f r = Inr a \<longleftrightarrow> r = Inr a"
  by (cases r) simp_all

lemma map_err_eq_Inl: "map_err f r = Inl e \<longleftrightarrow> (\<exists>e'. r = Inl e' \<and> e = f e')"
  by (cases r) auto

lemma is_ok_map_err [simp]: "is_ok (map_err f r) = is_ok r"
  by (cases r) simp_all

lemma is_ok_iff: "is_ok r \<longleftrightarrow> (\<exists>a. r = Inr a)"
  by (cases r) simp_all

lemma and_then_eq_Inr: "and_then r f = Inr b \<longleftrightarrow> (\<exists>a. r = Inr a \<and> f a = Inr b)"
  by (cases r) simp_all

section \<open>Strings and bytes\<close>

definition byte_of_char :: "char \<Rightarrow> u8" where
  "byte_of_char c = of_nat (of_char c)"

definition char_of_byte :: "u8 \<Rightarrow> char" where
  "char_of_byte b = char_of (unat b)"

definition as_bytes :: "string \<Rightarrow> u8 list" where
  "as_bytes s = map byte_of_char s"

definition str_of_bytes :: "u8 list \<Rightarrow> string" where
  "str_of_bytes bs = map char_of_byte bs"

lemma unat_byte_of_char [simp]: "unat (byte_of_char c) = of_char c"
  using nat_of_char_less_256 [of c] by (simp add: unat_of_nat byte_of_char_def)

lemma unat_u8_less [simp]: "unat (b :: u8) < 256"
  using unsigned_less [of b] by simp

lemma char_of_byte_of_char [simp]: "char_of_byte (byte_of_char c) = c"
  by (simp add: char_of_byte_def)

lemma byte_of_char_of_byte [simp]: "byte_of_char (char_of_byte b) = b"
proof (rule unsigned_word_eqI)
  show "unat (byte_of_char (char_of_byte b)) = unat b"
    by (simp add: char_of_byte_def)
qed

lemma byte_of_char_inject [simp]: "byte_of_char c = byte_of_char d \<longleftrightarrow> c = d"
  by (metis char_of_byte_of_char)

lemma as_bytes_simps [simp]:
  "as_bytes [] = []"
  "as_bytes (c # s) = byte_of_char c # as_bytes s"
  "as_bytes (s @ t) = as_bytes s @ as_bytes t"
  "length (as_bytes s) = length s"
  "set (as_bytes s) = byte_of_char ` set s"
  by (simp_all add: as_bytes_def)

lemma str_of_bytes_simps [simp]:
  "str_of_bytes [] = []"
  "str_of_bytes (b # bs) = char_of_byte b # str_of_bytes bs"
  "str_of_bytes (bs @ cs) = str_of_bytes bs @ str_of_bytes cs"
  "length (str_of_bytes bs) = length bs"
  by (simp_all add: str_of_bytes_def)

lemma str_of_as_bytes [simp]: "str_of_bytes (as_bytes s) = s"
  by (induction s) simp_all

lemma as_bytes_of_str [simp]: "as_bytes (str_of_bytes bs) = bs"
  by (induction bs) simp_all

lemma as_bytes_eq_iff [simp]: "as_bytes s = as_bytes t \<longleftrightarrow> s = t"
  by (metis str_of_as_bytes)

declare byte_of_char_def [text_simps] char_of_byte_def [text_simps]

section \<open>Occurrences of a pattern\<close>

text \<open>
  A pattern that does not contain a byte before its last position cannot straddle that
  byte: an occurrence in \<open>xs @ [c] @ ys\<close> lies in \<open>xs @ [c]\<close> or in \<open>ys\<close>. The wire format
  of the serial console is a sequence of lines, so its markers are located line by line.
\<close>

lemma sublist_across:
  assumes "c \<notin> set (butlast m)"
  shows "sublist m (xs @ c # ys) \<longleftrightarrow> sublist m (xs @ [c]) \<or> sublist m ys"
proof
  assume "sublist m (xs @ c # ys)"
  then have "sublist m ((xs @ [c]) @ ys)" by simp
  then consider "sublist m (xs @ [c])" | "sublist m ys"
    | m1 m2 where "m = m1 @ m2" "suffix m1 (xs @ [c])" "prefix m2 ys"
    unfolding sublist_append by blast
  then show "sublist m (xs @ [c]) \<or> sublist m ys"
  proof cases
    case 3
    show ?thesis
    proof (cases "m1 = [] \<or> m2 = []")
      case True
      with 3 show ?thesis by auto
    next
      case False
      then have "last m1 = c"
        using 3(2) by (auto simp: suffix_def dest: arg_cong [where f = last])
      moreover have "last m1 \<in> set (butlast m)"
        using False 3(1) by (simp add: butlast_append)
      ultimately show ?thesis using assms by simp
    qed
  qed simp_all
next
  assume "sublist m (xs @ [c]) \<or> sublist m ys"
  then show "sublist m (xs @ c # ys)"
    by (metis append_Cons append_Nil append_assoc sublist_append)
qed

lemma not_sublist_butlast: "m \<noteq> [] \<Longrightarrow> \<not> sublist m (butlast m)"
  using sublist_length_le [of m "butlast m"] by (cases m) auto

lemma not_sublist_if_byte:
  "c \<in> set m \<Longrightarrow> c \<notin> set xs \<Longrightarrow> \<not> sublist m xs"
  by (auto dest: set_mono_sublist)

section \<open>Multisets\<close>

lemma mset_pick: "x \<in># M \<Longrightarrow> \<exists>N. M = add_mset x N"
  by (metis insert_DiffM)

lemma subset_mset_pick:
  "add_mset x M \<subseteq># N \<Longrightarrow> M \<subseteq># N"
  by (meson mset_subset_eq_insertD subset_mset.less_imp_le)

lemma card_set_mset_once: "(\<And>x. count M x \<le> 1) \<Longrightarrow> card (set_mset M) = size M"
proof (induction M)
  case (add x M)
  have "count M y \<le> 1" for y using add.prems [of y] by (simp split: if_splits)
  moreover have "x \<notin># M" using add.prems [of x] by (simp add: not_in_iff)
  ultimately show ?case using add.IH by simp
qed simp

section \<open>Work that gets done\<close>

text \<open>
  A step relation that uses up a finite amount of work: every step lowers the weight of the
  state, and a state with work left can move. The relation then cannot run forever, and
  wherever it gets stuck nothing is left to do.
\<close>

locale draining =
  fixes step :: "'s \<Rightarrow> 's \<Rightarrow> bool" and good :: "'s \<Rightarrow> bool" and weight :: "'s \<Rightarrow> nat"
  assumes step_good: "good s \<Longrightarrow> step s t \<Longrightarrow> good t"
    and step_weight: "good s \<Longrightarrow> step s t \<Longrightarrow> weight t < weight s"
    and progress: "good s \<Longrightarrow> 0 < weight s \<Longrightarrow> \<exists>t. step s t"
begin

lemma run_good: "step\<^sup>*\<^sup>* s t \<Longrightarrow> good s \<Longrightarrow> good t"
  by (induction rule: rtranclp_induct) (auto intro: step_good)

lemma run_bounded: "(step ^^ n) s t \<Longrightarrow> good s \<Longrightarrow> n + weight t \<le> weight s"
proof (induction n arbitrary: s)
  case (Suc n)
  then obtain u where "step s u" "(step ^^ n) u t" by (blast elim: relpowp_Suc_E2)
  with Suc.IH [of u] Suc.prems(2) step_good step_weight [of s u] show ?case by fastforce
qed simp

lemma stuck_done: "step\<^sup>*\<^sup>* s t \<Longrightarrow> good s \<Longrightarrow> \<nexists>u. step t u \<Longrightarrow> weight t = 0"
  using run_good progress by blast

lemma run_done: "good s \<Longrightarrow> \<exists>t. step\<^sup>*\<^sup>* s t \<and> good t \<and> weight t = 0"
proof (induction "weight s" arbitrary: s rule: less_induct)
  case less
  show ?case
  proof (cases "weight s = 0")
    case False
    with less.prems progress obtain u where "step s u" by blast
    with less step_good step_weight show ?thesis by (meson converse_rtranclp_into_rtranclp)
  qed (use less.prems in blast)
qed

end

end
