(* ===== verification/Rust_Text.thy ===== *)
theory Rust_Text
  imports Rust_Std
begin

text \<open>
  Text in the Rust standard library: \<open>Display\<close> of integers, the \<open>{:02x}\<close> format,
  \<open>str::from_utf8\<close>, \<open>String::from_utf8_lossy\<close>, \<open>str::trim\<close> and \<open>str::parse::<i32>\<close>.
  The closing lemmas of each section are what the components use: parsing an \<open>i32\<close>
  agrees with the mathematical value of its digits, undoes \<open>Display\<close>, and lossy
  decoding always yields well-formed UTF-8.
\<close>

section \<open>Formatting integers\<close>

definition digit_char :: "nat \<Rightarrow> char" where
  "digit_char d = ''0123456789'' ! d"

fun show_nat :: "nat \<Rightarrow> string" where
  "show_nat n = (if n < 10 then [digit_char n] else show_nat (n div 10) @ [digit_char (n mod 10)])"

declare show_nat.simps [simp del]

definition show_int :: "int \<Rightarrow> string" where
  "show_int i = (if i < 0 then ''-'' @ show_nat (nat (- i)) else show_nat (nat i))"

definition show_word :: "'a::len word \<Rightarrow> string" where
  "show_word w = show_nat (unat w)"

definition show_i32 :: "i32 \<Rightarrow> string" where
  "show_i32 w = show_int (sint w)"

definition hex_digit :: "nat \<Rightarrow> char" where
  "hex_digit d = ''0123456789abcdef'' ! d"

text \<open>\<open>write!(f, "{byte:02x}")\<close>\<close>

definition fmt_02x :: "u8 \<Rightarrow> string" where
  "fmt_02x b = [hex_digit (unat b div 16), hex_digit (unat b mod 16)]"

lemma less_10_cases: "d < (10::nat) \<longleftrightarrow> d \<in> {0, 1, 2, 3, 4, 5, 6, 7, 8, 9}"
  by auto

lemma hex_digit_inject:
  "a < 16 \<Longrightarrow> b < 16 \<Longrightarrow> hex_digit a = hex_digit b \<longleftrightarrow> a = b"
  unfolding hex_digit_def by (rule nth_eq_iff_index_eq) simp_all

lemma hex_digit_in: "a < 16 \<Longrightarrow> hex_digit a \<in> set ''0123456789abcdef''"
  unfolding hex_digit_def by (rule nth_mem) simp

lemma fmt_02x_inject [simp]: "fmt_02x a = fmt_02x b \<longleftrightarrow> a = b"
proof
  assume "fmt_02x a = fmt_02x b"
  then have "unat a div 16 = unat b div 16" "unat a mod 16 = unat b mod 16"
    by (simp_all add: fmt_02x_def hex_digit_inject less_mult_imp_div_less)
  then have "unat a = unat b" by (metis div_mult_mod_eq)
  then show "a = b" by (rule unsigned_word_eqI)
qed simp

lemma length_fmt_02x [simp]: "length (fmt_02x b) = 2"
  by (simp add: fmt_02x_def)

lemma set_fmt_02x: "set (fmt_02x b) \<subseteq> set ''0123456789abcdef''"
  using hex_digit_in [of "unat b div 16"] hex_digit_in [of "unat b mod 16"]
  by (simp add: fmt_02x_def less_mult_imp_div_less)

lemma show_nat_not_Nil [simp]: "show_nat n \<noteq> []"
  by (subst show_nat.simps) simp

section \<open>Decimal digits and their value\<close>

text \<open>\<open>char::to_digit(10)\<close>\<close>

definition to_digit :: "char \<Rightarrow> int option" where
  "to_digit c = (let n = (of_char c :: nat) in
     if 48 \<le> n \<and> n \<le> 57 then Some (int n - 48) else None)"

definition is_digit :: "char \<Rightarrow> bool" where
  "is_digit c = (to_digit c \<noteq> None)"

fun dec_value :: "int \<Rightarrow> string \<Rightarrow> int" where
  "dec_value a [] = a"
| "dec_value a (c # cs) = dec_value (a * 10 + the (to_digit c)) cs"

lemma to_digit_range: "to_digit c = Some d \<Longrightarrow> 0 \<le> d \<and> d \<le> 9"
  by (auto simp: to_digit_def Let_def split: if_splits)

lemma to_digit_digit_char [simp]: "d < 10 \<Longrightarrow> to_digit (digit_char d) = Some (int d)"
  by (auto simp: less_10_cases to_digit_def digit_char_def)

lemma is_digit_digit_char [simp]: "d < 10 \<Longrightarrow> is_digit (digit_char d)"
  by (simp add: is_digit_def)

lemma show_nat_all: "(\<And>d. d < 10 \<Longrightarrow> P (digit_char d)) \<Longrightarrow> list_all P (show_nat n)"
proof (induction n rule: show_nat.induct)
  case (1 n)
  then show ?case by (subst show_nat.simps) simp
qed

lemma show_nat_digits: "list_all is_digit (show_nat n)"
  by (rule show_nat_all) simp

lemma show_nat_all_literal: "list_all P ''0123456789'' \<Longrightarrow> list_all P (show_nat n)"
  unfolding digit_char_def list_all_length
  by (rule show_nat_all [unfolded list_all_length]) (simp add: digit_char_def)

lemma show_i32_all: "list_all P ''-0123456789'' \<Longrightarrow> list_all P (show_i32 w)"
  using show_nat_all_literal [of P] by (simp add: show_i32_def show_int_def)

lemma dec_value_append: "dec_value a (cs @ ds) = dec_value (dec_value a cs) ds"
  by (induction cs arbitrary: a) simp_all

lemma dec_value_show_nat: "dec_value 0 (show_nat n) = int n"
proof (induction n rule: show_nat.induct)
  case (1 n)
  show ?case
  proof (cases "n < 10")
    case False
    with 1 show ?thesis
      by (subst show_nat.simps) (simp add: dec_value_append of_nat_div of_nat_mod)
  qed (simp add: show_nat.simps [of n])
qed

lemma show_nat_inject [simp]: "show_nat m = show_nat n \<longleftrightarrow> m = n"
  by (metis dec_value_show_nat of_nat_eq_iff)

lemma dec_value_mono: "0 \<le> a \<Longrightarrow> list_all is_digit cs \<Longrightarrow> a \<le> dec_value a cs"
proof (induction cs arbitrary: a)
  case (Cons c cs)
  then obtain d where "to_digit c = Some d" "0 \<le> d"
    by (auto simp: is_digit_def dest: to_digit_range)
  with Cons.prems Cons.IH [of "a * 10 + d"] show ?case by simp
qed simp

section \<open>Checked i32 arithmetic and parsing\<close>

definition in_i32 :: "int \<Rightarrow> bool" where
  "in_i32 i = (- (2 ^ 31) \<le> i \<and> i < 2 ^ 31)"

definition checked_i32 :: "int \<Rightarrow> i32 option" where
  "checked_i32 i = (if in_i32 i then Some (of_int i) else None)"

definition checked_mul :: "i32 \<Rightarrow> i32 \<Rightarrow> i32 option" where
  "checked_mul a b = checked_i32 (sint a * sint b)"

definition checked_add :: "i32 \<Rightarrow> i32 \<Rightarrow> i32 option" where
  "checked_add a b = checked_i32 (sint a + sint b)"

definition checked_sub :: "i32 \<Rightarrow> i32 \<Rightarrow> i32 option" where
  "checked_sub a b = checked_i32 (sint a - sint b)"

lemma sint_of_int_i32: "in_i32 i \<Longrightarrow> sint (of_int i :: i32) = i"
  by (simp add: in_i32_def signed_of_int signed_take_bit_int_eq_self)

lemma sint_i32_in [simp]: "in_i32 (sint (w :: i32))"
  using sint_greater_eq [of w] sint_less [of w] by (simp add: in_i32_def)

text \<open>
  The digit loop of \<open>i32::from_str_radix(_, 10)\<close>: \<open>checked_mul\<close> by the radix, then
  \<open>checked_add\<close> of the digit for a positive literal, \<open>checked_sub\<close> for a negative one.
\<close>

fun parse_digits :: "bool \<Rightarrow> i32 \<Rightarrow> string \<Rightarrow> i32 option" where
  "parse_digits pos acc [] = Some acc"
| "parse_digits pos acc (c # cs) =
     (case checked_mul acc 10 of None \<Rightarrow> None | Some m \<Rightarrow>
      (case to_digit c of None \<Rightarrow> None | Some d \<Rightarrow>
       (case (if pos then checked_add m (of_int d) else checked_sub m (of_int d)) of
          None \<Rightarrow> None | Some r \<Rightarrow> parse_digits pos r cs)))"

definition parse_i32 :: "string \<Rightarrow> i32 option" where
  "parse_i32 s = (case s of
     [] \<Rightarrow> None
   | c # cs \<Rightarrow>
      if (c = CHR ''+'' \<or> c = CHR ''-'') \<and> cs = [] then None
      else if c = CHR ''+'' then parse_digits True 0 cs
      else if c = CHR ''-'' then parse_digits False 0 cs
      else parse_digits True 0 s)"

text \<open>The sign of a literal; the loop computes \<open>sgn_of pos * dec_value \<dots>\<close>.\<close>

definition sgn_of :: "bool \<Rightarrow> int" where
  "sgn_of pos = (if pos then 1 else - 1)"

lemma parse_step:
  assumes "0 \<le> sgn_of pos * sint acc" and "0 \<le> d" and "d \<le> 9"
  shows "(case checked_mul acc 10 of None \<Rightarrow> None | Some m \<Rightarrow>
      if pos then checked_add m (of_int d) else checked_sub m (of_int d)) =
    checked_i32 (sint acc * 10 + sgn_of pos * d)"
proof (cases "in_i32 (sint acc * 10)")
  case True
  have "sint (of_int d :: i32) = d"
    using assms by (intro sint_of_int_i32) (simp add: in_i32_def)
  moreover have "sint (of_int (sint acc * 10) :: i32) = sint acc * 10"
    using True by (rule sint_of_int_i32)
  ultimately show ?thesis
    using True by (cases pos)
      (simp_all add: checked_mul_def checked_add_def checked_sub_def checked_i32_def sgn_of_def
        del: of_int_mult)
next
  case False
  with assms have "\<not> in_i32 (sint acc * 10 + sgn_of pos * d)"
    by (cases pos) (auto simp: in_i32_def sgn_of_def)
  with False show ?thesis by (simp add: checked_mul_def checked_i32_def)
qed

lemma parse_digits_Cons:
  assumes "0 \<le> sgn_of pos * sint acc"
  shows "parse_digits pos acc (c # cs) = (case to_digit c of None \<Rightarrow> None | Some d \<Rightarrow>
    (case checked_i32 (sint acc * 10 + sgn_of pos * d) of
       None \<Rightarrow> None | Some r \<Rightarrow> parse_digits pos r cs))"
proof (cases "to_digit c")
  case None
  then show ?thesis by (simp split: option.split)
next
  case (Some d)
  then have "0 \<le> d" "d \<le> 9" by (auto dest: to_digit_range)
  from parse_step [OF assms this] Some show ?thesis
    by (auto split: option.splits if_splits)
qed

text \<open>The loop computes the value of the digits, and fails exactly outside the \<open>i32\<close> range.\<close>

lemma parse_digits_value:
  "0 \<le> sgn_of pos * sint acc \<Longrightarrow> parse_digits pos acc cs =
     (if list_all is_digit cs then checked_i32 (sgn_of pos * dec_value (sgn_of pos * sint acc) cs)
      else None)"
proof (induction cs arbitrary: acc)
  case Nil
  show ?case by (cases pos) (simp_all add: checked_i32_def sgn_of_def)
next
  case (Cons c cs)
  show ?case
  proof (cases "to_digit c")
    case None
    with Cons.prems show ?thesis
      by (simp add: parse_digits_Cons is_digit_def del: parse_digits.simps)
  next
    case (Some d)
    then have d: "0 \<le> d" "d \<le> 9" "is_digit c"
      by (auto simp: is_digit_def dest: to_digit_range)
    let ?v = "sint acc * 10 + sgn_of pos * d"
    have nonneg: "0 \<le> sgn_of pos * ?v"
      using Cons.prems d by (cases pos) (simp_all add: sgn_of_def)
    have arg: "sgn_of pos * ?v = sgn_of pos * sint acc * 10 + d"
      by (simp add: sgn_of_def)
    show ?thesis
    proof (cases "in_i32 ?v")
      case True
      then have "sint (of_int ?v :: i32) = ?v" by (rule sint_of_int_i32)
      with Cons.IH [of "of_int ?v"] nonneg True Some Cons.prems d show ?thesis
        by (simp add: parse_digits_Cons checked_i32_def arg del: parse_digits.simps)
    next
      case False
      have "\<not> in_i32 (sgn_of pos * dec_value (sgn_of pos * ?v) cs)" if "list_all is_digit cs"
        using dec_value_mono [OF nonneg that] False nonneg
        by (cases pos) (auto simp: in_i32_def sgn_of_def)
      with False Some Cons.prems d show ?thesis
        by (auto simp: parse_digits_Cons checked_i32_def arg simp del: parse_digits.simps)
    qed
  qed
qed

text \<open>Reference meaning of \<open>parse::<i32>\<close>: an optional sign, then digits, in range.\<close>

definition i32_literal :: "string \<Rightarrow> int option" where
  "i32_literal s =
     (let (pos, ds) = (case s of
          [] \<Rightarrow> (True, [])
        | c # cs \<Rightarrow> if c = CHR ''-'' then (False, cs) else if c = CHR ''+'' then (True, cs) else (True, s))
      in if ds \<noteq> [] \<and> list_all is_digit ds then Some (sgn_of pos * dec_value 0 ds) else None)"

lemma parse_i32_literal:
  "parse_i32 s = (case i32_literal s of None \<Rightarrow> None | Some v \<Rightarrow> checked_i32 v)"
  by (cases s) (auto simp: parse_i32_def i32_literal_def parse_digits_value simp del: parse_digits.simps)

lemma digit_not_sign: "is_digit c \<Longrightarrow> c \<noteq> CHR ''+'' \<and> c \<noteq> CHR ''-''"
  by (auto simp: is_digit_def to_digit_def)

lemma show_nat_Cons: "\<exists>c cs. show_nat n = c # cs \<and> is_digit c \<and> list_all is_digit cs"
  using show_nat_digits [of n] by (cases "show_nat n") simp_all

lemma i32_literal_show_int: "i32_literal (show_int i) = Some i"
proof (cases "i < 0")
  case True
  then show ?thesis
    by (simp add: show_int_def i32_literal_def show_nat_digits dec_value_show_nat sgn_of_def)
next
  case False
  obtain c cs where c: "show_nat (nat i) = c # cs" "is_digit c" "list_all is_digit cs"
    using show_nat_Cons by blast
  have "dec_value 0 (c # cs) = i"
    using False c(1) dec_value_show_nat [of "nat i"] by simp
  with False c show ?thesis
    by (auto simp: show_int_def i32_literal_def sgn_of_def dest: digit_not_sign)
qed

lemma parse_show_i32: "parse_i32 (show_i32 w) = Some w"
  by (simp add: parse_i32_literal show_i32_def i32_literal_show_int checked_i32_def)

section \<open>UTF-8\<close>

text \<open>
  The lead byte of a UTF-8 sequence fixes the number of continuation bytes and the range
  of the first of them (Unicode, Table 3-7; the same table \<open>core::str\<close> uses).
\<close>

definition utf8_lead :: "u8 \<Rightarrow> (nat \<times> u8 \<times> u8) option" where
  "utf8_lead b =
     (if b \<le> 0x7F then Some (0, 0x80, 0xBF)
      else if b \<le> 0xC1 then None
      else if b \<le> 0xDF then Some (1, 0x80, 0xBF)
      else if b = 0xE0 then Some (2, 0xA0, 0xBF)
      else if b = 0xED then Some (2, 0x80, 0x9F)
      else if b \<le> 0xEF then Some (2, 0x80, 0xBF)
      else if b = 0xF0 then Some (3, 0x90, 0xBF)
      else if b \<le> 0xF3 then Some (3, 0x80, 0xBF)
      else if b = 0xF4 then Some (3, 0x80, 0x8F)
      else None)"

definition is_cont :: "u8 \<Rightarrow> bool" where
  "is_cont b = (0x80 \<le> b \<and> b \<le> 0xBF)"

text \<open>
  One step of the decoder at lead byte \<open>b\<close> with \<open>bs\<close> following: whether a complete
  sequence starts here, and how many of the following bytes belong to it (to the maximal
  well-formed prefix of a sequence, if it is incomplete).
\<close>

definition utf8_step :: "u8 \<Rightarrow> u8 list \<Rightarrow> bool \<times> nat" where
  "utf8_step b bs = (case utf8_lead b of
     None \<Rightarrow> (False, 0)
   | Some (n, lo, hi) \<Rightarrow>
      let k = (case take n bs of
            [] \<Rightarrow> 0
          | c # cs \<Rightarrow> if lo \<le> c \<and> c \<le> hi then Suc (length (takeWhile is_cont cs)) else 0)
      in (k = n, k))"

function valid_utf8 :: "u8 list \<Rightarrow> bool" where
  "valid_utf8 [] = True"
| "valid_utf8 (b # bs) = (fst (utf8_step b bs) \<and> valid_utf8 (drop (snd (utf8_step b bs)) bs))"
  by pat_completeness auto
termination
  by (relation "measure length") (auto simp: less_Suc_eq_le)

definition from_utf8 :: "u8 list \<Rightarrow> string option" where
  "from_utf8 bs = (if valid_utf8 bs then Some (str_of_bytes bs) else None)"

text \<open>\<open>from_utf8_lossy\<close> replaces each maximal ill-formed subpart by U+FFFD.\<close>

function utf8_lossy :: "u8 list \<Rightarrow> u8 list" where
  "utf8_lossy [] = []"
| "utf8_lossy (b # bs) =
     (let (ok, k) = utf8_step b bs in
      (if ok then b # take k bs else [0xEF, 0xBF, 0xBD]) @ utf8_lossy (drop k bs))"
  by pat_completeness auto
termination
  by (relation "measure length") (auto simp: less_Suc_eq_le)

definition from_utf8_lossy :: "u8 list \<Rightarrow> string" where
  "from_utf8_lossy bs = str_of_bytes (utf8_lossy bs)"

text \<open>The characters of a well-formed string, each as its byte sequence.\<close>

function utf8_chars :: "u8 list \<Rightarrow> u8 list list" where
  "utf8_chars [] = []"
| "utf8_chars (b # bs) =
     (let k = snd (utf8_step b bs) in (b # take k bs) # utf8_chars (drop k bs))"
  by pat_completeness auto
termination
  by (relation "measure length") (auto simp: less_Suc_eq_le)

text \<open>The characters of Unicode property \<open>White_Space\<close>, as \<open>char::is_whitespace\<close> has them.\<close>

definition is_whitespace :: "u8 list \<Rightarrow> bool" where
  "is_whitespace c = (c \<in> set (
     [[9], [10], [11], [12], [13], [32], [0xC2, 0x85], [0xC2, 0xA0], [0xE1, 0x9A, 0x80],
      [0xE2, 0x80, 0xA8], [0xE2, 0x80, 0xA9], [0xE2, 0x80, 0xAF], [0xE2, 0x81, 0x9F],
      [0xE3, 0x80, 0x80]] @ map (\<lambda>i. [0xE2, 0x80, 0x80 + of_nat i]) [0..<11]))"

definition trim :: "string \<Rightarrow> string" where
  "trim s = str_of_bytes (concat (rev (dropWhile is_whitespace (rev
     (dropWhile is_whitespace (utf8_chars (as_bytes s)))))))"

lemma utf8_step_bound: "snd (utf8_step b bs) \<le> length bs"
proof -
  have "Suc (length (takeWhile is_cont cs)) \<le> length bs" if "take n bs = c # cs" for n c cs
  proof -
    have "length (c # cs) \<le> length bs"
      using that by (metis length_take min.cobounded1)
    then show ?thesis using length_takeWhile_le [of is_cont cs] by simp
  qed
  then show ?thesis
    by (auto simp: utf8_step_def Let_def split: option.splits list.splits)
qed

lemma utf8_step_take:
  assumes "utf8_step b bs = (True, k)"
  shows "utf8_step b (take k bs @ cs) = (True, k)"
proof -
  from assms obtain lo hi where lead: "utf8_lead b = Some (k, lo, hi)"
    by (auto simp: utf8_step_def Let_def split: option.splits)
  have "k \<le> length bs" using utf8_step_bound [of b bs] assms by simp
  then have tk: "take k (take k bs @ cs) = take k bs" by simp
  have "utf8_step b (take k bs @ cs) = utf8_step b bs"
    by (simp only: utf8_step_def lead option.case prod.case tk)
  with assms show ?thesis by simp
qed

lemma valid_utf8_lossy: "valid_utf8 (utf8_lossy bs)"
proof (induction bs rule: utf8_lossy.induct)
  case (2 b bs)
  obtain ok k where step: "utf8_step b bs = (ok, k)" by fastforce
  have IH: "valid_utf8 (utf8_lossy (drop k bs))" using 2 step by simp
  show ?case
  proof (cases ok)
    case True
    with step have "utf8_step b (take k bs @ utf8_lossy (drop k bs)) = (True, k)"
      by (simp add: utf8_step_take)
    moreover have "k \<le> length bs" using utf8_step_bound [of b bs] step by simp
    ultimately show ?thesis using step IH True by simp
  next
    case False
    then show ?thesis
      using step IH by (simp add: utf8_step_def utf8_lead_def is_cont_def)
  qed
qed simp

lemma utf8_lossy_id: "valid_utf8 bs \<Longrightarrow> utf8_lossy bs = bs"
  by (induction bs rule: valid_utf8.induct) (auto simp: split: prod.splits)

lemma from_utf8_Some_lossy: "from_utf8 bs = Some s \<Longrightarrow> from_utf8_lossy bs = s"
  by (auto simp: from_utf8_def from_utf8_lossy_def utf8_lossy_id split: if_splits)

lemma utf8_step_ascii [simp]: "b \<le> 0x7F \<Longrightarrow> utf8_step b bs = (True, 0)"
  by (simp add: utf8_step_def utf8_lead_def)

lemma valid_utf8_ascii: "list_all (\<lambda>b. b \<le> 0x7F) bs \<Longrightarrow> valid_utf8 bs"
  by (induction bs) simp_all

lemma utf8_chars_ascii: "list_all (\<lambda>b. b \<le> 0x7F) bs \<Longrightarrow> utf8_chars bs = map (\<lambda>b. [b]) bs"
  by (induction bs) simp_all

text \<open>\<open>trim\<close> keeps ASCII text that neither starts nor ends with white space.\<close>

lemma trim_ascii_id:
  assumes "list_all (\<lambda>b. b \<le> 0x7F) (as_bytes s)"
    and "s \<noteq> []" and "\<not> is_whitespace [byte_of_char (hd s)]"
    and "\<not> is_whitespace [byte_of_char (last s)]"
  shows "trim s = s"
proof -
  let ?cs = "map (\<lambda>b. [b]) (as_bytes s)"
  have "hd ?cs = [byte_of_char (hd s)]" "last ?cs = [byte_of_char (last s)]" "?cs \<noteq> []"
    using assms(2) by (simp_all add: as_bytes_def hd_map last_map)
  then have "dropWhile is_whitespace ?cs = ?cs" "dropWhile is_whitespace (rev ?cs) = rev ?cs"
    using assms(3,4) by (metis dropWhile_eq_self_iff, metis dropWhile_eq_self_iff hd_rev)
  moreover have "concat ?cs = as_bytes s" by simp
  ultimately show ?thesis
    using assms(1) by (simp add: trim_def utf8_chars_ascii rev_rev_ident)
qed

end
