(* ===== verification/Forge_Ids.thy ===== *)
theory Forge_Ids
  imports Rust_Text
begin

text \<open>
  The identifier types of \<open>forge-core/src/id.rs\<close>. A newtype is a one-constructor
  datatype. \<open>Uuid::new_v4()\<close> draws a random value, so every \<open>new\<close> takes the drawn
  \<open>uuid\<close> as its argument; the \<open>Display\<close> of a \<open>Uuid\<close> belongs to the \<open>uuid\<close> crate and
  is the parameter \<open>fmt_uuid\<close> of the definitions that print one.
\<close>

datatype BlockId = BlockId uuid

definition BlockId_new :: "uuid \<Rightarrow> BlockId" where
  "BlockId_new drawn = BlockId drawn"

fun BlockId_as_uuid :: "BlockId \<Rightarrow> uuid" where
  "BlockId_as_uuid (BlockId u) = u"

definition BlockId_default :: "uuid \<Rightarrow> BlockId" where
  "BlockId_default drawn = BlockId_new drawn"

fun BlockId_fmt :: "(uuid \<Rightarrow> string) \<Rightarrow> BlockId \<Rightarrow> string" where
  "BlockId_fmt fmt_uuid (BlockId u) = fmt_uuid u"

definition BlockId_from :: "uuid \<Rightarrow> BlockId" where
  "BlockId_from u = BlockId u"

datatype ExecutionId = ExecutionId uuid

definition ExecutionId_new :: "uuid \<Rightarrow> ExecutionId" where
  "ExecutionId_new drawn = ExecutionId drawn"

definition ExecutionId_default :: "uuid \<Rightarrow> ExecutionId" where
  "ExecutionId_default drawn = ExecutionId_new drawn"

fun ExecutionId_fmt :: "(uuid \<Rightarrow> string) \<Rightarrow> ExecutionId \<Rightarrow> string" where
  "ExecutionId_fmt fmt_uuid (ExecutionId u) = fmt_uuid u"

definition ExecutionId_from :: "uuid \<Rightarrow> ExecutionId" where
  "ExecutionId_from u = ExecutionId u"

datatype UserId = UserId string

definition UserId_new :: "string \<Rightarrow> UserId" where
  "UserId_new s = UserId s"

fun UserId_fmt :: "UserId \<Rightarrow> string" where
  "UserId_fmt (UserId s) = s"

definition UserId_from :: "string \<Rightarrow> UserId" where
  "UserId_from s = UserId s"

datatype ContributorId = ContributorId string

definition ContributorId_new :: "string \<Rightarrow> ContributorId" where
  "ContributorId_new s = ContributorId s"

fun ContributorId_fmt :: "ContributorId \<Rightarrow> string" where
  "ContributorId_fmt (ContributorId s) = s"

definition ContributorId_from :: "string \<Rightarrow> ContributorId" where
  "ContributorId_from s = ContributorId s"

datatype SnapshotId = SnapshotId uuid

definition SnapshotId_new :: "uuid \<Rightarrow> SnapshotId" where
  "SnapshotId_new drawn = SnapshotId drawn"

definition SnapshotId_default :: "uuid \<Rightarrow> SnapshotId" where
  "SnapshotId_default drawn = SnapshotId_new drawn"

fun SnapshotId_fmt :: "(uuid \<Rightarrow> string) \<Rightarrow> SnapshotId \<Rightarrow> string" where
  "SnapshotId_fmt fmt_uuid (SnapshotId u) = fmt_uuid u"

datatype DerivationHash = DerivationHash string

definition DerivationHash_new :: "string \<Rightarrow> DerivationHash" where
  "DerivationHash_new s = DerivationHash s"

fun DerivationHash_fmt :: "DerivationHash \<Rightarrow> string" where
  "DerivationHash_fmt (DerivationHash s) = s"

text \<open>\<open>ContentHash([u8; 32])\<close>: the array's length is the well-formedness of the type.\<close>

datatype ContentHash = ContentHash "u8 list"

definition ContentHash_new :: "u8 list \<Rightarrow> ContentHash" where
  "ContentHash_new bytes = ContentHash bytes"

fun ContentHash_as_bytes :: "ContentHash \<Rightarrow> u8 list" where
  "ContentHash_as_bytes (ContentHash bytes) = bytes"

fun ContentHash_fmt :: "ContentHash \<Rightarrow> string" where
  "ContentHash_fmt (ContentHash bytes) = concat (map fmt_02x bytes)"

definition wf_ContentHash :: "ContentHash \<Rightarrow> bool" where
  "wf_ContentHash h = (length (ContentHash_as_bytes h) = 32)"

section \<open>The hexadecimal text of a hash\<close>

lemma length_hex: "length (concat (map fmt_02x bs)) = 2 * length bs"
  by (induction bs) simp_all

lemma set_hex: "set (concat (map fmt_02x bs)) \<subseteq> set ''0123456789abcdef''"
  using set_fmt_02x by (auto simp del: set_simps)

lemma hex_inject: "concat (map fmt_02x as) = concat (map fmt_02x bs) \<longleftrightarrow> as = bs"
proof
  assume eq: "concat (map fmt_02x as) = concat (map fmt_02x bs)"
  then have "length as = length bs" using length_hex by (metis mult_left_cancel zero_neq_numeral)
  then show "as = bs" using eq
    by (induction as bs rule: list_induct2) simp_all
qed simp

lemma ContentHash_fmt_inject: "ContentHash_fmt h = ContentHash_fmt k \<longleftrightarrow> h = k"
  by (cases h; cases k) (simp add: hex_inject)

lemma ContentHash_fmt_hex:
  "wf_ContentHash h \<Longrightarrow>
     length (ContentHash_fmt h) = 64 \<and> set (ContentHash_fmt h) \<subseteq> set ''0123456789abcdef''"
  by (cases h) (simp add: wf_ContentHash_def length_hex set_hex del: set_simps set_concat set_map)

end
