(* ===== verification/Forge_Trust.thy ===== *)
theory Forge_Trust
  imports Rust_Text Complex_Main
begin

text \<open>
  \<open>forge-core/src/trust.rs\<close> and \<open>forge-core/src/error.rs\<close>: semantic versions, trust
  levels and the validated trust score. An \<open>f64\<close> is its IEEE 754 binary64 bit pattern;
  every finite double is an integer multiple of \<open>2^-1074\<close>, so the exact value is kept as
  that integer, and comparisons and formatting are exact and executable.
\<close>

section \<open>IEEE 754 doubles\<close>

type_synonym f64 = "64 word"

definition f64_sign :: "f64 \<Rightarrow> bool" where
  "f64_sign v = (2 ^ 63 \<le> unat v)"

definition f64_exponent :: "f64 \<Rightarrow> nat" where
  "f64_exponent v = unat v div 2 ^ 52 mod 2 ^ 11"

definition f64_fraction :: "f64 \<Rightarrow> nat" where
  "f64_fraction v = unat v mod 2 ^ 52"

definition is_nan :: "f64 \<Rightarrow> bool" where
  "is_nan v = (f64_exponent v = 2047 \<and> f64_fraction v \<noteq> 0)"

definition is_infinite :: "f64 \<Rightarrow> bool" where
  "is_infinite v = (f64_exponent v = 2047 \<and> f64_fraction v = 0)"

text \<open>
  The magnitude in units of \<open>2^-1074\<close>. An infinity gets the value \<open>2^1024\<close>, above every
  finite magnitude, which is all that ordering needs.
\<close>

definition f64_magnitude :: "f64 \<Rightarrow> nat" where
  "f64_magnitude v =
     (if f64_exponent v = 0 then f64_fraction v
      else (2 ^ 52 + f64_fraction v) * 2 ^ (f64_exponent v - 1))"

definition f64_scaled :: "f64 \<Rightarrow> int" where
  "f64_scaled v = (if f64_sign v then - int (f64_magnitude v) else int (f64_magnitude v))"

definition f64_le :: "f64 \<Rightarrow> f64 \<Rightarrow> bool" where
  "f64_le a b = (\<not> is_nan a \<and> \<not> is_nan b \<and> f64_scaled a \<le> f64_scaled b)"

definition f64_unit :: nat where
  "f64_unit = 2 ^ 1074"

definition f64_half_unit :: nat where
  "f64_half_unit = 2 ^ 1073"

text \<open>The real number a finite double denotes.\<close>

definition f64_real :: "f64 \<Rightarrow> real" where
  "f64_real v = of_int (f64_scaled v) / real f64_unit"

definition f64_zero :: f64 where
  "f64_zero = 0"

definition f64_one :: f64 where
  "f64_one = 0x3FF0000000000000"

lemma f64_scaled_zero: "f64_scaled f64_zero = 0"
  by (simp add: f64_scaled_def f64_magnitude_def f64_exponent_def f64_fraction_def f64_zero_def)

lemma f64_unit_half: "f64_unit = 2 * f64_half_unit" "0 < f64_half_unit"
  unfolding f64_unit_def f64_half_unit_def by (subst power_Suc [symmetric], simp) simp

lemma f64_scaled_one: "f64_scaled f64_one = int f64_unit"
  by (simp add: f64_unit_def f64_scaled_def f64_magnitude_def f64_exponent_def f64_fraction_def f64_one_def
      f64_sign_def)

lemma f64_not_nan_consts [simp]: "\<not> is_nan f64_zero" "\<not> is_nan f64_one"
  by (simp_all add: is_nan_def f64_exponent_def f64_fraction_def f64_one_def f64_zero_def)

section \<open>Versions, levels, errors\<close>

record SemVer =
  major :: u32
  minor :: u32
  patch :: u32

definition SemVer_new :: "u32 \<Rightarrow> u32 \<Rightarrow> u32 \<Rightarrow> SemVer" where
  "SemVer_new maj mnr pat = \<lparr>major = maj, minor = mnr, patch = pat\<rparr>"

definition SemVer_fmt :: "SemVer \<Rightarrow> string" where
  "SemVer_fmt v = show_word (major v) @ ''.'' @ show_word (minor v) @ ''.'' @ show_word (patch v)"

datatype TrustLevel = Zero | One | Two | Three

datatype CoreError =
    InvalidTrustScore f64
  | InvalidBlockId string
  | ManifestValidation string string

section \<open>Trust scores\<close>

datatype TrustScore = TrustScore f64

definition TrustScore_new :: "f64 \<Rightarrow> CoreError + TrustScore" where
  "TrustScore_new value =
     (if is_nan value \<or> \<not> (f64_le f64_zero value \<and> f64_le value f64_one)
      then Err (InvalidTrustScore value)
      else Ok (TrustScore value))"

fun TrustScore_value :: "TrustScore \<Rightarrow> f64" where
  "TrustScore_value (TrustScore v) = v"

definition TrustScore_try_from :: "f64 \<Rightarrow> CoreError + TrustScore" where
  "TrustScore_try_from value = TrustScore_new value"

text \<open>
  \<open>write!(f, "{:.4}", self.0)\<close>: the exact value rounded to four decimals, ties to even,
  with the sign of the double (so a negative zero prints its sign).
\<close>

definition round_ten_thousandths :: "nat \<Rightarrow> nat" where
  "round_ten_thousandths m =
     (let n = m * 10000; q = n div f64_unit; r = n mod f64_unit
      in if f64_half_unit < r \<or> (r = f64_half_unit \<and> odd q) then Suc q else q)"

definition fmt_four_digits :: "nat \<Rightarrow> string" where
  "fmt_four_digits n =
     [digit_char (n div 1000 mod 10), digit_char (n div 100 mod 10),
      digit_char (n div 10 mod 10), digit_char (n mod 10)]"

definition fmt_f64_4 :: "f64 \<Rightarrow> string" where
  "fmt_f64_4 v =
     (if is_nan v then ''NaN''
      else (if f64_sign v then ''-'' else '''') @
        (if is_infinite v then ''inf''
         else let n = round_ten_thousandths (f64_magnitude v)
              in show_nat (n div 10000) @ ''.'' @ fmt_four_digits (n mod 10000)))"

fun TrustScore_fmt :: "TrustScore \<Rightarrow> string" where
  "TrustScore_fmt (TrustScore v) = fmt_f64_4 v"

text \<open>The invariant of the type: a number in the unit interval.\<close>

definition wf_TrustScore :: "TrustScore \<Rightarrow> bool" where
  "wf_TrustScore s = (\<not> is_nan (TrustScore_value s)
     \<and> 0 \<le> f64_real (TrustScore_value s) \<and> f64_real (TrustScore_value s) \<le> 1)"

lemma f64_le_real:
  "f64_le a b \<longleftrightarrow> \<not> is_nan a \<and> \<not> is_nan b \<and> f64_real a \<le> f64_real b"
  using f64_unit_half by (simp add: f64_le_def f64_real_def divide_le_cancel)

lemma f64_real_zero: "f64_real f64_zero = 0"
  by (simp add: f64_real_def f64_scaled_zero)

lemma f64_real_one: "f64_real f64_one = 1"
  using f64_unit_half by (simp add: f64_real_def f64_scaled_one)

lemma TrustScore_new_iff:
  "TrustScore_new v =
     (if \<not> is_nan v \<and> 0 \<le> f64_real v \<and> f64_real v \<le> 1 then Ok (TrustScore v)
      else Err (InvalidTrustScore v))"
  by (auto simp: TrustScore_new_def f64_le_real f64_real_zero f64_real_one)

section \<open>Rounding in the display\<close>

lemma round_half:
  fixes n q r d h :: nat
  assumes "n = q * d + r" and "d = 2 * h" and "0 < h" and "r < d"
  shows "\<bar>real n / real d - real (if h < r \<or> (r = h \<and> odd q) then Suc q else q)\<bar> \<le> 1 / 2"
proof -
  have "real n / real d = real q + real r / real d"
    using assms by (simp add: field_simps)
  moreover have "h < r \<or> r = h \<Longrightarrow> 1 / 2 \<le> real r / real d \<and> real r / real d \<le> 1"
    using assms(2-4) by (auto simp: field_simps)
  moreover have "\<not> h < r \<Longrightarrow> real r / real d \<le> 1 / 2"
    using assms(2,3) by (auto simp: field_simps)
  moreover have "0 \<le> real r / real d" by simp
  ultimately show ?thesis by (auto simp: abs_le_iff)
qed

lemma round_ten_thousandths_error:
  "\<bar>real (m * 10000) / real f64_unit - real (round_ten_thousandths m)\<bar> \<le> 1 / 2"
proof -
  let ?n = "m * 10000"
  have "?n = ?n div f64_unit * f64_unit + ?n mod f64_unit" by simp
  moreover have "?n mod f64_unit < f64_unit" using f64_unit_half by simp
  ultimately show ?thesis
    unfolding round_ten_thousandths_def Let_def by (intro round_half f64_unit_half)
qed

end
