(* ===== verification/Forge_Blocks.thy ===== *)
theory Forge_Blocks
  imports Forge_Ids Forge_Trust
begin

text \<open>
  \<open>forge-core/src/block.rs\<close>, \<open>execution.rs\<close> and \<open>examples.rs\<close>: blocks with their
  manifests, execution records and the canonical example blocks. Timestamps
  (\<open>DateTime<Utc>\<close>) and durations are counts of nanoseconds; the current time and the
  drawn identifiers are arguments of the constructors.
\<close>

type_synonym datetime = int
type_synonym duration = nat

definition as_millis :: "duration \<Rightarrow> nat" where
  "as_millis d = d div 1000000"

definition as_secs :: "duration \<Rightarrow> nat" where
  "as_secs d = d div 1000000000"

definition from_secs :: "nat \<Rightarrow> duration" where
  "from_secs s = s * 1000000000"

section \<open>Blocks and manifests\<close>

datatype DependencyKind = Runtime | Build

datatype CognitiveLoad = Low | Medium | High

record Dependency =
  dep_name :: string
  version_req :: string
  dep_kind :: DependencyKind

record Capability =
  cap_name :: string
  cap_version :: SemVer

record BlockManifest =
  man_name :: string
  man_version :: SemVer
  description :: string
  requires :: "Dependency list"
  provides :: "Capability list"
  cognitive_load :: CognitiveLoad
  minimum_trust_level :: TrustLevel

record Block =
  block_id :: BlockId
  manifest :: BlockManifest
  composed_of :: "BlockId list option"
  trust_score :: TrustScore
  author :: ContributorId
  nix_derivation :: DerivationHash
  created_at :: datetime
  updated_at :: datetime

section \<open>Execution records\<close>

datatype ExecutionStatus = Pending | Running | Succeeded | Failed string

record ExecutionRecord =
  rec_id :: ExecutionId
  rec_block_id :: BlockId
  user_id :: UserId
  input_hash :: ContentHash
  output_hash :: ContentHash
  started_at :: datetime
  rec_duration :: duration
  vm_snapshot_id :: "SnapshotId option"
  status :: ExecutionStatus

definition ExecutionRecord_new ::
  "uuid \<Rightarrow> BlockId \<Rightarrow> UserId \<Rightarrow> ContentHash \<Rightarrow> ContentHash \<Rightarrow> datetime \<Rightarrow> duration
     \<Rightarrow> ExecutionStatus \<Rightarrow> ExecutionRecord" where
  "ExecutionRecord_new drawn bid uid ihash ohash started dur st =
     \<lparr>rec_id = ExecutionId_new drawn, rec_block_id = bid, user_id = uid, input_hash = ihash,
      output_hash = ohash, started_at = started, rec_duration = dur, vm_snapshot_id = None,
      status = st\<rparr>"

section \<open>Example blocks\<close>

text \<open>\<open>Result::unwrap\<close>: \<open>None\<close> stands for the panic on \<open>Err\<close>.\<close>

definition unwrap :: "'e + 'a \<Rightarrow> 'a option" where
  "unwrap r = (case r of Inl _ \<Rightarrow> None | Inr a \<Rightarrow> Some a)"

text \<open>The literals \<open>0.9\<close>, \<open>0.85\<close> and \<open>0.7\<close> as the compiler rounds them.\<close>

definition f64_0_9 :: f64 where
  "f64_0_9 = 0x3FECCCCCCCCCCCCD"

definition f64_0_85 :: f64 where
  "f64_0_85 = 0x3FEB333333333333"

definition f64_0_7 :: f64 where
  "f64_0_7 = 0x3FE6666666666666"

definition git_manifest :: BlockManifest where
  "git_manifest =
     \<lparr>man_name = ''git-env'', man_version = SemVer_new 2 43 0,
      description = ''Provides the git CLI in a reproducible Nix environment.'',
      requires = [],
      provides = [\<lparr>cap_name = ''git-cli'', cap_version = SemVer_new 2 43 0\<rparr>],
      cognitive_load = Low, minimum_trust_level = Zero\<rparr>"

definition rust_dev_manifest :: BlockManifest where
  "rust_dev_manifest =
     \<lparr>man_name = ''rust-dev-env'', man_version = SemVer_new 1 82 0,
      description = ''Provides rustc and cargo via rustup in a reproducible environment.'',
      requires = [\<lparr>dep_name = ''git-cli'', version_req = ''>= 2.40'', dep_kind = Runtime\<rparr>],
      provides = [\<lparr>cap_name = ''rustc'', cap_version = SemVer_new 1 82 0\<rparr>,
                  \<lparr>cap_name = ''cargo'', cap_version = SemVer_new 1 82 0\<rparr>],
      cognitive_load = Medium, minimum_trust_level = One\<rparr>"

definition bose_search_manifest :: BlockManifest where
  "bose_search_manifest =
     \<lparr>man_name = ''bose-search'', man_version = SemVer_new 0 1 0,
      description = ''Provides the web_search MCP tool backed by SearXNG (247 engines).'',
      requires = [\<lparr>dep_name = ''rustc'', version_req = ''>= 1.82'', dep_kind = Build\<rparr>,
                  \<lparr>dep_name = ''cargo'', version_req = ''>= 1.82'', dep_kind = Build\<rparr>],
      provides = [\<lparr>cap_name = ''web-search-mcp'', cap_version = SemVer_new 0 1 0\<rparr>],
      cognitive_load = High, minimum_trust_level = Two\<rparr>"

definition example_block ::
  "datetime \<Rightarrow> uuid \<Rightarrow> BlockManifest \<Rightarrow> f64 \<Rightarrow> string \<Rightarrow> Block option" where
  "example_block now drawn man score drv =
     map_option (\<lambda>ts.
       \<lparr>block_id = BlockId_new drawn, manifest = man, composed_of = None, trust_score = ts,
        author = ContributorId_new ''forge-team'', nix_derivation = DerivationHash_new drv,
        created_at = now, updated_at = now\<rparr>) (unwrap (TrustScore_new score))"

text \<open>\<open>None\<close> is the panic of an \<open>unwrap\<close>.\<close>

definition example_blocks :: "datetime \<Rightarrow> uuid \<Rightarrow> uuid \<Rightarrow> uuid \<Rightarrow> Block list option" where
  "example_blocks now id1 id2 id3 =
     (case example_block now id1 git_manifest f64_0_9 ''ywi5ib7yrjba3k3b26yfnbx7gappr3dg'' of
        None \<Rightarrow> None | Some git \<Rightarrow>
      (case example_block now id2 rust_dev_manifest f64_0_85 ''3b26yfnbx7gappr3dgywi5ib7yrjba3k'' of
        None \<Rightarrow> None | Some rust_dev \<Rightarrow>
      (case example_block now id3 bose_search_manifest f64_0_7 ''pr3dgywi5ib7yrjba3k3b26yfnbx7gap'' of
        None \<Rightarrow> None | Some bose_search \<Rightarrow> Some [git, rust_dev, bose_search])))"

text \<open>
  A list of blocks is a dependency chain when every requirement of a block is a capability
  some earlier block provides.
\<close>

fun dependency_chain :: "string set \<Rightarrow> Block list \<Rightarrow> bool" where
  "dependency_chain avail [] = True"
| "dependency_chain avail (b # bs) =
     (set (map dep_name (requires (manifest b))) \<subseteq> avail
      \<and> dependency_chain (avail \<union> set (map cap_name (provides (manifest b)))) bs)"

lemmas f64_eval_defs =
  f64_scaled_def f64_magnitude_def f64_exponent_def f64_fraction_def f64_sign_def is_nan_def

lemma example_scores_valid:
  "TrustScore_new f64_0_9 = Ok (TrustScore f64_0_9)"
  "TrustScore_new f64_0_85 = Ok (TrustScore f64_0_85)"
  "TrustScore_new f64_0_7 = Ok (TrustScore f64_0_7)"
  by (simp_all add: TrustScore_new_def f64_le_def f64_eval_defs f64_zero_def f64_one_def
      f64_0_9_def f64_0_85_def f64_0_7_def)

lemmas manifest_defs = git_manifest_def rust_dev_manifest_def bose_search_manifest_def

text \<open>
  \<open>example_blocks\<close> never panics, and the three blocks form the documented dependency
  chain \<open>git-env \<leftarrow> rust-dev-env \<leftarrow> bose-search\<close>: every requirement is provided by an
  earlier block of the list.
\<close>

lemma example_blocks_chain:
  "\<exists>bs. example_blocks now id1 id2 id3 = Some bs
     \<and> map (\<lambda>b. man_name (manifest b)) bs = [''git-env'', ''rust-dev-env'', ''bose-search'']
     \<and> map block_id bs = [BlockId id1, BlockId id2, BlockId id3]
     \<and> list_all (\<lambda>b. wf_TrustScore (trust_score b)) bs
     \<and> dependency_chain {} bs"
proof -
  have "wf_TrustScore (TrustScore v)" if "TrustScore_new v = Ok (TrustScore v)" for v
    using that by (simp add: TrustScore_new_iff wf_TrustScore_def split: if_splits)
  then show ?thesis
    by (simp add: example_blocks_def example_block_def unwrap_def example_scores_valid
        manifest_defs BlockId_new_def)
qed

end
