(* ===== verification/Vm_Types.thy ===== *)
theory Vm_Types
  imports Forge_Blocks
begin

text \<open>
  The data of the executor crate: \<open>config.rs\<close>, \<open>error.rs\<close>, \<open>handle.rs\<close> and the output
  type of \<open>backend.rs\<close>. A \<open>PathBuf\<close> is its text; a child process is its process id; an
  \<open>std::io::Error\<close> is its \<open>Display\<close> text. Printing a \<open>Uuid\<close> is the parameter \<open>fmt_uuid\<close>.
\<close>

type_synonym path = string
type_synonym pid = nat

section \<open>Paths\<close>

text \<open>\<open>Path::is_absolute\<close> and \<open>Path::join\<close> on Unix.\<close>

definition is_absolute :: "path \<Rightarrow> bool" where
  "is_absolute p = (case p of [] \<Rightarrow> False | c # _ \<Rightarrow> c = CHR ''/'')"

definition path_join :: "path \<Rightarrow> path \<Rightarrow> path" where
  "path_join dir p =
     (if is_absolute p \<or> dir = [] then p
      else if last dir = CHR ''/'' then dir @ p
      else dir @ ''/'' @ p)"

lemma path_join_inject:
  assumes "\<not> is_absolute p" and "\<not> is_absolute q"
  shows "path_join dir p = path_join dir q \<longleftrightarrow> p = q"
  using assms by (auto simp: path_join_def)

section \<open>Configuration\<close>

record VmConfig =
  kernel_path :: path
  rootfs_path :: path
  vcpu_count :: u8
  mem_size_mib :: u32
  boot_args :: string

definition VmConfig_new :: "path \<Rightarrow> path \<Rightarrow> VmConfig" where
  "VmConfig_new kernel_p rootfs_p =
     \<lparr>kernel_path = kernel_p, rootfs_path = rootfs_p, vcpu_count = 1, mem_size_mib = 128,
      boot_args = ''console=ttyS0 reboot=k panic=1 pci=off''\<rparr>"

text \<open>The snapshot identifier of the executor crate (a type of its own, not forge-core's).\<close>

datatype VmSnapshotId = VmSnapshotId (snapshot_uuid: uuid)

definition VmSnapshotId_new :: "uuid \<Rightarrow> VmSnapshotId" where
  "VmSnapshotId_new drawn = VmSnapshotId drawn"

definition VmSnapshotId_default :: "uuid \<Rightarrow> VmSnapshotId" where
  "VmSnapshotId_default drawn = VmSnapshotId_new drawn"

fun VmSnapshotId_fmt :: "(uuid \<Rightarrow> string) \<Rightarrow> VmSnapshotId \<Rightarrow> string" where
  "VmSnapshotId_fmt fmt_uuid (VmSnapshotId u) = fmt_uuid u"

section \<open>Errors, handles, output\<close>

datatype ExecutorError =
    BinaryNotFound path
  | KvmUnavailable string
  | SpawnFailed string
  | SnapshotFailed uuid string
  | RestoreFailed uuid string
  | ApiError string
  | VmNotFound uuid
  | Io string

fun ExecutorError_fmt :: "(uuid \<Rightarrow> string) \<Rightarrow> ExecutorError \<Rightarrow> string" where
  "ExecutorError_fmt fmt_uuid (BinaryNotFound p) = ''firecracker binary not found at '' @ p"
| "ExecutorError_fmt fmt_uuid (KvmUnavailable reason) = ''KVM not available: '' @ reason"
| "ExecutorError_fmt fmt_uuid (SpawnFailed msg) = ''VM spawn failed: '' @ msg"
| "ExecutorError_fmt fmt_uuid (SnapshotFailed vm_id reason) =
     ''snapshot failed for VM '' @ fmt_uuid vm_id @ '': '' @ reason"
| "ExecutorError_fmt fmt_uuid (RestoreFailed sid reason) =
     ''restore failed for snapshot '' @ fmt_uuid sid @ '': '' @ reason"
| "ExecutorError_fmt fmt_uuid (ApiError msg) = ''API request failed: '' @ msg"
| "ExecutorError_fmt fmt_uuid (VmNotFound vm_id) = ''VM not found: '' @ fmt_uuid vm_id"
| "ExecutorError_fmt fmt_uuid (Io e) = e"

record VmHandle =
  vm_id :: uuid
  socket_path :: path
  process :: pid
  vm_created_at :: datetime

definition VmHandle_new :: "datetime \<Rightarrow> uuid \<Rightarrow> path \<Rightarrow> pid \<Rightarrow> VmHandle" where
  "VmHandle_new now i sock p =
     \<lparr>vm_id = i, socket_path = sock, process = p, vm_created_at = now\<rparr>"

record ExecutionOutput =
  out_stdout :: "u8 list"
  out_stderr :: "u8 list"
  exit_code :: i32

end
