(* ===== verification/Json.thy ===== *)
theory Json
  imports Rust_Text
begin

text \<open>
  JSON documents. A document is a tree that keeps the order and repetition of the members of
  an object and the text of a number with a fraction or an exponent. Printing and reading
  documents is the \<open>serde_json\<close> crate's, a parameter of the model; the locale
  \<open>serde_json\<close> holds what the program relies on, that a printed document is read back. It is
  interpreted by a printer of the compact format and a reader with the crate's limit
  on nesting.
\<close>

datatype json =
    JNull
  | JBool bool
  | JNum int
  | JFloat string
  | JStr string
  | JArr "json list"
  | JObj "(string \<times> json) list"

section \<open>The documents that are read back\<close>

fun json_depth :: "json \<Rightarrow> nat" where
  "json_depth (JArr js) = Suc (foldr max (map json_depth js) 0)"
| "json_depth (JObj kvs) = Suc (foldr max (map (\<lambda>(_, j). json_depth j) kvs) 0)"
| "json_depth _ = 0"

definition digits1 :: "string \<Rightarrow> bool" where
  "digits1 t = (t \<noteq> [] \<and> list_all is_digit t)"

definition exponent_part :: "string \<Rightarrow> bool" where
  "exponent_part r = (case r of
     [] \<Rightarrow> True
   | e # t \<Rightarrow> e \<in> set ''eE'' \<and>
       (case t of c # u \<Rightarrow> if c \<in> set ''+-'' then digits1 u else digits1 t | [] \<Rightarrow> False))"

text \<open>The literal of a number that is not an integer: it has a fraction or an exponent.\<close>

definition float_token :: "string \<Rightarrow> bool" where
  "float_token t =
     (let u = (case t of c # r \<Rightarrow> if c = CHR ''-'' then r else t | [] \<Rightarrow> []);
          whole = takeWhile is_digit u; r = dropWhile is_digit u
      in whole \<noteq> [] \<and> (hd whole = CHR ''0'' \<longrightarrow> length whole = 1) \<and>
         (case r of
            [] \<Rightarrow> False
          | c # f \<Rightarrow> if c = CHR ''.''
              then takeWhile is_digit f \<noteq> [] \<and> exponent_part (dropWhile is_digit f)
              else exponent_part r))"

text \<open>Integers of 64 bits, with or without sign, are kept as integers.\<close>

fun json_ok :: "json \<Rightarrow> bool" where
  "json_ok (JNum i) = (- (2 ^ 63) \<le> i \<and> i < 2 ^ 64)"
| "json_ok (JFloat t) = float_token t"
| "json_ok (JArr js) = list_all json_ok js"
| "json_ok (JObj kvs) = list_all (\<lambda>(_, j). json_ok j) kvs"
| "json_ok _ = True"

locale serde_json =
  fixes to_text :: "json \<Rightarrow> string" and from_text :: "string \<Rightarrow> json option"
  assumes text_roundtrip: "json_ok j \<Longrightarrow> json_depth j < 128 \<Longrightarrow> from_text (to_text j) = Some j"

section \<open>The compact format\<close>

abbreviation quote_char :: char where "quote_char \<equiv> CHR 0x22"
abbreviation backslash :: char where "backslash \<equiv> CHR 0x5C"

definition short_escapes :: "(char \<times> char) list" where
  "short_escapes =
     [(quote_char, quote_char), (backslash, backslash), (CHR 0x08, CHR ''b''), (CHR 0x09, CHR ''t''),
      (CHR 0x0A, CHR ''n''), (CHR 0x0C, CHR ''f''), (CHR 0x0D, CHR ''r'')]"

definition json_escape :: "char \<Rightarrow> string" where
  "json_escape c =
     (case map_of short_escapes c of
        Some e \<Rightarrow> [backslash, e]
      | None \<Rightarrow> if (of_char c :: nat) < 32 then [backslash] @ ''u00'' @ fmt_02x (byte_of_char c) else [c])"

definition json_string :: "string \<Rightarrow> string" where
  "json_string s = [quote_char] @ concat (map json_escape s) @ [quote_char]"

fun comma_sep :: "string list \<Rightarrow> string" where
  "comma_sep [] = []"
| "comma_sep [t] = t"
| "comma_sep (t # u # ts) = t @ '','' @ comma_sep (u # ts)"

fun json_text :: "json \<Rightarrow> string" where
  "json_text JNull = ''null''"
| "json_text (JBool b) = (if b then ''true'' else ''false'')"
| "json_text (JNum i) = show_int i"
| "json_text (JFloat t) = t"
| "json_text (JStr s) = json_string s"
| "json_text (JArr js) = ''['' @ comma_sep (map json_text js) @ '']''"
| "json_text (JObj kvs) =
     ''{'' @ comma_sep (map (\<lambda>(k, j). json_string k @ '':'' @ json_text j) kvs) @ ''}''"

section \<open>Reading\<close>

definition is_ws :: "char \<Rightarrow> bool" where
  "is_ws c = (c = CHR '' '' \<or> c = CHR 0x0A \<or> c = CHR 0x0D \<or> c = CHR 0x09)"

abbreviation skip_ws :: "string \<Rightarrow> string" where
  "skip_ws \<equiv> dropWhile is_ws"

definition hex_value :: "char \<Rightarrow> nat option" where
  "hex_value c =
     (let n = (of_char c :: nat) in
      if 48 \<le> n \<and> n \<le> 57 then Some (n - 48)
      else if 97 \<le> n \<and> n \<le> 102 then Some (n - 87)
      else if 65 \<le> n \<and> n \<le> 70 then Some (n - 55)
      else None)"

text \<open>An escaped code of the basic plane, outside the surrogates, as its UTF-8 bytes.\<close>

definition hex4 :: "char \<Rightarrow> char \<Rightarrow> char \<Rightarrow> char \<Rightarrow> string option" where
  "hex4 a b c d =
     (case (hex_value a, hex_value b, hex_value c, hex_value d) of
        (Some w, Some x, Some y, Some z) \<Rightarrow>
          (let n = ((w * 16 + x) * 16 + y) * 16 + z in
           if n < 0x80 then Some [char_of n]
           else if n < 0x800 then Some [char_of (0xC0 + n div 64), char_of (0x80 + n mod 64)]
           else if 0xD800 \<le> n \<and> n < 0xE000 then None
           else Some [char_of (0xE0 + n div 4096), char_of (0x80 + n div 64 mod 64), char_of (0x80 + n mod 64)])
      | _ \<Rightarrow> None)"

definition long_escapes :: "(char \<times> char) list" where
  "long_escapes = (CHR ''/'', CHR ''/'') # map (\<lambda>(c, e). (e, c)) short_escapes"

fun json_unquote :: "string \<Rightarrow> (string \<times> string) option" where
  "json_unquote [] = None"
| "json_unquote (c # s) =
     (if c = quote_char then Some ([], s)
      else if c = backslash then
        (case s of
           [] \<Rightarrow> None
         | e # r \<Rightarrow>
             if e = CHR ''u'' then
               (case r of
                  w # x # y # z # r' \<Rightarrow>
                    (case hex4 w x y z of
                       None \<Rightarrow> None
                     | Some t \<Rightarrow> map_option (apfst ((@) t)) (json_unquote r'))
                | _ \<Rightarrow> None)
             else
               (case map_of long_escapes e of
                  None \<Rightarrow> None
                | Some d \<Rightarrow> map_option (apfst ((#) d)) (json_unquote r)))
      else if (of_char c :: nat) < 32 then None
      else map_option (apfst ((#) c)) (json_unquote s))"

definition num_char :: "char \<Rightarrow> bool" where
  "num_char c = (c \<in> set ''0123456789+-.eE'')"

definition int_token :: "string \<Rightarrow> bool" where
  "int_token t = (digits1 t \<and> (hd t = CHR ''0'' \<longrightarrow> length t = 1))"

definition json_number :: "string \<Rightarrow> json option" where
  "json_number t =
     (if int_token t then Some (JNum (dec_value 0 t))
      else if t \<noteq> [] \<and> hd t = CHR ''-'' \<and> int_token (tl t) then Some (JNum (- dec_value 0 (tl t)))
      else if float_token t then Some (JFloat t)
      else None)"

text \<open>The items of an array or an object up to the closing bracket, at most \<open>n\<close> of them.\<close>

fun json_items :: "(string \<Rightarrow> ('a \<times> string) option) \<Rightarrow> char \<Rightarrow> nat \<Rightarrow> string \<Rightarrow> ('a list \<times> string) option" where
  "json_items item close 0 s = None"
| "json_items item close (Suc n) s =
     (case item s of
        None \<Rightarrow> None
      | Some (a, r) \<Rightarrow>
          (case skip_ws r of
             [] \<Rightarrow> None
           | c # r' \<Rightarrow>
               if c = close then Some ([a], r')
               else if c = CHR '','' then map_option (apfst ((#) a)) (json_items item close n r')
               else None))"

definition json_list :: "(string \<Rightarrow> ('a \<times> string) option) \<Rightarrow> char \<Rightarrow> string \<Rightarrow> ('a list \<times> string) option" where
  "json_list item close s =
     (if skip_ws s \<noteq> [] \<and> hd (skip_ws s) = close then Some ([], tl (skip_ws s))
      else json_items item close (length s) s)"

definition json_member ::
  "(string \<Rightarrow> (json \<times> string) option) \<Rightarrow> string \<Rightarrow> ((string \<times> json) \<times> string) option" where
  "json_member val s =
     (case skip_ws s of
        [] \<Rightarrow> None
      | c # r \<Rightarrow>
          if c \<noteq> quote_char then None
          else (case json_unquote r of
             None \<Rightarrow> None
           | Some (k, r') \<Rightarrow>
               (case skip_ws r' of
                  [] \<Rightarrow> None
                | c # t \<Rightarrow> if c = CHR '':'' then map_option (apfst (Pair k)) (val t) else None)))"

definition strip_prefix :: "string \<Rightarrow> string \<Rightarrow> string option" where
  "strip_prefix p s = (if take (length p) s = p then Some (drop (length p) s) else None)"

definition json_step :: "(string \<Rightarrow> (json \<times> string) option) \<Rightarrow> string \<Rightarrow> (json \<times> string) option" where
  "json_step val s =
     (case skip_ws s of
        [] \<Rightarrow> None
      | c # r \<Rightarrow>
          if c = quote_char then map_option (apfst JStr) (json_unquote r)
          else if c = CHR ''['' then map_option (apfst JArr) (json_list val (CHR '']'') r)
          else if c = CHR ''{'' then map_option (apfst JObj) (json_list (json_member val) (CHR ''}'') r)
          else if c = CHR ''n'' then map_option (Pair JNull) (strip_prefix ''ull'' r)
          else if c = CHR ''t'' then map_option (Pair (JBool True)) (strip_prefix ''rue'' r)
          else if c = CHR ''f'' then map_option (Pair (JBool False)) (strip_prefix ''alse'' r)
          else map_option (\<lambda>j. (j, dropWhile num_char (c # r))) (json_number (takeWhile num_char (c # r))))"

primrec json_value :: "nat \<Rightarrow> string \<Rightarrow> (json \<times> string) option" where
  "json_value 0 = (\<lambda>_. None)"
| "json_value (Suc d) = json_step (json_value d)"

definition json_read :: "string \<Rightarrow> json option" where
  "json_read s =
     (case json_value 128 s of
        None \<Rightarrow> None
      | Some (j, r) \<Rightarrow> if skip_ws r = [] then Some j else None)"

section \<open>A printed document is read back\<close>

lemma less_16_cases: "d < (16 :: nat) \<longleftrightarrow> d \<in> {0, 1, 2, 3, 4, 5, 6, 7, 8, 9, 10, 11, 12, 13, 14, 15}"
  by (simp add: numeral_eq_Suc less_Suc_eq)

lemma hex_value_digit: "n < 16 \<Longrightarrow> hex_value (hex_digit n) = Some n"
  by (auto simp: less_16_cases hex_value_def hex_digit_def)

lemma hex4_control:
  assumes "(of_char c :: nat) < 32"
  shows "hex4 (CHR ''0'') (CHR ''0'') (hex_digit (of_char c div 16)) (hex_digit (of_char c mod 16)) = Some [c]"
proof -
  have "hex_value (CHR ''0'') = Some 0" by (simp add: hex_value_def)
  with assms show ?thesis by (simp add: hex4_def hex_value_digit Let_def)
qed

lemma json_unquote_escape:
  "json_unquote (json_escape c @ t) = map_option (apfst ((#) c)) (json_unquote t)"
proof (cases "map_of short_escapes c")
  case None
  then have "c \<noteq> quote_char" "c \<noteq> backslash" by (auto simp: short_escapes_def)
  with None show ?thesis
    by (auto simp: json_escape_def fmt_02x_def hex4_control apfst_def map_prod_def split: option.split)
next
  case (Some e)
  then have "(c, e) \<in> set short_escapes" by (rule map_of_SomeD)
  moreover have "list_all (\<lambda>(c, e). e \<noteq> CHR ''u'' \<and> map_of long_escapes e = Some c) short_escapes" by code_simp
  ultimately have "e \<noteq> CHR ''u''" "map_of long_escapes e = Some c" by (auto simp: list_all_iff)
  with Some show ?thesis by (simp add: json_escape_def)
qed

lemma json_unquote_string: "json_unquote (concat (map json_escape s) @ quote_char # r) = Some (s, r)"
  by (induction s) (simp_all add: json_unquote_escape del: json_unquote.simps(2), simp)

definition number_ends :: "string \<Rightarrow> bool" where
  "number_ends r = (case r of [] \<Rightarrow> True | c # _ \<Rightarrow> \<not> num_char c)"

lemma takeWhile_number:
  assumes "list_all num_char t" and "number_ends r"
  shows "takeWhile num_char (t @ r) = t" "dropWhile num_char (t @ r) = r"
  using assms by (cases r; auto simp: number_ends_def list_all_iff takeWhile_append dropWhile_append)+

lemma of_char_digit_char: "d < 10 \<Longrightarrow> of_char (digit_char d) = 48 + d"
  by (auto simp: less_10_cases digit_char_def)

lemma is_digit_literal:
  assumes "is_digit c"
  shows "c \<in> set ''0123456789''"
proof -
  have n: "48 \<le> (of_char c :: nat)" "(of_char c :: nat) \<le> 57"
    using assms by (auto simp: is_digit_def to_digit_def Let_def split: if_splits)
  define d where "d = (of_char c :: nat) - 48"
  have "d < 10" using n by (simp add: d_def)
  moreover have "c = digit_char d"
    using n of_char_digit_char [OF \<open>d < 10\<close>] by (metis d_def le_add_diff_inverse of_char_eq_iff)
  ultimately show ?thesis unfolding digit_char_def using nth_mem [of d "''0123456789''"] by simp
qed

lemma not_digit: "\<not> is_digit (CHR ''-'')" "\<not> is_digit (CHR ''.'')"
  by code_simp+

lemma hd_show_nat: "hd (show_nat n) = CHR ''0'' \<longleftrightarrow> n = 0"
proof (induction n rule: show_nat.induct)
  case (1 n)
  show ?case
  proof (cases "n < 10")
    case True
    then show ?thesis by (subst show_nat.simps) (auto simp: less_10_cases digit_char_def)
  next
    case False
    with 1 show ?thesis by (subst show_nat.simps) simp
  qed
qed

lemma int_token_show_nat: "int_token (show_nat n)"
proof -
  have "length (show_nat 0) = 1" by (subst show_nat.simps) simp
  then show ?thesis using hd_show_nat [of n] show_nat_digits [of n] by (auto simp: int_token_def digits1_def)
qed

lemma json_number_show_int: "json_number (show_int i) = Some (JNum i)"
proof (cases "i < 0")
  case True
  have "\<not> int_token (CHR ''-'' # t)" for t by (simp add: int_token_def digits1_def not_digit)
  with True show ?thesis
    by (simp add: json_number_def show_int_def int_token_show_nat dec_value_show_nat)
next
  case False
  then show ?thesis by (simp add: json_number_def show_int_def int_token_show_nat dec_value_show_nat)
qed

lemma digit_num_char: "is_digit c \<Longrightarrow> num_char c"
  using is_digit_literal [of c] by (auto simp: num_char_def)

lemma num_char_literals:
  "num_char (CHR ''-'')" "num_char (CHR ''+'')" "num_char (CHR ''.'')" "num_char (CHR ''e'')" "num_char (CHR ''E'')"
  by (simp_all add: num_char_def)

lemma digits1_num_char: "digits1 t \<Longrightarrow> list_all num_char t"
  using digit_num_char by (auto simp: digits1_def list_all_iff)

lemma exponent_part_num_char: "exponent_part r \<Longrightarrow> list_all num_char r"
  by (auto simp: exponent_part_def num_char_literals dest!: digits1_num_char split: list.splits if_splits)

lemma split_digits: "list_all num_char (dropWhile is_digit u) \<Longrightarrow> list_all num_char u"
proof -
  have "list_all num_char (takeWhile is_digit u)"
    using digit_num_char by (auto simp: list_all_iff dest: set_takeWhileD)
  then show "list_all num_char (dropWhile is_digit u) \<Longrightarrow> ?thesis"
    by (metis list_all_append takeWhile_dropWhile_id)
qed

lemma float_token_shape:
  assumes "float_token t"
  shows "list_all num_char t" "\<exists>c r. t = c # r \<and> (c = CHR ''-'' \<or> is_digit c)" "\<not> list_all is_digit t"
    "hd t = CHR ''-'' \<Longrightarrow> \<not> list_all is_digit (tl t)"
proof -
  define u where "u = (case t of c # r \<Rightarrow> if c = CHR ''-'' then r else t | [] \<Rightarrow> [])"
  obtain c f where rest: "dropWhile is_digit u = c # f"
    using assms unfolding float_token_def u_def [symmetric] Let_def by (cases "dropWhile is_digit u") simp_all
  have "takeWhile is_digit u \<noteq> []" and
    f: "if c = CHR ''.'' then exponent_part (dropWhile is_digit f) else exponent_part (c # f)"
    using assms unfolding float_token_def u_def [symmetric] Let_def rest by (simp_all split: if_splits)
  then have first: "\<exists>c r. u = c # r \<and> is_digit c" by (cases u) (auto split: if_splits)
  have "list_all num_char (c # f)"
    using f split_digits [of f] exponent_part_num_char [of "dropWhile is_digit f"] exponent_part_num_char [of "c # f"]
    by (cases "c = CHR ''.''") (simp_all add: num_char_literals)
  then have num: "list_all num_char u" using split_digits [of u] rest by simp
  have "\<not> list_all is_digit u" using rest by (metis dropWhile_eq_Nil_conv list.simps(3) list_all_iff)
  note nu = num this first
  have t: "t = u \<or> t = CHR ''-'' # u"
    using nu(3) by (auto simp: u_def split: list.splits if_splits)
  show "list_all num_char t" "\<exists>c r. t = c # r \<and> (c = CHR ''-'' \<or> is_digit c)" "\<not> list_all is_digit t"
    "hd t = CHR ''-'' \<Longrightarrow> \<not> list_all is_digit (tl t)"
    using t nu not_digit by (auto simp: num_char_literals)
qed

lemma json_number_float: "float_token t \<Longrightarrow> json_number t = Some (JFloat t)"
  using float_token_shape [of t] by (auto simp: json_number_def int_token_def digits1_def)

text \<open>What a printed value begins with.\<close>

definition starts_value :: "string \<Rightarrow> bool" where
  "starts_value t = (case t of [] \<Rightarrow> False | c # _ \<Rightarrow> \<not> is_ws c \<and> c \<noteq> CHR '']'' \<and> c \<noteq> CHR ''}'')"

lemma show_int_num_char: "list_all num_char (show_int i)"
  using digit_num_char show_nat_digits by (auto simp: show_int_def list_all_iff num_char_literals)

lemma num_char_starts: "t \<noteq> [] \<Longrightarrow> list_all num_char t \<Longrightarrow> starts_value t"
  by (cases t) (auto simp: num_char_def starts_value_def is_ws_def)

lemma starts_value_text: "json_ok j \<Longrightarrow> starts_value (json_text j)"
proof (cases j)
  case (JNum i)
  have "show_int i \<noteq> []" by (simp add: show_int_def)
  with JNum show ?thesis by (simp add: num_char_starts show_int_num_char)
next
  case (JFloat t)
  assume "json_ok j"
  with JFloat have "list_all num_char t" "t \<noteq> []" using float_token_shape [of t] by auto
  with JFloat show ?thesis by (simp add: num_char_starts)
qed (simp_all add: starts_value_def is_ws_def json_string_def)

lemma skip_ws_starts: "starts_value t \<Longrightarrow> skip_ws (t @ r) = t @ r"
  by (cases t) (simp_all add: starts_value_def)

text \<open>An item printed in front of a character that ends numbers is read back.\<close>

definition reads_back :: "(string \<Rightarrow> ('a \<times> string) option) \<Rightarrow> ('a \<Rightarrow> string) \<Rightarrow> 'a \<Rightarrow> bool" where
  "reads_back item txt a = (starts_value (txt a) \<and> (\<forall>r. number_ends r \<longrightarrow> item (txt a @ r) = Some (a, r)))"

definition closes :: "char \<Rightarrow> bool" where
  "closes c = (c = CHR '']'' \<or> c = CHR ''}'')"

lemma number_ends_close: "closes c \<Longrightarrow> number_ends (c # r)" "number_ends (CHR '','' # r)"
  by (auto simp: number_ends_def num_char_def closes_def)

lemma not_ws: "\<not> is_ws (CHR '','')" "\<not> is_ws (CHR '':'')" "\<not> is_ws quote_char" "closes c \<Longrightarrow> \<not> is_ws c"
  by (auto simp: is_ws_def closes_def)

lemma json_items_text:
  assumes "closes close" and "as \<noteq> []" and "list_all (reads_back item txt) as" and "length as \<le> n"
  shows "json_items item close n (comma_sep (map txt as) @ close # r) = Some (as, r)"
  using assms(2-)
proof (induction as arbitrary: n)
  case (Cons a as)
  then obtain m where n: "n = Suc m" by (cases n) auto
  have read: "number_ends r' \<Longrightarrow> item (txt a @ r') = Some (a, r')" for r'
    using Cons.prems(2) by (simp add: reads_back_def)
  show ?case
  proof (cases as)
    case Nil
    then show ?thesis by (simp add: n read number_ends_close assms(1) not_ws)
  next
    case (Cons b bs)
    moreover have "close \<noteq> CHR '',''" using assms(1) by (auto simp: closes_def)
    ultimately show ?thesis
      using Cons.IH [of m] Cons.prems by (simp add: n read number_ends_close not_ws)
  qed
qed simp

lemma length_comma_sep: "list_all (\<lambda>t. t \<noteq> []) ts \<Longrightarrow> length ts \<le> length (comma_sep ts)"
proof (induction ts rule: comma_sep.induct)
  case (2 t)
  then show ?case by (cases t) simp_all
qed auto

lemma starts_comma_sep: "starts_value t \<Longrightarrow> starts_value (comma_sep (t # ts))"
  by (cases ts; cases t) (simp_all add: starts_value_def)

lemma json_list_text:
  assumes "closes close" and "list_all (reads_back item txt) as"
  shows "json_list item close (comma_sep (map txt as) @ close # r) = Some (as, r)"
proof (cases as)
  case Nil
  then show ?thesis using assms(1) by (simp add: json_list_def not_ws)
next
  case (Cons a as')
  let ?t = "comma_sep (map txt as)"
  have t: "starts_value ?t" using assms(2) Cons starts_comma_sep by (simp add: reads_back_def)
  then have "skip_ws (?t @ close # r) = ?t @ close # r" by (rule skip_ws_starts)
  moreover have "hd (?t @ close # r) \<noteq> close"
    using t assms(1) by (cases ?t) (auto simp: starts_value_def closes_def)
  moreover have "length as \<le> length (?t @ close # r)"
  proof -
    have "list_all (\<lambda>t. t \<noteq> []) (map txt as)"
      using assms(2) by (auto simp: list_all_iff reads_back_def starts_value_def)
    from length_comma_sep [OF this] show ?thesis by simp
  qed
  ultimately show ?thesis
    using json_items_text [OF assms(1) _ assms(2), of "length (?t @ close # r)" r] Cons
    by (simp add: json_list_def)
qed

lemma member_reads_back:
  assumes "reads_back val json_text j"
  shows "reads_back (json_member val) (\<lambda>(k, j). json_string k @ '':'' @ json_text j) (k, j)"
  using assms json_unquote_string [of k]
  by (simp add: reads_back_def json_member_def starts_value_def json_string_def not_ws)

lemma json_step_number:
  assumes "t \<noteq> []" and "list_all num_char t" and "number_ends r"
  shows "json_step val (t @ r) = map_option (\<lambda>j. (j, r)) (json_number t)"
proof -
  obtain c t' where t: "t = c # t'" using assms(1) by (cases t) auto
  have "num_char c" using assms(2) by (simp add: t)
  then have "c \<noteq> quote_char" "c \<noteq> CHR ''[''" "c \<noteq> CHR ''{''" "c \<noteq> CHR ''n''" "c \<noteq> CHR ''t''" "c \<noteq> CHR ''f''" "\<not> is_ws c"
    by (auto simp: num_char_def is_ws_def)
  then show ?thesis
    using takeWhile_number [OF assms(2,3)] by (simp add: json_step_def t)
qed

lemmas literal_text = json_step_def starts_value_def is_ws_def strip_prefix_def

lemma foldr_max_ge: "x \<in> set xs \<Longrightarrow> f x \<le> foldr max (map f xs) (0 :: nat)"
  by (induction xs) (auto simp: max.coboundedI2)

lemma json_value_text: "json_ok j \<Longrightarrow> json_depth j < d \<Longrightarrow> reads_back (json_value d) json_text j"
proof (induction j arbitrary: d)
  case (JNum i)
  have "show_int i \<noteq> []" by (simp add: show_int_def)
  with JNum show ?case
    by (cases d) (simp_all add: reads_back_def json_step_number show_int_num_char json_number_show_int num_char_starts)
next
  case (JFloat t)
  then have "list_all num_char t" "t \<noteq> []" using float_token_shape [of t] by auto
  with JFloat show ?case
    by (cases d) (simp_all add: reads_back_def json_step_number json_number_float num_char_starts)
next
  case (JStr s)
  then show ?case using json_unquote_string [of s]
    by (cases d) (simp_all add: reads_back_def json_step_def json_string_def starts_value_def not_ws)
next
  case (JArr js)
  then obtain e where d: "d = Suc e" by (cases d) auto
  have "list_all (reads_back (json_value e) json_text) js"
    using JArr foldr_max_ge [of _ js json_depth] by (fastforce simp: list_all_iff d)
  then show ?case
    using json_list_text [of "CHR '']''" "json_value e" json_text js]
    by (simp add: d reads_back_def json_step_def starts_value_def is_ws_def closes_def)
next
  case (JObj kvs)
  then obtain e where d: "d = Suc e" by (cases d) auto
  have "reads_back (json_value e) json_text j" if "(k, j) \<in> set kvs" for k j
    using JObj.IH [of "(k, j)" j e] JObj.prems that foldr_max_ge [OF that, of "\<lambda>(_, j). json_depth j"]
    by (fastforce simp: list_all_iff d)
  then have "list_all (reads_back (json_member (json_value e)) (\<lambda>(k, j). json_string k @ '':'' @ json_text j)) kvs"
    by (auto simp: list_all_iff intro!: member_reads_back [simplified])
  then show ?case
    using json_list_text [of "CHR ''}''" "json_member (json_value e)" _ kvs]
    by (simp add: d reads_back_def json_step_def starts_value_def is_ws_def closes_def)
next
  case JNull
  then show ?case by (cases d) (simp_all add: reads_back_def literal_text)
next
  case (JBool b)
  then show ?case by (cases d) (simp_all add: reads_back_def literal_text)
qed

lemma json_read_text: "json_ok j \<Longrightarrow> json_depth j < 128 \<Longrightarrow> json_read (json_text j) = Some j"
  using json_value_text [of j 128] unfolding reads_back_def json_read_def
  by (auto dest!: spec [of _ "[]"] simp: number_ends_def)

interpretation compact: serde_json json_text json_read
  by unfold_locales (rule json_read_text)

end
