(* ===== verification/Host.thy ===== *)
theory Host
  imports Vm_Types Json
begin

text \<open>
  The world the executor runs in. Everything the executor asks of the operating system,
  of Firecracker and of third-party crates is answered by an environment record \<open>env\<close>;
  an answer may depend on the whole history of earlier requests, so one environment is one
  possible behaviour of the outside world, and a theorem for all environments holds
  whatever the outside world does. Each request is logged as an \<open>event\<close>, newest first.

  Effectful code is a function from the history to a result and the extended history.
  \<open>try_bind\<close> is \<open>.await?\<close>: it stops at the first error, as the source's \<open>?\<close> does.
\<close>

section \<open>Requests to the outside world\<close>

datatype http_method = GET | PUT | PATCH

record http_request =
  req_method :: http_method
  req_uri :: string
  req_headers :: "(string \<times> string) list"
  req_body :: "u8 list"

record http_response =
  resp_status :: nat
  resp_body :: "string + u8 list"

record command =
  program :: path
  cmd_args :: "string list"
  stdout_piped :: bool
  stderr_null :: bool

datatype event =
    Exists path
  | Metadata path
  | CreateDirAll path
  | DrawUuid
  | Spawned command pid
  | SpawnError command
  | Slept nat
  | Connected path
  | Requested path http_request
  | Killed pid
  | KillError pid
  | Dropped pid
  | Waited pid
  | RemovedFile path
  | ReadStdout pid duration

type_synonym history = "event list"

text \<open>How a bounded read of a child's standard output ends.\<close>

datatype read_outcome = TimedOut | ReadError string | ReadOk "u8 list"

record env =
  path_exists :: "history \<Rightarrow> path \<Rightarrow> bool"
  metadata_ok :: "history \<Rightarrow> path \<Rightarrow> bool"
  path_var :: "string option"
  mkdir_error :: "history \<Rightarrow> path \<Rightarrow> string option"
  drawn_uuid :: "history \<Rightarrow> uuid"
  spawn_result :: "history \<Rightarrow> command \<Rightarrow> string + pid"
  kill_error :: "history \<Rightarrow> pid \<Rightarrow> string option"
  read_result :: "history \<Rightarrow> pid \<Rightarrow> duration \<Rightarrow> read_outcome"
  clock :: "history \<Rightarrow> datetime"
  monotonic :: "history \<Rightarrow> duration"
  connect_error :: "history \<Rightarrow> path \<Rightarrow> string option"
  handshake_error :: "history \<Rightarrow> path \<Rightarrow> string option"
  uri_error :: "string \<Rightarrow> string option"
  build_error :: "http_request \<Rightarrow> string option"
  send_result :: "history \<Rightarrow> path \<Rightarrow> http_request \<Rightarrow> string + http_response"
  fmt_status :: "nat \<Rightarrow> string"
  fmt_uuid :: "uuid \<Rightarrow> string"
  json_to_string :: "json \<Rightarrow> string"
  base64_decode :: "u8 list \<Rightarrow> u8 list option"

section \<open>Effectful computations\<close>

type_synonym 'a exec = "history \<Rightarrow> (ExecutorError + 'a) \<times> history"

definition ret :: "'a \<Rightarrow> 'a exec" where
  "ret a h = (Ok a, h)"

definition throw :: "ExecutorError \<Rightarrow> 'a exec" where
  "throw e h = (Err e, h)"

definition try_bind :: "'a exec \<Rightarrow> ('a \<Rightarrow> 'b exec) \<Rightarrow> 'b exec" where
  "try_bind m f h = (case m h of (Inl e, h') \<Rightarrow> (Err e, h') | (Inr a, h') \<Rightarrow> f a h')"

definition with_err :: "(ExecutorError \<Rightarrow> ExecutorError) \<Rightarrow> 'a exec \<Rightarrow> 'a exec" where
  "with_err g m h = (let (r, h') = m h in (map_err g r, h'))"

text \<open>\<open>let r = m.await;\<close> keeps the result as a value; \<open>let _ = m.await;\<close> drops it.\<close>

definition capture :: "'a exec \<Rightarrow> (ExecutorError + 'a) exec" where
  "capture m h = (let (r, h') = m h in (Ok r, h'))"

definition from_result :: "ExecutorError + 'a \<Rightarrow> 'a exec" where
  "from_result r h = (r, h)"

definition emit :: "event \<Rightarrow> unit exec" where
  "emit ev h = (Ok (), ev # h)"

text \<open>
  A scope that owns a child spawned with \<open>kill_on_drop(true)\<close>: leaving it with an error
  drops the child, which kills it.
\<close>

definition owning_child :: "pid \<Rightarrow> 'a exec \<Rightarrow> 'a exec" where
  "owning_child p m h =
     (case m h of (Inl e, h') \<Rightarrow> (Err e, Dropped p # h') | (Inr a, h') \<Rightarrow> (Ok a, h'))"

lemma exec_ret [exec_simps]: "ret a h = (Ok a, h)"
  and exec_throw [exec_simps]: "throw e h = (Err e, h)"
  and exec_emit [exec_simps]: "emit ev h = (Ok (), ev # h)"
  and exec_from_result [exec_simps]: "from_result r h = (r, h)"
  by (simp_all add: ret_def throw_def emit_def from_result_def)

lemmas exec_defs = try_bind_def with_err_def capture_def owning_child_def

section \<open>Primitive requests\<close>

definition ask_exists :: "env \<Rightarrow> path \<Rightarrow> bool exec" where
  "ask_exists E p h = (Ok (path_exists E h p), Exists p # h)"

definition ask_metadata :: "env \<Rightarrow> path \<Rightarrow> bool exec" where
  "ask_metadata E p h = (Ok (metadata_ok E h p), Metadata p # h)"

definition create_dir_all :: "env \<Rightarrow> path \<Rightarrow> unit exec" where
  "create_dir_all E p h =
     (case mkdir_error E h p of Some e \<Rightarrow> Err (Io e) | None \<Rightarrow> Ok (), CreateDirAll p # h)"

definition new_v4 :: "env \<Rightarrow> uuid exec" where
  "new_v4 E h = (Ok (drawn_uuid E h), DrawUuid # h)"

definition utc_now :: "env \<Rightarrow> datetime exec" where
  "utc_now E h = (Ok (clock E h), h)"

text \<open>\<open>Instant::now()\<close>: a reading of the monotonic clock.\<close>

definition instant_now :: "env \<Rightarrow> duration exec" where
  "instant_now E h = (Ok (monotonic E h), h)"

text \<open>\<open>Command::spawn\<close>; the caller turns the error text into its own error.\<close>

definition spawn_child :: "env \<Rightarrow> command \<Rightarrow> (string \<Rightarrow> ExecutorError) \<Rightarrow> pid exec" where
  "spawn_child E c on_error h =
     (case spawn_result E h c of
        Inl e \<Rightarrow> (Err (on_error e), SpawnError c # h)
      | Inr p \<Rightarrow> (Ok p, Spawned c p # h))"

definition kill_child :: "env \<Rightarrow> pid \<Rightarrow> unit exec" where
  "kill_child E p h =
     (case kill_error E h p of
        Some e \<Rightarrow> (Err (Io e), KillError p # h)
      | None \<Rightarrow> (Ok (), Killed p # h))"

definition sleep_ms :: "nat \<Rightarrow> unit exec" where
  "sleep_ms n = emit (Slept n)"

definition remove_file :: "path \<Rightarrow> unit exec" where
  "remove_file p = emit (RemovedFile p)"

definition read_with_timeout :: "env \<Rightarrow> pid \<Rightarrow> duration \<Rightarrow> read_outcome exec" where
  "read_with_timeout E p d h = (Ok (read_result E h p d), ReadStdout p d # h)"

section \<open>What a history says\<close>

text \<open>The child processes that run: spawned and neither killed, dropped nor reaped.\<close>

fun live :: "history \<Rightarrow> pid set" where
  "live [] = {}"
| "live (Spawned c p # h) = insert p (live h)"
| "live (Killed p # h) = live h - {p}"
| "live (Dropped p # h) = live h - {p}"
| "live (Waited p # h) = live h - {p}"
| "live (_ # h) = live h"

text \<open>The requests sent to Firecracker sockets, oldest first.\<close>

fun requests :: "history \<Rightarrow> (path \<times> http_request) list" where
  "requests [] = []"
| "requests (Requested s r # h) = requests h @ [(s, r)]"
| "requests (_ # h) = requests h"

text \<open>The total time slept, in milliseconds.\<close>

fun slept :: "history \<Rightarrow> nat" where
  "slept [] = 0"
| "slept (Slept n # h) = n + slept h"
| "slept (_ # h) = slept h"

text \<open>Two histories that agree on the requests sent and on the children that run.\<close>

definition same_effects :: "history \<Rightarrow> history \<Rightarrow> bool" where
  "same_effects h h' = (requests h' = requests h \<and> live h' = live h)"

lemma live_finite [simp]: "finite (live h)"
  by (induction h rule: live.induct) simp_all

text \<open>The children started in a part of the history; dropping them all ends them.\<close>

fun spawned_pids :: "history \<Rightarrow> pid list" where
  "spawned_pids [] = []"
| "spawned_pids (Spawned c p # h) = p # spawned_pids h"
| "spawned_pids (_ # h) = spawned_pids h"

lemma live_append: "live (g @ h) \<subseteq> live h \<union> set (spawned_pids g)"
  by (induction g rule: live.induct) auto

lemma live_dropped: "live (map Dropped ps @ h) = live h - set ps"
  by (induction ps) auto

end
