(* ===== verification/Unix_Client.thy ===== *)
theory Unix_Client
  imports Host
begin

text \<open>
  \<open>forge-executor/src/unix_client.rs\<close>: one HTTP request over a Unix socket. Connecting,
  the handshake, parsing the URI, building and sending the request and reading the body
  are answered by the environment; every failure is an \<open>ApiError\<close> with the step's text.
\<close>

definition is_success :: "nat \<Rightarrow> bool" where
  "is_success code = (200 \<le> code \<and> code < 300)"

definition api_http_request :: "http_method \<Rightarrow> string \<Rightarrow> string option \<Rightarrow> http_request" where
  "api_http_request method uri_path body =
     (let body_bytes = (case body of Some b \<Rightarrow> as_bytes b | None \<Rightarrow> []);
          content_len = length body_bytes
      in \<lparr>req_method = method, req_uri = uri_path,
          req_headers = (''Host'', ''localhost'') #
            (if content_len > 0
             then [(''Content-Type'', ''application/json''), (''Content-Length'', show_nat content_len)]
             else []),
          req_body = body_bytes\<rparr>)"

definition connect_stream :: "env \<Rightarrow> path \<Rightarrow> unit exec" where
  "connect_stream E sock h =
     (case connect_error E h sock of
        Some e \<Rightarrow> (Err (ApiError (''connect to '' @ sock @ '': '' @ e)), h)
      | None \<Rightarrow> (Ok (), Connected sock # h))"

definition handshake :: "env \<Rightarrow> path \<Rightarrow> unit exec" where
  "handshake E sock h =
     (case handshake_error E h sock of
        Some e \<Rightarrow> (Err (ApiError (''HTTP handshake: '' @ e)), h)
      | None \<Rightarrow> (Ok (), h))"

definition send_request :: "env \<Rightarrow> path \<Rightarrow> http_request \<Rightarrow> http_response exec" where
  "send_request E sock req h =
     (map_err (\<lambda>e. ApiError (''send request: '' @ e)) (send_result E h sock req),
      Requested sock req # h)"

definition check_response :: "env \<Rightarrow> string \<Rightarrow> http_response \<Rightarrow> ExecutorError + string" where
  "check_response E uri_path resp =
     (case resp_body resp of
        Inl e \<Rightarrow> Err (ApiError (''read response body: '' @ e))
      | Inr body_bytes \<Rightarrow>
          let body_str = from_utf8_lossy body_bytes in
          if \<not> is_success (resp_status resp)
          then Err (ApiError (''HTTP '' @ fmt_status E (resp_status resp) @ '' from '' @ uri_path
                 @ '': '' @ body_str))
          else Ok body_str)"

definition api_request ::
  "env \<Rightarrow> path \<Rightarrow> http_method \<Rightarrow> string \<Rightarrow> string option \<Rightarrow> string exec" where
  "api_request E sock method uri_path body =
     try_bind (connect_stream E sock) (\<lambda>_.
     try_bind (handshake E sock) (\<lambda>_.
     case uri_error E uri_path of
       Some e \<Rightarrow> throw (ApiError (''invalid URI path '' @ uri_path @ '': '' @ e))
     | None \<Rightarrow>
       (let req = api_http_request method uri_path body in
        case build_error E req of
          Some e \<Rightarrow> throw (ApiError (''build request: '' @ e))
        | None \<Rightarrow>
          try_bind (send_request E sock req) (\<lambda>resp.
          from_result (check_response E uri_path resp)))))"

section \<open>What a request does\<close>

lemmas api_request_defs =
  api_request_def try_bind_def connect_stream_def handshake_def send_request_def
  exec_throw exec_from_result

text \<open>A request never touches child processes and never sleeps.\<close>

lemma api_request_live: "live (snd (api_request E s m u b h)) = live h"
  by (simp add: api_request_defs Let_def split: option.split sum.split)

lemma api_request_slept: "slept (snd (api_request E s m u b h)) = slept h"
  by (simp add: api_request_defs Let_def split: option.split sum.split)

text \<open>It is sent at most once, and was sent if it succeeded.\<close>

lemma api_request_requests:
  "requests (snd (api_request E s m u b h)) = requests h
   \<or> requests (snd (api_request E s m u b h)) = requests h @ [(s, api_http_request m u b)]"
  by (simp add: api_request_defs Let_def split: option.split sum.split)

lemma api_request_Ok_requests:
  "fst (api_request E s m u b h) = Ok r \<Longrightarrow>
   requests (snd (api_request E s m u b h)) = requests h @ [(s, api_http_request m u b)]"
  by (auto simp: api_request_defs Let_def split: option.splits sum.splits)

text \<open>Every failure is an \<open>ApiError\<close>.\<close>

lemma api_request_Err:
  "fst (api_request E s m u b h) = Err e \<Longrightarrow> \<exists>msg. e = ApiError msg"
  by (auto simp: api_request_defs check_response_def Let_def map_err_eq_Inl
      split: option.splits sum.splits if_splits)

text \<open>It succeeds exactly when every step does and the status is 2xx; the result is the body.\<close>

lemma api_request_Ok_iff:
  "fst (api_request E s m u b h) = Ok r \<longleftrightarrow>
     connect_error E h s = None \<and> handshake_error E (Connected s # h) s = None
     \<and> uri_error E u = None \<and> build_error E (api_http_request m u b) = None
     \<and> (\<exists>resp bytes. send_result E (Connected s # h) s (api_http_request m u b) = Inr resp
          \<and> resp_body resp = Inr bytes \<and> is_success (resp_status resp)
          \<and> r = from_utf8_lossy bytes)"
  by (auto simp: api_request_defs check_response_def Let_def
      split: option.splits sum.splits if_splits)

end
