(* ===== verification/Exec_Logic.thy ===== *)
theory Exec_Logic
  imports Unix_Client
begin

text \<open>
  A small program logic for effectful code. \<open>triple P m X Q\<close>: from a history that
  satisfies \<open>P\<close>, the computation \<open>m\<close> ends with an error and history in \<open>X\<close> or with a
  value and history in \<open>Q\<close>. A view of the history that ignores queries (the children that
  run, the requests sent) is an instance of the locale \<open>history_view\<close>; every query of the
  executor preserves every such view, proved once for all of them.
\<close>

section \<open>Triples\<close>

definition triple ::
  "(history \<Rightarrow> bool) \<Rightarrow> 'a exec \<Rightarrow> (ExecutorError \<Rightarrow> history \<Rightarrow> bool) \<Rightarrow> ('a \<Rightarrow> history \<Rightarrow> bool) \<Rightarrow> bool"
  where
  "triple P m X Q = (\<forall>h. P h \<longrightarrow> (case m h of (Inl e, h') \<Rightarrow> X e h' | (Inr a, h') \<Rightarrow> Q a h'))"

lemma exec_projections:
  "try_bind m f h = (case fst (m h) of Inl e \<Rightarrow> (Err e, snd (m h)) | Inr a \<Rightarrow> f a (snd (m h)))"
  "with_err g m h = (map_err g (fst (m h)), snd (m h))"
  "capture n h = (Ok (fst (n h)), snd (n h))"
  "owning_child p n h = (case fst (n h) of
     Inl e \<Rightarrow> (Err e, Dropped p # snd (n h)) | Inr a \<Rightarrow> (Ok a, snd (n h)))"
  by (simp_all add: exec_defs case_prod_unfold Let_def)

lemma triple_iff:
  "triple P m X Q \<longleftrightarrow>
     (\<forall>h. P h \<longrightarrow> (case fst (m h) of Inl e \<Rightarrow> X e (snd (m h)) | Inr a \<Rightarrow> Q a (snd (m h))))"
  by (simp add: triple_def case_prod_unfold)

lemma tripleD_Err: "triple P m X Q \<Longrightarrow> P h \<Longrightarrow> m h = (Err e, h') \<Longrightarrow> X e h'"
  unfolding triple_def by (drule spec [of _ h]) simp

lemma tripleD_Ok: "triple P m X Q \<Longrightarrow> P h \<Longrightarrow> m h = (Ok a, h') \<Longrightarrow> Q a h'"
  unfolding triple_def by (drule spec [of _ h]) simp

lemma tripleD_snd:
  assumes "triple P m X Q" and "P h" and "\<And>e h. X e h \<Longrightarrow> S h" and "\<And>a h. Q a h \<Longrightarrow> S h"
  shows "S (snd (m h))"
  using assms(1,2) by (cases "fst (m h)") (auto simp: triple_iff assms(3,4) dest!: spec [of _ h])

lemma triple_bind:
  assumes "triple P m X R" and "\<And>a. triple (R a) (f a) X Q"
  shows "triple P (try_bind m f) X Q"
  unfolding triple_def
proof (intro allI impI)
  fix h
  assume "P h"
  obtain r h' where m: "m h = (r, h')" by fastforce
  show "case try_bind m f h of (Inl e, h') \<Rightarrow> X e h' | (Inr b, h') \<Rightarrow> Q b h'"
  proof (cases r)
    case (Inl e)
    with m \<open>P h\<close> assms(1) show ?thesis by (simp add: try_bind_def tripleD_Err)
  next
    case (Inr a)
    with m \<open>P h\<close> assms(1) have "R a h'" by (simp add: tripleD_Ok)
    with m Inr assms(2) show ?thesis by (simp add: try_bind_def triple_def)
  qed
qed

lemma triple_ret: "(\<And>h. P h \<Longrightarrow> Q a h) \<Longrightarrow> triple P (ret a) X Q"
  by (simp add: triple_def ret_def)

lemma triple_throw: "(\<And>h. P h \<Longrightarrow> X e h) \<Longrightarrow> triple P (throw e) X Q"
  by (simp add: triple_def throw_def)

lemma triple_from_result:
  "(\<And>h e. P h \<Longrightarrow> r = Inl e \<Longrightarrow> X e h) \<Longrightarrow> (\<And>h a. P h \<Longrightarrow> r = Inr a \<Longrightarrow> Q a h)
   \<Longrightarrow> triple P (from_result r) X Q"
  by (cases r) (simp_all add: triple_def from_result_def)

lemma triple_emit: "(\<And>h. P h \<Longrightarrow> Q () (ev # h)) \<Longrightarrow> triple P (emit ev) X Q"
  by (simp add: triple_def emit_def)

lemma triple_with_err: "triple P m (\<lambda>e. X (g e)) Q \<Longrightarrow> triple P (with_err g m) X Q"
  unfolding triple_iff exec_projections map_err_def by (auto split: sum.split_asm sum.split)

lemma triple_capture:
  "triple P m (\<lambda>e. Q (Inl e)) (\<lambda>a. Q (Inr a)) \<Longrightarrow> triple P (capture m) X Q"
  unfolding triple_def
proof (intro allI impI)
  fix h
  assume P: "P h" and m: "\<forall>h. P h \<longrightarrow>
    (case m h of (Inl e, h') \<Rightarrow> Q (Inl e) h' | (Inr a, h') \<Rightarrow> Q (Inr a) h')"
  obtain r h' where "m h = (r, h')" by fastforce
  with P m [rule_format, of h] show "case capture m h of (Inl e, h') \<Rightarrow> X e h' | (Inr a, h') \<Rightarrow> Q a h'"
    by (cases r) (simp_all add: capture_def)
qed

lemma triple_owning_child:
  "triple P m (\<lambda>e h. X e (Dropped p # h)) Q \<Longrightarrow> triple P (owning_child p m) X Q"
  unfolding triple_iff exec_projections by (auto split: sum.split_asm sum.split)

lemma triple_conseq:
  "triple P m X Q \<Longrightarrow> (\<And>h. P' h \<Longrightarrow> P h) \<Longrightarrow> (\<And>e h. X e h \<Longrightarrow> X' e h)
   \<Longrightarrow> (\<And>a h. Q a h \<Longrightarrow> Q' a h) \<Longrightarrow> triple P' m X' Q'"
  unfolding triple_iff by (auto split: sum.split_asm sum.split)

lemma triple_if:
  "(c \<Longrightarrow> triple P m X Q) \<Longrightarrow> (\<not> c \<Longrightarrow> triple P n X Q) \<Longrightarrow> triple P (if c then m else n) X Q"
  by simp

text \<open>Steps that do not matter for the value returned in the end.\<close>

lemma triple_any_bind:
  assumes "\<And>a. triple (\<lambda>_. True) (f a) (\<lambda>_ _. True) Q"
  shows "triple (\<lambda>_. True) (try_bind m f) (\<lambda>_ _. True) Q"
  by (rule triple_bind [where R = "\<lambda>_ _. True"]) (simp add: triple_iff split: sum.split, rule assms)

section \<open>Views of the history\<close>

fun quiet_event :: "event \<Rightarrow> bool" where
  "quiet_event (Spawned c p) = False"
| "quiet_event (Killed p) = False"
| "quiet_event (Dropped p) = False"
| "quiet_event (Waited p) = False"
| "quiet_event (Requested s r) = False"
| "quiet_event _ = True"

definition preserves :: "(history \<Rightarrow> 'v) \<Rightarrow> 'a exec \<Rightarrow> bool" where
  "preserves view m = (\<forall>h. view (snd (m h)) = view h)"

locale history_view =
  fixes view :: "history \<Rightarrow> 'v"
  assumes view_quiet: "quiet_event e \<Longrightarrow> view (e # h) = view h"
begin

lemma preserves_ret [intro!]: "preserves view (ret a)"
  by (simp add: preserves_def ret_def)

lemma preserves_throw [intro!]: "preserves view (throw e)"
  by (simp add: preserves_def throw_def)

lemma preserves_from_result [intro!]: "preserves view (from_result r)"
  by (simp add: preserves_def from_result_def)

lemma preserves_emit [intro!]: "quiet_event e \<Longrightarrow> preserves view (emit e)"
  by (simp add: preserves_def emit_def view_quiet)

lemma preserves_bind [intro!]:
  assumes "preserves view m" and "\<And>a. preserves view (f a)"
  shows "preserves view (try_bind m f)"
  using assms by (simp add: preserves_def exec_projections split: sum.split)

lemma preserves_if [intro!]:
  "(c \<Longrightarrow> preserves view m) \<Longrightarrow> (\<not> c \<Longrightarrow> preserves view n) \<Longrightarrow> preserves view (if c then m else n)"
  by simp

lemma preserves_capture [intro!]: "preserves view m \<Longrightarrow> preserves view (capture m)"
  by (simp add: preserves_def exec_projections)

lemma preserves_with_err [intro!]: "preserves view m \<Longrightarrow> preserves view (with_err g m)"
  by (simp add: preserves_def exec_projections)

lemma preserves_queries [intro!]:
  "preserves view (ask_exists E p)" "preserves view (ask_metadata E p)"
  "preserves view (create_dir_all E p)" "preserves view (new_v4 E)" "preserves view (utc_now E)"
  "preserves view (sleep_ms n)" "preserves view (remove_file p)"
  "preserves view (read_with_timeout E q d)" "preserves view (instant_now E)"
  by (auto simp: preserves_def ask_exists_def ask_metadata_def create_dir_all_def new_v4_def
      utc_now_def instant_now_def sleep_ms_def remove_file_def read_with_timeout_def emit_def view_quiet)

text \<open>A step that preserves the view can be skipped in a triple about the view.\<close>

lemma triple_preserves:
  assumes "preserves view m" and "\<And>e h. view h = v \<Longrightarrow> X e h"
  shows "triple (\<lambda>h. view h = v) m X (\<lambda>_ h. view h = v)"
  using assms by (simp add: triple_iff preserves_def split: sum.split)

lemma triple_skip:
  assumes "preserves view m" and "\<And>e h. view h = v \<Longrightarrow> X e h"
    and "\<And>a. triple (\<lambda>h. view h = v) (f a) X Q"
  shows "triple (\<lambda>h. view h = v) (try_bind m f) X Q"
  using assms by (intro triple_bind [OF triple_preserves])

end

text \<open>The view the executor's properties speak about: children that run, requests sent.\<close>

definition effects :: "history \<Rightarrow> pid set \<times> (path \<times> http_request) list" where
  "effects h = (live h, requests h)"

interpretation eff: history_view effects
proof
  fix e h
  assume "quiet_event e"
  then show "effects (e # h) = effects h" by (cases e) (simp_all add: effects_def)
qed

lemma effects_event [simp]:
  "effects (Spawned c p # h) = (insert p (live h), requests h)"
  "effects (Killed p # h) = (live h - {p}, requests h)"
  "effects (Dropped p # h) = (live h - {p}, requests h)"
  "effects (Waited p # h) = (live h - {p}, requests h)"
  by (simp_all add: effects_def)

lemma effects_eq [simp]: "effects h = (L, R) \<longleftrightarrow> live h = L \<and> requests h = R"
  by (auto simp: effects_def)

lemma triple_spawn_child:
  assumes "\<And>e h. effects h = (L, R) \<Longrightarrow> X (on_error e) h"
    and "\<And>p h. effects h = (insert p L, R) \<Longrightarrow> Q p h"
  shows "triple (\<lambda>h. effects h = (L, R)) (spawn_child E c on_error) X Q"
  using assms by (auto simp: triple_def spawn_child_def effects_def split: sum.split)

text \<open>One API request: sent at most once, sent exactly once if it succeeds.\<close>

lemma triple_api_request:
  assumes "\<And>msg h. live h = L \<Longrightarrow> requests h = R \<or> requests h = R @ [(s, api_http_request m u b)]
      \<Longrightarrow> X (ApiError msg) h"
    and "\<And>a h. effects h = (L, R @ [(s, api_http_request m u b)]) \<Longrightarrow> Q a h"
  shows "triple (\<lambda>h. effects h = (L, R)) (api_request E s m u b) X Q"
  unfolding triple_def
proof (intro allI impI)
  fix h
  assume h: "effects h = (L, R)"
  obtain r h' where call: "api_request E s m u b h = (r, h')" by fastforce
  have live: "live h' = L" using api_request_live [of E s m u b h] call h by simp
  show "case api_request E s m u b h of (Inl e, h') \<Rightarrow> X e h' | (Inr a, h') \<Rightarrow> Q a h'"
  proof (cases r)
    case (Inl e)
    with call obtain msg where "e = ApiError msg" using api_request_Err [of E s m u b h] by auto
    with Inl call h live assms(1) api_request_requests [of E s m u b h] show ?thesis by auto
  next
    case (Inr a)
    with call h live assms(2) api_request_Ok_requests [of E s m u b h] show ?thesis
      by (auto simp: effects_def)
  qed
qed

end
