(* ===== verification/Serial_Output.thy ===== *)
theory Serial_Output
  imports Rust_Text
begin

text \<open>
  The serial console protocol between the guest init script and the executor
  (\<open>forge-executor/src/firecracker.rs\<close>): the three extraction functions, what a guest
  prints, and that parsing recovers exactly the output and exit code the guest framed.

  The base64 engine (\<open>base64::engine::general_purpose::STANDARD\<close>) is a parameter of the
  definitions; the locale \<open>base64_engine\<close> states what the parser relies on: decoding
  undoes encoding, and encoded text stays inside the standard alphabet.
\<close>

section \<open>Extraction\<close>

definition crlf :: "u8 list" where
  "crlf = [13, 10]"

definition is_eol :: "u8 \<Rightarrow> bool" where
  "is_eol b = (b = 13 \<or> b = 10)"

text \<open>The slice \<open>raw[a..b]\<close>.\<close>

definition slice :: "'a list \<Rightarrow> nat \<Rightarrow> nat \<Rightarrow> 'a list" where
  "slice xs a b = drop a (take b xs)"

definition extract_b64_section ::
  "(u8 list \<Rightarrow> u8 list option) \<Rightarrow> u8 list \<Rightarrow> u8 list \<Rightarrow> u8 list \<Rightarrow> u8 list option" where
  "extract_b64_section b64_decode raw start_marker end_marker =
     (let start_with_crlf = start_marker @ crlf in
      case find_slice start_with_crlf raw of None \<Rightarrow> None | Some p \<Rightarrow>
      (let content_start = p + length start_with_crlf in
       case find_slice end_marker (drop content_start raw) of None \<Rightarrow> None | Some q \<Rightarrow>
       (let content_end = q + content_start;
            b64_clean = filter (\<lambda>b. \<not> is_eol b) (slice raw content_start content_end)
        in b64_decode b64_clean)))"

definition exit_marker :: "u8 list" where
  "exit_marker = as_bytes ''FORGE_EXIT:''"

definition extract_exit_code :: "u8 list \<Rightarrow> i32 option" where
  "extract_exit_code raw =
     (let marker = exit_marker in
      case find_slice marker raw of None \<Rightarrow> None | Some p \<Rightarrow>
      (let rest = drop (p + length marker) raw;
           value_end = (case position is_eol rest of Some e \<Rightarrow> e | None \<Rightarrow> length rest)
       in case from_utf8 (take value_end rest) of None \<Rightarrow> None | Some s \<Rightarrow> parse_i32 (trim s)))"

definition stdout_start :: "u8 list" where
  "stdout_start = as_bytes ''FORGE_STDOUT_B64_START''"

definition stdout_end :: "u8 list" where
  "stdout_end = as_bytes ''FORGE_STDOUT_B64_END''"

definition stderr_start :: "u8 list" where
  "stderr_start = as_bytes ''FORGE_STDERR_B64_START''"

definition stderr_end :: "u8 list" where
  "stderr_end = as_bytes ''FORGE_STDERR_B64_END''"

definition parse_execution_output ::
  "(u8 list \<Rightarrow> u8 list option) \<Rightarrow> u8 list \<Rightarrow> u8 list \<times> u8 list \<times> i32" where
  "parse_execution_output b64_decode raw =
     (let stdout = extract_b64_section b64_decode raw stdout_start stdout_end;
          stderr = extract_b64_section b64_decode raw stderr_start stderr_end;
          exit_code = extract_exit_code raw
      in case (stdout, stderr, exit_code) of
           (Some out, Some err, Some code) \<Rightarrow> (out, err, code)
         | _ \<Rightarrow> (raw, [], - 1))"

section \<open>What a guest prints\<close>

text \<open>
  The init script of \<open>execute_command\<close> prints, line by line through a console that ends
  lines with CR LF, the start marker, the output of \<open>base64\<close>, the end marker, the same for
  the standard error, and the exit code. \<open>noise\<close> is what the console printed before and
  \<open>rest\<close> what it prints afterwards; the base64 text may be wrapped into lines at will.
\<close>

definition guest_serial ::
  "u8 list \<Rightarrow> u8 list \<Rightarrow> u8 list \<Rightarrow> i32 \<Rightarrow> u8 list \<Rightarrow> u8 list" where
  "guest_serial noise b64_out b64_err code rest =
     noise @ stdout_start @ crlf @ b64_out @ stdout_end @ crlf @
     stderr_start @ crlf @ b64_err @ stderr_end @ crlf @
     exit_marker @ as_bytes (show_i32 code) @ crlf @ rest"

text \<open>\<open>make_b64_output\<close> of the unit tests is one such stream.\<close>

definition make_b64_output ::
  "(u8 list \<Rightarrow> u8 list) \<Rightarrow> u8 list \<Rightarrow> u8 list \<Rightarrow> i32 \<Rightarrow> u8 list" where
  "make_b64_output b64_encode stdout stderr exit_code =
     as_bytes ''kernel boot noise'' @ crlf @ stdout_start @ crlf @
     b64_encode stdout @ crlf @ stdout_end @ crlf @
     stderr_start @ crlf @ b64_encode stderr @ crlf @ stderr_end @ crlf @
     exit_marker @ as_bytes (show_i32 exit_code) @ crlf"

section \<open>Locating sections\<close>

text \<open>A block of complete lines: empty, or ending in LF.\<close>

definition line_block :: "u8 list \<Rightarrow> bool" where
  "line_block xs = (xs = [] \<or> last xs = 10)"

lemma line_block_simps [simp]:
  "line_block []" "line_block (xs @ crlf)" "line_block crlf"
  by (simp_all add: line_block_def crlf_def)

lemma line_block_append: "line_block xs \<Longrightarrow> line_block ys \<Longrightarrow> line_block (xs @ ys)"
  by (auto simp: line_block_def last_append)

lemma not_sublist_lines:
  assumes "line_block xs" and "10 \<notin> set (butlast m)"
    and "\<not> sublist m xs" and "\<not> sublist m ys"
  shows "\<not> sublist m (xs @ ys)"
proof (cases xs rule: rev_cases)
  case (snoc zs c)
  then have "c = 10" using assms(1) by (simp add: line_block_def)
  with snoc assms(2-4) sublist_across [of c m zs ys] show ?thesis by simp
qed (use assms in simp)

text \<open>The same for any number of blocks of lines.\<close>

lemma blocks_free:
  assumes "\<forall>b \<in> set bs. line_block b \<and> \<not> sublist m b" and "m \<noteq> []" and "10 \<notin> set (butlast m)"
  shows "line_block (concat bs) \<and> \<not> sublist m (concat bs)"
  using assms(1)
proof (induction bs)
  case (Cons b bs)
  then show ?case using assms(2,3) by (auto intro!: line_block_append dest: not_sublist_lines)
qed (use assms in simp)

text \<open>A marker line that follows complete lines without the marker is its first occurrence.\<close>

lemma find_slice_line:
  assumes "m \<noteq> []" and "line_block pre" and "10 \<notin> set (butlast m)" and "\<not> sublist m pre"
  shows "find_slice m (pre @ m @ post) = Some (length pre)"
  using assms by (intro find_slice_first not_sublist_lines not_sublist_butlast)

lemma slice_middle: "slice (pre @ body @ post) (length pre) (length pre + length body) = body"
  by (simp add: slice_def)

text \<open>
  Complete characterisation of \<open>extract_b64_section\<close>: it decodes what stands between the
  first start marker line and the first end marker after it, with CR and LF removed.
\<close>

lemma extract_b64_section_frame:
  assumes "find_slice (s @ crlf) (pre @ s @ crlf @ body @ e @ post) = Some (length pre)"
    and "find_slice e (body @ e @ post) = Some (length body)"
  shows "extract_b64_section dec (pre @ s @ crlf @ body @ e @ post) s e =
    dec (filter (\<lambda>b. \<not> is_eol b) body)"
proof -
  let ?raw = "(pre @ s @ crlf) @ body @ e @ post"
  have "drop (length pre + length (s @ crlf)) ?raw = body @ e @ post"
    by (simp add: drop_append)
  moreover have "slice ?raw (length pre + length (s @ crlf))
      (length body + (length pre + length (s @ crlf))) = body"
    using slice_middle [of "pre @ s @ crlf" body "e @ post"] by (simp add: ac_simps)
  ultimately show ?thesis
    using assms by (simp add: extract_b64_section_def Let_def)
qed

lemma extract_b64_section_Some:
  assumes "e \<noteq> []"
  shows "extract_b64_section dec raw s e = Some out \<longleftrightarrow>
    (\<exists>pre body post. raw = pre @ s @ crlf @ body @ e @ post
       \<and> \<not> sublist (s @ crlf) (pre @ butlast (s @ crlf)) \<and> \<not> sublist e (body @ butlast e)
       \<and> dec (filter (\<lambda>b. \<not> is_eol b) body) = Some out)" (is "?L \<longleftrightarrow> ?R")
proof
  have crlf: "s @ crlf \<noteq> []" by (simp add: crlf_def)
  assume ?L
  then obtain p q where p: "find_slice (s @ crlf) raw = Some p"
    and q: "find_slice e (drop (p + length (s @ crlf)) raw) = Some q"
    by (auto simp: extract_b64_section_def Let_def split: option.splits)
  from find_slice_Some [OF crlf p] obtain pre tail where
    pre: "raw = pre @ (s @ crlf) @ tail" "length pre = p"
      "\<not> sublist (s @ crlf) (pre @ butlast (s @ crlf))" by blast
  have "find_slice e tail = Some q" using q pre by simp
  from find_slice_Some [OF assms this] obtain body post where
    body: "tail = body @ e @ post" "length body = q" "\<not> sublist e (body @ butlast e)" by blast
  have "dec (filter (\<lambda>b. \<not> is_eol b) body) = Some out"
    using \<open>?L\<close> extract_b64_section_frame [of s pre body e post dec] p pre body
      \<open>find_slice e tail = Some q\<close> by simp
  with pre body show ?R by (intro exI [of _ pre] exI [of _ body] exI [of _ post]) simp
next
  assume ?R
  then obtain pre body post where R: "raw = pre @ s @ crlf @ body @ e @ post"
    "\<not> sublist (s @ crlf) (pre @ butlast (s @ crlf))" "\<not> sublist e (body @ butlast e)"
    "dec (filter (\<lambda>b. \<not> is_eol b) body) = Some out" by blast
  have "find_slice (s @ crlf) (pre @ (s @ crlf) @ body @ e @ post) = Some (length pre)"
    using R(2) by (intro find_slice_first) (simp_all add: crlf_def)
  moreover have "find_slice e (body @ e @ post) = Some (length body)"
    using assms R(3) by (intro find_slice_first)
  ultimately show ?L using extract_b64_section_frame R by simp
qed

lemma position_eol:
  assumes "list_all (\<lambda>b. \<not> is_eol b) val" and "tail = [] \<or> is_eol (hd tail)"
  shows "(case position is_eol (val @ tail) of Some e \<Rightarrow> e | None \<Rightarrow> length (val @ tail)) = length val"
  using assms
proof (induction val)
  case Nil
  then show ?case by (cases tail) auto
next
  case (Cons b val)
  then show ?case by (auto split: option.splits)
qed

lemma extract_exit_code_frame:
  assumes "find_slice exit_marker (pre @ exit_marker @ val @ tail) = Some (length pre)"
    and "list_all (\<lambda>b. \<not> is_eol b) val" and "tail = [] \<or> is_eol (hd tail)"
  shows "extract_exit_code (pre @ exit_marker @ val @ tail) =
    (case from_utf8 val of None \<Rightarrow> None | Some s \<Rightarrow> parse_i32 (trim s))"
proof -
  have "drop (length pre + length exit_marker) (pre @ exit_marker @ val @ tail) = val @ tail"
    by simp
  with assms(1) position_eol [OF assms(2,3)] show ?thesis
    by (simp add: extract_exit_code_def Let_def)
qed

text \<open>The text of an \<open>i32\<close> survives the console: ASCII, no line end, no white space.\<close>

definition plain_char :: "char \<Rightarrow> bool" where
  "plain_char c = (byte_of_char c \<le> 0x7F \<and> \<not> is_eol (byte_of_char c) \<and> \<not> is_whitespace [byte_of_char c])"

lemma show_i32_plain: "list_all plain_char (show_i32 w)"
  by (rule show_i32_all) code_simp

lemma from_utf8_trim_plain:
  assumes "list_all plain_char s" and "s \<noteq> []"
  shows "from_utf8 (as_bytes s) = Some s" and "trim s = s"
proof -
  have ascii: "list_all (\<lambda>b. b \<le> 0x7F) (as_bytes s)"
    using assms(1) by (auto simp: list_all_iff plain_char_def)
  then show "from_utf8 (as_bytes s) = Some s"
    by (simp add: from_utf8_def valid_utf8_ascii)
  have "plain_char (hd s)" "plain_char (last s)"
    using assms by (simp_all add: list_all_iff)
  with ascii assms(2) show "trim s = s"
    by (intro trim_ascii_id) (simp_all add: plain_char_def)
qed

lemma show_i32_not_Nil [simp]: "show_i32 w \<noteq> []"
  by (simp add: show_i32_def show_int_def)

lemma extract_exit_code_show:
  assumes "line_block pre" and "\<not> sublist exit_marker pre"
  shows "extract_exit_code (pre @ exit_marker @ as_bytes (show_i32 code) @ crlf @ rest) = Some code"
proof -
  have "find_slice exit_marker (pre @ exit_marker @ as_bytes (show_i32 code) @ crlf @ rest)
      = Some (length pre)"
  proof (intro find_slice_line assms)
    show "exit_marker \<noteq> []" by (simp add: exit_marker_def)
    show "10 \<notin> set (butlast exit_marker)" by code_simp
  qed
  then show ?thesis
    using show_i32_plain [of code]
    by (subst extract_exit_code_frame)
      (auto simp: from_utf8_trim_plain parse_show_i32 crlf_def is_eol_def list_all_iff plain_char_def)
qed

section \<open>Parsing recovers what the guest framed\<close>

definition b64_alphabet :: "u8 set" where
  "b64_alphabet =
     set (as_bytes ''ABCDEFGHIJKLMNOPQRSTUVWXYZabcdefghijklmnopqrstuvwxyz0123456789+/='')"

text \<open>What the parser relies on in the base64 engine.\<close>

locale base64_engine =
  fixes encode :: "u8 list \<Rightarrow> u8 list"
    and decode :: "u8 list \<Rightarrow> u8 list option"
  assumes decode_encode: "decode (encode bs) = Some bs"
    and encode_alphabet: "set (encode bs) \<subseteq> b64_alphabet"

text \<open>
  Console noise is harmless when it consists of complete lines and contains neither a
  start marker line nor the exit marker.
\<close>

definition quiet_noise :: "u8 list \<Rightarrow> bool" where
  "quiet_noise noise = (line_block noise \<and> \<not> sublist (stdout_start @ crlf) noise
     \<and> \<not> sublist (stderr_start @ crlf) noise \<and> \<not> sublist exit_marker noise)"

text \<open>Text of the engine, wrapped into lines: CR and LF may be inserted, nothing else.\<close>

definition wraps :: "u8 list \<Rightarrow> u8 list \<Rightarrow> bool" where
  "wraps body text = (line_block body \<and> filter (\<lambda>b. \<not> is_eol b) body = text)"

lemma underscore_not_in_wrapped:
  assumes "wraps body text" and "set text \<subseteq> b64_alphabet"
  shows "95 \<notin> set body"
proof
  assume "95 \<in> set body"
  then have "95 \<in> set text" using assms(1) by (auto simp: wraps_def is_eol_def)
  then have "95 \<in> b64_alphabet" using assms(2) by blast
  moreover have "95 \<notin> b64_alphabet" unfolding b64_alphabet_def by code_simp
  ultimately show False by simp
qed

lemma marker_underscore:
  "95 \<in> set (stdout_start @ crlf)" "95 \<in> set stdout_end" "95 \<in> set (stderr_start @ crlf)"
  "95 \<in> set stderr_end" "95 \<in> set exit_marker"
  by code_simp+

lemma marker_no_LF:
  "10 \<notin> set (butlast (stdout_start @ crlf))" "10 \<notin> set (butlast stdout_end)"
  "10 \<notin> set (butlast (stderr_start @ crlf))" "10 \<notin> set (butlast stderr_end)"
  "10 \<notin> set (butlast exit_marker)"
  by code_simp+

lemma marker_not_Nil:
  "stdout_start @ crlf \<noteq> []" "stdout_end \<noteq> []" "stderr_start @ crlf \<noteq> []"
  "stderr_end \<noteq> []" "exit_marker \<noteq> []"
  by code_simp+

lemma marker_lines_distinct:
  "\<not> sublist (stderr_start @ crlf) (stdout_start @ crlf)"
  "\<not> sublist (stderr_start @ crlf) (stdout_end @ crlf)"
  "\<not> sublist exit_marker (stdout_start @ crlf)" "\<not> sublist exit_marker (stdout_end @ crlf)"
  "\<not> sublist exit_marker (stderr_start @ crlf)" "\<not> sublist exit_marker (stderr_end @ crlf)"
  by code_simp+

lemmas marker_facts = marker_no_LF marker_not_Nil marker_lines_distinct

context base64_engine
begin

lemma wrapped_no_marker:
  "wraps body (encode bs) \<Longrightarrow> 95 \<in> set m \<Longrightarrow> \<not> sublist m body"
  by (blast dest: underscore_not_in_wrapped [OF _ encode_alphabet] not_sublist_if_byte)

lemma decode_wrapped:
  "wraps body (encode bs) \<Longrightarrow> decode (filter (\<lambda>b. \<not> is_eol b) body) = Some bs"
  by (simp add: wraps_def decode_encode)

text \<open>A section whose start line follows complete lines without the start marker.\<close>

lemma extract_section:
  assumes "line_block pre" and "\<not> sublist (s @ crlf) pre" and "wraps body (encode bs)"
    and "10 \<notin> set (butlast (s @ crlf))" and "10 \<notin> set (butlast e)" and "95 \<in> set e"
  shows "extract_b64_section decode (pre @ s @ crlf @ body @ e @ post) s e = Some bs"
proof -
  have "find_slice (s @ crlf) (pre @ (s @ crlf) @ body @ e @ post) = Some (length pre)"
    using assms(1,2,4) by (intro find_slice_line) (simp_all add: crlf_def)
  moreover have "find_slice e (body @ e @ post) = Some (length body)"
    using assms(3,5,6) wrapped_no_marker by (intro find_slice_line) (auto simp: wraps_def)
  ultimately show ?thesis
    using assms(3) by (simp add: extract_b64_section_frame decode_wrapped)
qed

lemma parse_guest_serial:
  assumes "quiet_noise noise" and "wraps b1 (encode out)" and "wraps b2 (encode err)"
  shows "parse_execution_output decode (guest_serial noise b1 b2 code rest) = (out, err, code)"
proof -
  let ?first = "[noise, stdout_start @ crlf, b1, stdout_end @ crlf]"
  let ?second = "?first @ [stderr_start @ crlf, b2, stderr_end @ crlf]"
  have noise: "line_block noise" "\<not> sublist (stdout_start @ crlf) noise"
    "\<not> sublist (stderr_start @ crlf) noise" "\<not> sublist exit_marker noise"
    using assms(1) by (simp_all add: quiet_noise_def)
  have bodies: "line_block b1" "line_block b2"
    using assms(2,3) by (simp_all add: wraps_def)
  have no: "\<not> sublist m b1" "\<not> sublist m b2" if "95 \<in> set m" for m
    using that assms wrapped_no_marker by blast+
  have first: "line_block (concat ?first) \<and> \<not> sublist (stderr_start @ crlf) (concat ?first)"
    using noise bodies no [OF marker_underscore(3)] marker_facts by (intro blocks_free) auto
  have second: "line_block (concat ?second) \<and> \<not> sublist exit_marker (concat ?second)"
    using noise bodies no [OF marker_underscore(5)] marker_facts by (intro blocks_free) auto
  have "extract_b64_section decode (guest_serial noise b1 b2 code rest) stdout_start stdout_end = Some out"
    unfolding guest_serial_def using noise assms(2) marker_facts marker_underscore
    by (intro extract_section)
  moreover have "extract_b64_section decode (guest_serial noise b1 b2 code rest)
      stderr_start stderr_end = Some err"
    using extract_section [of "concat ?first" stderr_start b2 err stderr_end] first assms(3)
      marker_facts marker_underscore by (simp add: guest_serial_def)
  moreover have "extract_exit_code (guest_serial noise b1 b2 code rest) = Some code"
    using extract_exit_code_show [of "concat ?second" code rest] second
    by (simp add: guest_serial_def)
  ultimately show ?thesis by (simp add: parse_execution_output_def)
qed

end

end
