(* ===== verification/Firecracker.thy ===== *)
theory Firecracker
  imports Exec_Logic Serial_Output
begin

text \<open>
  \<open>forge-executor/src/firecracker.rs\<close>: the Firecracker backend. Each method of the
  \<open>VmmBackend\<close> trait is one definition, with its checks, requests and early returns in
  the order of the source. The lemmas that follow describe each method for every
  environment: which requests it sends in which order, which child processes run after
  it on every path, and which errors it returns.
\<close>

section \<open>The backend and its paths\<close>

record FirecrackerBackend =
  binary_path :: path
  socket_dir :: path
  snapshot_dir :: path

definition FirecrackerBackend_new :: "path \<Rightarrow> path \<Rightarrow> path \<Rightarrow> FirecrackerBackend" where
  "FirecrackerBackend_new binary sockets snapshots =
     \<lparr>binary_path = binary, socket_dir = sockets, snapshot_dir = snapshots\<rparr>"

definition with_defaults :: FirecrackerBackend where
  "with_defaults =
     FirecrackerBackend_new ''firecracker'' ''/tmp/forge-sockets'' ''/tmp/forge-snapshots''"

definition fc_socket_path :: "env \<Rightarrow> FirecrackerBackend \<Rightarrow> uuid \<Rightarrow> path" where
  "fc_socket_path E b vm = path_join (socket_dir b) (fmt_uuid E vm @ ''.sock'')"

definition snapshot_mem_path :: "env \<Rightarrow> FirecrackerBackend \<Rightarrow> VmSnapshotId \<Rightarrow> path" where
  "snapshot_mem_path E b sid =
     path_join (snapshot_dir b) (VmSnapshotId_fmt (fmt_uuid E) sid @ ''.mem'')"

definition snapshot_state_path :: "env \<Rightarrow> FirecrackerBackend \<Rightarrow> VmSnapshotId \<Rightarrow> path" where
  "snapshot_state_path E b sid =
     path_join (snapshot_dir b) (VmSnapshotId_fmt (fmt_uuid E) sid @ ''.state'')"

section \<open>Helpers\<close>

text \<open>The polling loop: \<open>n\<close> rounds are left, 100 ms apart.\<close>

fun poll_socket :: "env \<Rightarrow> path \<Rightarrow> nat \<Rightarrow> unit exec" where
  "poll_socket E sock 0 = throw (SpawnFailed (''socket '' @ sock @ '' did not appear within 5s''))"
| "poll_socket E sock (Suc n) =
     try_bind (ask_exists E sock) (\<lambda>there.
     if there then ret ()
     else try_bind (sleep_ms 100) (\<lambda>_. poll_socket E sock n))"

definition wait_for_socket :: "env \<Rightarrow> path \<Rightarrow> unit exec" where
  "wait_for_socket E sock = poll_socket E sock 50"

definition put_json :: "env \<Rightarrow> path \<Rightarrow> http_method \<Rightarrow> string \<Rightarrow> json \<Rightarrow> string exec" where
  "put_json E sock method uri_path body = api_request E sock method uri_path (Some (json_to_string E body))"

definition kernel_body :: "VmConfig \<Rightarrow> json" where
  "kernel_body cfg =
     JObj [(''kernel_image_path'', JStr (kernel_path cfg)), (''boot_args'', JStr (boot_args cfg))]"

definition rootfs_body :: "VmConfig \<Rightarrow> json" where
  "rootfs_body cfg =
     JObj [(''drive_id'', JStr ''rootfs''), (''path_on_host'', JStr (rootfs_path cfg)),
           (''is_root_device'', JBool True), (''is_read_only'', JBool False)]"

definition machine_body :: "VmConfig \<Rightarrow> json" where
  "machine_body cfg =
     JObj [(''vcpu_count'', JNum (uint (vcpu_count cfg))),
           (''mem_size_mib'', JNum (uint (mem_size_mib cfg)))]"

definition boot_body :: json where
  "boot_body = JObj [(''action_type'', JStr ''InstanceStart'')]"

definition configure_and_boot :: "env \<Rightarrow> path \<Rightarrow> VmConfig \<Rightarrow> unit exec" where
  "configure_and_boot E sock cfg =
     try_bind (put_json E sock PUT ''/boot-source'' (kernel_body cfg)) (\<lambda>_.
     try_bind (put_json E sock PUT ''/drives/rootfs'' (rootfs_body cfg)) (\<lambda>_.
     try_bind (put_json E sock PUT ''/machine-config'' (machine_body cfg)) (\<lambda>_.
     try_bind (put_json E sock PUT ''/actions'' boot_body) (\<lambda>_.
     ret ()))))"

text \<open>\<open>str::split(':')\<close>: one piece more than there are colons, empty pieces included.\<close>

fun split_colon :: "string \<Rightarrow> string list" where
  "split_colon [] = [[]]"
| "split_colon (c # cs) =
     (if c = CHR '':'' then [] # split_colon cs
      else (case split_colon cs of [] \<Rightarrow> [[c]] | p # ps \<Rightarrow> (c # p) # ps))"

fun any_exists :: "env \<Rightarrow> path list \<Rightarrow> bool exec" where
  "any_exists E [] = ret False"
| "any_exists E (p # ps) = try_bind (ask_exists E p) (\<lambda>there. if there then ret True else any_exists E ps)"

definition which_binary :: "env \<Rightarrow> path \<Rightarrow> unit exec" where
  "which_binary E p =
     (if is_absolute p then
        try_bind (ask_exists E p) (\<lambda>there. if there then ret () else throw (BinaryNotFound p))
      else
        try_bind (any_exists E (map (\<lambda>dir. path_join dir p)
          (split_colon (case path_var E of Some v \<Rightarrow> v | None \<Rightarrow> [])))) (\<lambda>found.
        if found then ret () else throw (BinaryNotFound p)))"

definition require_kvm :: "env \<Rightarrow> unit exec" where
  "require_kvm E = try_bind (ask_exists E ''/dev/kvm'') (\<lambda>there.
     if there then ret () else throw (KvmUnavailable ''/dev/kvm not found''))"

text \<open>\<open>execute_command\<close> pipes standard output and discards standard error; the others inherit both.\<close>

definition firecracker_cmd :: "FirecrackerBackend \<Rightarrow> path \<Rightarrow> bool \<Rightarrow> command" where
  "firecracker_cmd b sock piped =
     \<lparr>program = binary_path b, cmd_args = [''--api-sock'', sock],
      stdout_piped = piped, stderr_null = piped\<rparr>"

section \<open>VmmBackend for FirecrackerBackend\<close>

definition fc_spawn :: "env \<Rightarrow> FirecrackerBackend \<Rightarrow> VmConfig \<Rightarrow> VmHandle exec" where
  "fc_spawn E b cfg =
     try_bind (require_kvm E) (\<lambda>_.
     try_bind (ask_exists E (binary_path b)) (\<lambda>there.
     try_bind (if there then ret () else which_binary E (binary_path b)) (\<lambda>_.
     try_bind (new_v4 E) (\<lambda>vm.
     (let sock = fc_socket_path E b vm in
      try_bind (create_dir_all E (socket_dir b)) (\<lambda>_.
      try_bind (spawn_child E (firecracker_cmd b sock False)
        (\<lambda>e. SpawnFailed (''exec firecracker: '' @ e))) (\<lambda>p.
      owning_child p (
        try_bind (wait_for_socket E sock) (\<lambda>_.
        try_bind (with_err (\<lambda>e. SpawnFailed (ExecutorError_fmt (fmt_uuid E) e))
          (configure_and_boot E sock cfg)) (\<lambda>_.
        try_bind (utc_now E) (\<lambda>now.
        ret (VmHandle_new now vm sock p))))))))))))"

definition fc_snapshot :: "env \<Rightarrow> FirecrackerBackend \<Rightarrow> VmHandle \<Rightarrow> VmSnapshotId exec" where
  "fc_snapshot E b handle =
     try_bind (new_v4 E) (\<lambda>drawn.
     (let sid = VmSnapshotId_new drawn in
      try_bind (create_dir_all E (snapshot_dir b)) (\<lambda>_.
      (let mem_path = snapshot_mem_path E b sid; state_path = snapshot_state_path E b sid in
       try_bind (with_err (\<lambda>e. SnapshotFailed (vm_id handle)
           (''pause failed: '' @ ExecutorError_fmt (fmt_uuid E) e))
         (put_json E (socket_path handle) PATCH ''/vm'' (JObj [(''state'', JStr ''Paused'')]))) (\<lambda>_.
       try_bind (capture (put_json E (socket_path handle) PUT ''/snapshot/create''
         (JObj [(''snapshot_type'', JStr ''Full''), (''snapshot_path'', JStr state_path),
                (''mem_file_path'', JStr mem_path)]))) (\<lambda>result.
       try_bind (capture (put_json E (socket_path handle) PATCH ''/vm''
         (JObj [(''state'', JStr ''Resumed'')]))) (\<lambda>_.
       try_bind (with_err (\<lambda>e. SnapshotFailed (vm_id handle) (ExecutorError_fmt (fmt_uuid E) e))
         (from_result result)) (\<lambda>_.
       ret sid))))))))"

definition fc_restore :: "env \<Rightarrow> FirecrackerBackend \<Rightarrow> VmSnapshotId \<Rightarrow> VmHandle exec" where
  "fc_restore E b sid =
     (let mem_path = snapshot_mem_path E b sid; state_path = snapshot_state_path E b sid;
          failed = (\<lambda>reason. RestoreFailed (snapshot_uuid sid) reason);
          failed_with = (\<lambda>e. failed (ExecutorError_fmt (fmt_uuid E) e))
      in
      try_bind (ask_exists E mem_path) (\<lambda>mem_there.
      try_bind (if mem_there then ask_exists E state_path else ret False) (\<lambda>both_there.
      if \<not> both_there then throw (failed (''snapshot files not found at '' @ mem_path))
      else
      try_bind (new_v4 E) (\<lambda>vm.
      (let sock = fc_socket_path E b vm in
       try_bind (create_dir_all E (socket_dir b)) (\<lambda>_.
       try_bind (spawn_child E (firecracker_cmd b sock False)
         (\<lambda>e. failed (''exec firecracker: '' @ e))) (\<lambda>p.
       owning_child p (
         try_bind (with_err failed_with (wait_for_socket E sock)) (\<lambda>_.
         try_bind (with_err failed_with (put_json E sock PUT ''/snapshot/load''
           (JObj [(''snapshot_path'', JStr state_path),
                  (''mem_backend'', JObj [(''backend_path'', JStr mem_path),
                                         (''backend_type'', JStr ''File'')]),
                  (''enable_diff_snapshots'', JBool False), (''resume_vm'', JBool True)]))) (\<lambda>_.
         try_bind (utc_now E) (\<lambda>now.
         ret (VmHandle_new now vm sock p))))))))))))"

text \<open>The handle is moved into \<open>terminate\<close> and dropped at its end, on every path.\<close>

definition dropping_child :: "pid \<Rightarrow> 'a exec \<Rightarrow> 'a exec" where
  "dropping_child p m h = (let (r, h') = m h in (r, Dropped p # h'))"

definition fc_terminate :: "env \<Rightarrow> FirecrackerBackend \<Rightarrow> VmHandle \<Rightarrow> unit exec" where
  "fc_terminate E b handle =
     dropping_child (process handle) (
       try_bind (kill_child E (process handle)) (\<lambda>_.
       try_bind (capture (remove_file (socket_path handle))) (\<lambda>_.
       ret ())))"

definition fc_health_check :: "env \<Rightarrow> FirecrackerBackend \<Rightarrow> unit exec" where
  "fc_health_check E b =
     try_bind (require_kvm E) (\<lambda>_.
     try_bind (ask_metadata E ''/dev/kvm'') (\<lambda>ok.
     if \<not> ok then throw (KvmUnavailable ''cannot access /dev/kvm (permission denied?)'')
     else try_bind (which_binary E (binary_path b)) (\<lambda>_. ret ())))"

definition init_script :: "string \<Rightarrow> string" where
  \<open>init_script command =
     ''SF=$(mktemp);EF=$(mktemp);eval "'' @ command @ ''" >"$SF" 2>"$EF";EC=$?;'' @
     ''echo FORGE_STDOUT_B64_START;base64 "$SF";echo FORGE_STDOUT_B64_END;'' @
     ''echo FORGE_STDERR_B64_START;base64 "$EF";echo FORGE_STDERR_B64_END;'' @
     ''echo FORGE_EXIT:$EC;poweroff -f 2>/dev/null||reboot -f''\<close>

definition exec_boot_args :: "string \<Rightarrow> string" where
  \<open>exec_boot_args command =
     ''console=ttyS0 reboot=k panic=1 pci=off quiet init=/bin/sh -c "'' @ init_script command @ ''"''\<close>

definition read_serial :: "env \<Rightarrow> command \<Rightarrow> pid \<Rightarrow> duration \<Rightarrow> u8 list exec" where
  "read_serial E c p timeout =
     (if \<not> stdout_piped c then throw (SpawnFailed ''stdout not piped'')
      else try_bind (read_with_timeout E p timeout) (\<lambda>outcome.
        case outcome of
          TimedOut \<Rightarrow> throw (SpawnFailed (''VM did not complete within '' @
            show_nat (as_secs timeout) @ ''s''))
        | ReadError e \<Rightarrow> throw (Io e)
        | ReadOk raw \<Rightarrow> ret raw))"

definition fc_execute_command ::
  "env \<Rightarrow> FirecrackerBackend \<Rightarrow> VmConfig \<Rightarrow> string \<Rightarrow> duration \<Rightarrow> ExecutionOutput exec" where
  "fc_execute_command E b cfg command timeout =
     try_bind (require_kvm E) (\<lambda>_.
     try_bind (which_binary E (binary_path b)) (\<lambda>_.
     try_bind (new_v4 E) (\<lambda>vm.
     (let sock = fc_socket_path E b vm; cmd = firecracker_cmd b sock True;
          exec_config = cfg\<lparr>boot_args := exec_boot_args command\<rparr>
      in
      try_bind (create_dir_all E (socket_dir b)) (\<lambda>_.
      try_bind (spawn_child E cmd (\<lambda>e. SpawnFailed (''exec firecracker: '' @ e))) (\<lambda>p.
      dropping_child p (
        try_bind (wait_for_socket E sock) (\<lambda>_.
        try_bind (with_err (\<lambda>e. SpawnFailed (ExecutorError_fmt (fmt_uuid E) e))
          (configure_and_boot E sock exec_config)) (\<lambda>_.
        try_bind (read_serial E cmd p timeout) (\<lambda>raw_output.
        try_bind (emit (Waited p)) (\<lambda>_.
        try_bind (capture (remove_file sock)) (\<lambda>_.
        (let (out, err, code) = parse_execution_output (base64_decode E) raw_output in
         ret \<lparr>out_stdout = out, out_stderr = err, exit_code = code\<rparr>)))))))))))))"

section \<open>Queries leave no trace\<close>

context history_view
begin

lemma preserves_poll_socket [intro!]: "preserves view (poll_socket E sock n)"
  by (induction n) (auto simp: split: if_split)

lemma preserves_wait_for_socket [intro!]: "preserves view (wait_for_socket E sock)"
  by (auto simp: wait_for_socket_def)

lemma preserves_any_exists [intro!]: "preserves view (any_exists E ps)"
  by (induction ps) (auto split: if_split)

lemma preserves_which_binary [intro!]: "preserves view (which_binary E p)"
  unfolding which_binary_def by (auto split: if_split)

lemma preserves_require_kvm [intro!]: "preserves view (require_kvm E)"
  unfolding require_kvm_def by (auto split: if_split)

lemma preserves_read_serial [intro!]: "preserves view (read_serial E c p t)"
  unfolding read_serial_def by (auto split: if_split read_outcome.split)

lemma preserves_health_check: "preserves view (fc_health_check E b)"
  unfolding fc_health_check_def by (auto split: if_split)

end

section \<open>Requests and children, method by method\<close>

text \<open>The request \<open>put_json\<close> sends, and the boot sequence for a configuration.\<close>

definition json_request :: "env \<Rightarrow> path \<Rightarrow> http_method \<Rightarrow> string \<Rightarrow> json \<Rightarrow> path \<times> http_request" where
  "json_request E sock method uri_path body =
     (sock, api_http_request method uri_path (Some (json_to_string E body)))"

definition boot_sequence :: "env \<Rightarrow> path \<Rightarrow> VmConfig \<Rightarrow> (path \<times> http_request) list" where
  "boot_sequence E sock cfg =
     [json_request E sock PUT ''/boot-source'' (kernel_body cfg),
      json_request E sock PUT ''/drives/rootfs'' (rootfs_body cfg),
      json_request E sock PUT ''/machine-config'' (machine_body cfg),
      json_request E sock PUT ''/actions'' boot_body]"

lemma triple_put_json:
  assumes "\<And>msg h. live h = L \<Longrightarrow> requests h = R \<or> requests h = R @ [json_request E s m u j]
      \<Longrightarrow> X (ApiError msg) h"
    and "\<And>a h. effects h = (L, R @ [json_request E s m u j]) \<Longrightarrow> Q a h"
  shows "triple (\<lambda>h. effects h = (L, R)) (put_json E s m u j) X Q"
  unfolding put_json_def using assms
  by (intro triple_api_request) (simp_all add: json_request_def)

text \<open>
  A step of a fixed sequence of requests: \<open>i\<close> of them have been sent. A failure leaves a
  prefix of the sequence.
\<close>

lemma triple_put_json_step:
  assumes "i < length rs" and "rs ! i = json_request E s m u j"
    and "\<And>msg h n. live h = L \<Longrightarrow> n \<le> length rs \<Longrightarrow> requests h = R @ take n rs \<Longrightarrow> X (ApiError msg) h"
    and "\<And>a. triple (\<lambda>h. effects h = (L, R @ take (Suc i) rs)) (f a) X Q"
  shows "triple (\<lambda>h. effects h = (L, R @ take i rs)) (try_bind (put_json E s m u j) f) X Q"
proof (rule triple_bind [OF triple_put_json])
  have next_take: "take i rs @ [json_request E s m u j] = take (Suc i) rs"
    using assms(1,2) by (simp add: take_Suc_conv_app_nth)
  fix msg h
  assume "live h = L"
    and "requests h = R @ take i rs \<or> requests h = (R @ take i rs) @ [json_request E s m u j]"
  then show "X (ApiError msg) h"
    using assms(1) assms(3) [of h i msg] assms(3) [of h "Suc i" msg] next_take by auto
next
  fix a h
  assume "effects h = (L, (R @ take i rs) @ [json_request E s m u j])"
  then show "effects h = (L, R @ take (Suc i) rs)"
    using assms(1,2) by (simp add: take_Suc_conv_app_nth)
qed (rule assms(4))

lemma triple_configure_and_boot:
  assumes "\<And>msg h n. live h = L \<Longrightarrow> n \<le> 4 \<Longrightarrow> requests h = R @ take n (boot_sequence E sock cfg)
      \<Longrightarrow> X (ApiError msg) h"
    and "\<And>h. effects h = (L, R @ boot_sequence E sock cfg) \<Longrightarrow> Q () h"
  shows "triple (\<lambda>h. effects h = (L, R)) (configure_and_boot E sock cfg) X Q"
proof -
  let ?rs = "boot_sequence E sock cfg"
  have len: "length ?rs = 4" by (simp add: boot_sequence_def)
  have "triple (\<lambda>h. effects h = (L, R @ take 0 ?rs)) (configure_and_boot E sock cfg) X Q"
    unfolding configure_and_boot_def
    by (intro triple_put_json_step triple_ret; (simp add: len assms)?)
      (simp_all add: boot_sequence_def numeral_eq_Suc)
  then show ?thesis by simp
qed

text \<open>The steps with an effect, each in the position of the first step of a sequence.\<close>

lemma triple_spawn_bind:
  assumes "\<And>e h. effects h = (L, R) \<Longrightarrow> X (on_error e) h"
    and "\<And>p. triple (\<lambda>h. effects h = (insert p L, R)) (f p) X Q"
  shows "triple (\<lambda>h. effects h = (L, R)) (try_bind (spawn_child E c on_error) f) X Q"
  using assms by (intro triple_bind [OF triple_spawn_child])

lemma triple_kill_bind:
  assumes "\<And>e h. effects h = (L, R) \<Longrightarrow> X (Io e) h"
    and "\<And>u. triple (\<lambda>h. effects h = (L - {p}, R)) (f u) X Q"
  shows "triple (\<lambda>h. effects h = (L, R)) (try_bind (kill_child E p) f) X Q"
proof (rule triple_bind)
  show "triple (\<lambda>h. effects h = (L, R)) (kill_child E p) X (\<lambda>_ h. effects h = (L - {p}, R))"
    using assms(1) by (auto simp: triple_def kill_child_def effects_def split: option.split)
qed (rule assms(2))

lemma triple_reap_bind:
  assumes "\<And>u. triple (\<lambda>h. effects h = (L - {p}, R)) (f u) X Q"
  shows "triple (\<lambda>h. effects h = (L, R)) (try_bind (emit (Waited p)) f) X Q"
  using assms by (intro triple_bind [OF triple_emit [where Q = "\<lambda>_ h. effects h = (L - {p}, R)"]]) simp_all

lemma triple_remove_bind:
  assumes "\<And>u. triple (\<lambda>h. effects h = v) (f u) X Q"
  shows "triple (\<lambda>h. effects h = v) (try_bind (capture (remove_file s)) f) X Q"
proof (rule triple_bind)
  show "triple (\<lambda>h. effects h = v) (capture (remove_file s)) X (\<lambda>_ h. effects h = v)"
    by (simp add: triple_iff exec_projections remove_file_def emit_def eff.view_quiet)
qed (rule assms)

lemma triple_put_json_bind:
  assumes "\<And>msg h. live h = L \<Longrightarrow> requests h = R \<or> requests h = R @ [json_request E s m u j]
      \<Longrightarrow> X (g (ApiError msg)) h"
    and "\<And>a. triple (\<lambda>h. effects h = (L, R @ [json_request E s m u j])) (f a) X Q"
  shows "triple (\<lambda>h. effects h = (L, R)) (try_bind (with_err g (put_json E s m u j)) f) X Q"
  using assms by (intro triple_bind [OF triple_with_err [OF triple_put_json]])

lemma triple_boot_bind:
  assumes "\<And>msg h n. live h = L \<Longrightarrow> n \<le> 4 \<Longrightarrow> requests h = R @ take n (boot_sequence E sock cfg)
      \<Longrightarrow> X (g (ApiError msg)) h"
    and "\<And>a. triple (\<lambda>h. effects h = (L, R @ boot_sequence E sock cfg)) (f a) X Q"
  shows "triple (\<lambda>h. effects h = (L, R)) (try_bind (with_err g (configure_and_boot E sock cfg)) f) X Q"
  using assms by (intro triple_bind [OF triple_with_err [OF triple_configure_and_boot]])

lemma triple_dropping_child:
  "triple P m (\<lambda>e h. X e (Dropped p # h)) (\<lambda>a h. Q a (Dropped p # h))
   \<Longrightarrow> triple P (dropping_child p m) X Q"
  unfolding triple_iff dropping_child_def Let_def case_prod_unfold fst_conv snd_conv .

text \<open>The steps of a method that neither send a request nor touch a child are skipped.\<close>

lemmas eff_skips =
  eff.triple_skip [OF eff.preserves_queries(1)] eff.triple_skip [OF eff.preserves_queries(2)]
  eff.triple_skip [OF eff.preserves_queries(3)] eff.triple_skip [OF eff.preserves_queries(4)]
  eff.triple_skip [OF eff.preserves_queries(5)]
  eff.triple_skip [OF eff.preserves_require_kvm] eff.triple_skip [OF eff.preserves_which_binary]
  eff.triple_skip [OF eff.preserves_wait_for_socket]
  eff.triple_skip [OF eff.preserves_with_err [OF eff.preserves_wait_for_socket]]
  eff.triple_skip [OF eff.preserves_read_serial]
  eff.triple_skip [OF eff.preserves_if]

text \<open>The requests of a boot that may have been cut short.\<close>

definition partial_boot :: "env \<Rightarrow> FirecrackerBackend \<Rightarrow> VmConfig \<Rightarrow> (path \<times> http_request) list \<Rightarrow> bool" where
  "partial_boot E b cfg rs =
     (\<exists>vm n. n \<le> 4 \<and> rs = take n (boot_sequence E (fc_socket_path E b vm) cfg))"

lemma partial_boot_simps [simp]:
  "partial_boot E b cfg []"
  "n \<le> 4 \<Longrightarrow> partial_boot E b cfg (take n (boot_sequence E (fc_socket_path E b vm) cfg))"
  "partial_boot E b cfg (boot_sequence E (fc_socket_path E b vm) cfg)"
proof -
  have "boot_sequence E (fc_socket_path E b vm) cfg = take 4 (boot_sequence E (fc_socket_path E b vm) cfg)"
    by (simp add: boot_sequence_def)
  then show "partial_boot E b cfg (boot_sequence E (fc_socket_path E b vm) cfg)"
    by (auto simp: partial_boot_def)
qed (auto simp: partial_boot_def intro: exI [of _ 0])

lemma triple_fc_spawn:
  "triple (\<lambda>h. effects h = (L, R)) (fc_spawn E b cfg)
     (\<lambda>e h. live h \<subseteq> L \<and> (\<exists>rs. partial_boot E b cfg rs \<and> requests h = R @ rs))
     (\<lambda>v h. effects h = (insert (process v) L, R @ boot_sequence E (socket_path v) cfg)
        \<and> socket_path v = fc_socket_path E b (vm_id v))" (is "triple _ _ ?X ?Q")
proof -
  have before: "?X e h" if "effects h = (L, R)" for e h
    using that by (auto intro: exI [of _ "[]"])
  have after: "triple (\<lambda>h. effects h = (insert p L, R)) (owning_child p (
        try_bind (wait_for_socket E sock) (\<lambda>_.
        try_bind (with_err (\<lambda>e. SpawnFailed (ExecutorError_fmt (fmt_uuid E) e))
          (configure_and_boot E sock cfg)) (\<lambda>_.
        try_bind (utc_now E) (\<lambda>now. ret (VmHandle_new now vm sock p)))))) ?X ?Q"
    if "sock = fc_socket_path E b vm" for sock vm p
    using that
    by (intro triple_owning_child eff_skips triple_boot_bind triple_ret)
      (auto simp: VmHandle_new_def intro: exI [of _ "[]"])
  show ?thesis
    unfolding fc_spawn_def Let_def
    by (intro eff_skips triple_spawn_bind after before
        eff.preserves_ret eff.preserves_which_binary) simp_all
qed

text \<open>The request that loads a snapshot into a fresh Firecracker process.\<close>

definition load_body :: "env \<Rightarrow> FirecrackerBackend \<Rightarrow> VmSnapshotId \<Rightarrow> json" where
  "load_body E b sid =
     JObj [(''snapshot_path'', JStr (snapshot_state_path E b sid)),
           (''mem_backend'', JObj [(''backend_path'', JStr (snapshot_mem_path E b sid)),
                                  (''backend_type'', JStr ''File'')]),
           (''enable_diff_snapshots'', JBool False), (''resume_vm'', JBool True)]"

definition load_request :: "env \<Rightarrow> FirecrackerBackend \<Rightarrow> VmSnapshotId \<Rightarrow> path \<Rightarrow> path \<times> http_request" where
  "load_request E b sid sock = json_request E sock PUT ''/snapshot/load'' (load_body E b sid)"

lemma triple_fc_restore:
  "triple (\<lambda>h. effects h = (L, R)) (fc_restore E b sid)
     (\<lambda>e h. live h \<subseteq> L \<and> (requests h = R \<or> (\<exists>vm. requests h = R @ [load_request E b sid (fc_socket_path E b vm)])))
     (\<lambda>v h. effects h = (insert (process v) L, R @ [load_request E b sid (socket_path v)])
        \<and> socket_path v = fc_socket_path E b (vm_id v))" (is "triple _ _ ?X ?Q")
proof -
  let ?failed = "\<lambda>e. RestoreFailed (snapshot_uuid sid) (ExecutorError_fmt (fmt_uuid E) e)"
  have before: "?X e h" if "effects h = (L, R)" for e h
    using that by simp
  have after: "triple (\<lambda>h. effects h = (insert p L, R)) (owning_child p (
        try_bind (with_err ?failed (wait_for_socket E sock)) (\<lambda>_.
        try_bind (with_err ?failed (put_json E sock PUT ''/snapshot/load'' (load_body E b sid))) (\<lambda>_.
        try_bind (utc_now E) (\<lambda>now. ret (VmHandle_new now vm sock p)))))) ?X ?Q"
    if "sock = fc_socket_path E b vm" for sock vm p
    using that by (intro triple_owning_child eff_skips triple_put_json_bind triple_ret)
      (auto simp: VmHandle_new_def load_request_def)
  show ?thesis
    unfolding fc_restore_def Let_def load_body_def [symmetric]
    by (intro eff_skips triple_spawn_bind after before triple_if triple_throw
        eff.preserves_ret eff.preserves_queries) simp_all
qed

lemma triple_fc_terminate:
  "triple (\<lambda>h. effects h = (L, R)) (fc_terminate E b v)
     (\<lambda>e h. effects h = (L - {process v}, R) \<and> (\<exists>msg. e = Io msg))
     (\<lambda>_ h. effects h = (L - {process v}, R))"
  unfolding fc_terminate_def
  by (intro triple_dropping_child triple_kill_bind triple_remove_bind triple_ret)
    auto

lemma triple_fc_execute_command:
  "triple (\<lambda>h. effects h = (L, R)) (fc_execute_command E b cfg command timeout)
     (\<lambda>e h. live h \<subseteq> L \<and> (\<exists>rs. partial_boot E b (cfg\<lparr>boot_args := exec_boot_args command\<rparr>) rs
        \<and> requests h = R @ rs))
     (\<lambda>out h. live h \<subseteq> L \<and> (\<exists>vm. requests h = R @ boot_sequence E (fc_socket_path E b vm)
           (cfg\<lparr>boot_args := exec_boot_args command\<rparr>)))" (is "triple _ _ ?X ?Q")
proof -
  let ?cfg = "cfg\<lparr>boot_args := exec_boot_args command\<rparr>"
  have before: "?X e h" if "effects h = (L, R)" for e h
    using that by (auto intro: exI [of _ "[]"])
  have after: "triple (\<lambda>h. effects h = (insert p L, R)) (dropping_child p (
        try_bind (wait_for_socket E sock) (\<lambda>_.
        try_bind (with_err (\<lambda>e. SpawnFailed (ExecutorError_fmt (fmt_uuid E) e))
          (configure_and_boot E sock ?cfg)) (\<lambda>_.
        try_bind (read_serial E cmd p timeout) (\<lambda>raw_output.
        try_bind (emit (Waited p)) (\<lambda>_.
        try_bind (capture (remove_file sock)) (\<lambda>_.
        (let (out, err, code) = parse_execution_output (base64_decode E) raw_output in
         ret \<lparr>out_stdout = out, out_stderr = err, exit_code = code\<rparr>)))))))) ?X ?Q"
    if "sock = fc_socket_path E b vm" for sock vm p cmd
    using that
    by (intro triple_dropping_child eff_skips triple_boot_bind triple_reap_bind triple_remove_bind)
      (auto simp: case_prod_unfold Let_def intro: exI [of _ "[]"] intro!: triple_ret)
  show ?thesis
    unfolding fc_execute_command_def Let_def
    by (intro eff_skips triple_spawn_bind after [unfolded Let_def] before) simp_all
qed

section \<open>The polling loop\<close>

text \<open>The history after \<open>k\<close> rounds that did not see the socket.\<close>

fun polled :: "path \<Rightarrow> nat \<Rightarrow> history \<Rightarrow> history" where
  "polled s 0 h = h"
| "polled s (Suc k) h = Slept 100 # Exists s # polled s k h"

lemma polled_shift: "polled s k (Slept 100 # Exists s # h) = polled s (Suc k) h"
  by (induction k) simp_all

lemma slept_polled [simp]: "slept (polled s k h) = 100 * k + slept h"
  by (induction k) simp_all

lemma poll_socket_cases:
  "(\<exists>k < n. path_exists E (polled s k h) s \<and> poll_socket E s n h = (Ok (), Exists s # polled s k h))
   \<or> ((\<forall>k < n. \<not> path_exists E (polled s k h) s) \<and> poll_socket E s n h =
        (Err (SpawnFailed (''socket '' @ s @ '' did not appear within 5s'')), polled s n h))"
proof (induction n arbitrary: h)
  case 0
  then show ?case by (simp add: throw_def)
next
  case (Suc n)
  show ?case
  proof (cases "path_exists E h s")
    case True
    then have "poll_socket E s (Suc n) h = (Ok (), Exists s # polled s 0 h)"
      by (simp add: try_bind_def ask_exists_def ret_def)
    with True show ?thesis by (intro disjI1 exI [of _ 0]) simp
  next
    case False
    then have step: "poll_socket E s (Suc n) h = poll_socket E s n (Slept 100 # Exists s # h)"
      by (simp add: try_bind_def ask_exists_def sleep_ms_def emit_def)
    from Suc.IH [of "Slept 100 # Exists s # h", unfolded polled_shift] show ?thesis
    proof (elim disjE exE conjE)
      fix k
      assume "k < n" "path_exists E (polled s (Suc k) h) s"
        "poll_socket E s n (Slept 100 # Exists s # h) = (Ok (), Exists s # polled s (Suc k) h)"
      then show ?thesis unfolding step by (intro disjI1 exI [of _ "Suc k"]) simp
    next
      assume none: "\<forall>k < n. \<not> path_exists E (polled s (Suc k) h) s"
      have "\<not> path_exists E (polled s k h) s" if "k < Suc n" for k
        using that none False by (cases k) simp_all
      moreover assume "poll_socket E s n (Slept 100 # Exists s # h) =
        (Err (SpawnFailed (''socket '' @ s @ '' did not appear within 5s'')), polled s (Suc n) h)"
      ultimately show ?thesis unfolding step by blast
    qed
  qed
qed

lemma read_serial_eq:
  "read_serial E c p d h =
     (if \<not> stdout_piped c then (Err (SpawnFailed ''stdout not piped''), h)
      else (case read_result E h p d of
          TimedOut \<Rightarrow> Err (SpawnFailed (''VM did not complete within '' @ show_nat (as_secs d) @ ''s''))
        | ReadError e \<Rightarrow> Err (Io e)
        | ReadOk raw \<Rightarrow> Ok raw, ReadStdout p d # h))"
  by (simp add: read_serial_def try_bind_def read_with_timeout_def throw_def ret_def
      split: read_outcome.split)

lemma read_serial_Ok:
  "triple (\<lambda>_. True) (read_serial E c p d) (\<lambda>_ _. True) (\<lambda>raw _. \<exists>h. read_result E h p d = ReadOk raw)"
  unfolding triple_def read_serial_eq by (auto split: read_outcome.split)

end
