(* ===== verification/Vmm_Backend.thy ===== *)
theory Vmm_Backend
  imports Firecracker
begin

text \<open>
  \<open>forge-executor/src/backend.rs\<close>: the \<open>VmmBackend\<close> trait as a record of operations, the
  Firecracker backend as one such record, and the contract of a backend as a locale. The
  runner and the orchestrator are generic in the backend, as in the source; what they
  rely on is the locale \<open>vmm\<close>, discharged here for Firecracker.
\<close>

record vmm_backend =
  vb_spawn :: "VmConfig \<Rightarrow> VmHandle exec"
  vb_snapshot :: "VmHandle \<Rightarrow> VmSnapshotId exec"
  vb_restore :: "VmSnapshotId \<Rightarrow> VmHandle exec"
  vb_terminate :: "VmHandle \<Rightarrow> unit exec"
  vb_health_check :: "unit exec"
  vb_execute_command :: "VmConfig \<Rightarrow> string \<Rightarrow> duration \<Rightarrow> ExecutionOutput exec"

definition firecracker_vmm :: "env \<Rightarrow> FirecrackerBackend \<Rightarrow> vmm_backend" where
  "firecracker_vmm E b =
     \<lparr>vb_spawn = fc_spawn E b, vb_snapshot = fc_snapshot E b, vb_restore = fc_restore E b,
      vb_terminate = fc_terminate E b, vb_health_check = fc_health_check E b,
      vb_execute_command = fc_execute_command E b\<rparr>"

text \<open>
  The contract: starting a VM leaves exactly its process running and nothing when it
  fails; snapshots and health checks leave processes alone; termination ends the VM's
  process whether or not it reports an error; a run to completion leaves no process.
\<close>

locale vmm =
  fixes B :: vmm_backend
  assumes spawn_Ok: "vb_spawn B cfg h = (Ok v, h') \<Longrightarrow> live h' = insert (process v) (live h)"
    and spawn_Err: "vb_spawn B cfg h = (Err e, h') \<Longrightarrow> live h' \<subseteq> live h"
    and restore_Ok: "vb_restore B sid h = (Ok v, h') \<Longrightarrow> live h' = insert (process v) (live h)"
    and restore_Err: "vb_restore B sid h = (Err e, h') \<Longrightarrow> live h' \<subseteq> live h"
    and snapshot_live: "live (snd (vb_snapshot B v h)) = live h"
    and health_live: "live (snd (vb_health_check B h)) = live h"
    and terminate_live: "live (snd (vb_terminate B v h)) = live h - {process v}"
    and execute_live: "live (snd (vb_execute_command B cfg cmd t h)) \<subseteq> live h"

section \<open>Firecracker honours the contract\<close>

interpretation running: history_view live
proof
  fix e h
  assume "quiet_event e"
  then show "live (e # h) = live h" by (cases e) simp_all
qed

lemma put_json_preserves_live [intro!]: "preserves live (put_json E s m u j)"
  by (simp add: preserves_def put_json_def api_request_live)

lemma fc_snapshot_preserves_live: "preserves live (fc_snapshot E b v)"
  unfolding fc_snapshot_def Let_def by auto

lemma firecracker_vmm_contract: "vmm (firecracker_vmm E b)"
proof
  fix cfg h v h' e sid cmd t
  note start = triple_fc_spawn [of "live h" "requests h" E b cfg]
    and reload = triple_fc_restore [of "live h" "requests h" E b sid]
  show "vb_spawn (firecracker_vmm E b) cfg h = (Ok v, h') \<Longrightarrow> live h' = insert (process v) (live h)"
    using tripleD_Ok [OF start, of h v h'] by (simp add: firecracker_vmm_def)
  show "vb_spawn (firecracker_vmm E b) cfg h = (Err e, h') \<Longrightarrow> live h' \<subseteq> live h"
    using tripleD_Err [OF start, of h e h'] by (simp add: firecracker_vmm_def)
  show "vb_restore (firecracker_vmm E b) sid h = (Ok v, h') \<Longrightarrow> live h' = insert (process v) (live h)"
    using tripleD_Ok [OF reload, of h v h'] by (simp add: firecracker_vmm_def)
  show "vb_restore (firecracker_vmm E b) sid h = (Err e, h') \<Longrightarrow> live h' \<subseteq> live h"
    using tripleD_Err [OF reload, of h e h'] by (simp add: firecracker_vmm_def)
  show "live (snd (vb_snapshot (firecracker_vmm E b) v h)) = live h"
    using fc_snapshot_preserves_live by (simp add: firecracker_vmm_def preserves_def)
  show "live (snd (vb_health_check (firecracker_vmm E b) h)) = live h"
    using running.preserves_health_check by (simp add: firecracker_vmm_def preserves_def)
  show "live (snd (vb_terminate (firecracker_vmm E b) v h)) = live h - {process v}"
    unfolding firecracker_vmm_def vmm_backend.simps
    by (rule tripleD_snd [OF triple_fc_terminate [of "live h" "requests h" E b v], of h]) simp_all
  show "live (snd (vb_execute_command (firecracker_vmm E b) cfg cmd t h)) \<subseteq> live h"
    unfolding firecracker_vmm_def vmm_backend.simps
    by (rule tripleD_snd [OF triple_fc_execute_command [of "live h" "requests h" E b cfg cmd t], of h])
      simp_all
qed

interpretation firecracker: vmm "firecracker_vmm E b" for E b
  by (rule firecracker_vmm_contract)

end
