(* ===== verification/Backend_Facts.thy ===== *)
theory Backend_Facts
  imports Vmm_Backend
begin

text \<open>
  Further facts on the Firecracker backend: the errors each method can return, what a
  snapshot sends when the API socket answers, when a binary is found, and where the output
  of \<open>execute_command\<close> comes from.
\<close>

section \<open>The errors a computation can return\<close>

definition raises :: "(ExecutorError \<Rightarrow> bool) \<Rightarrow> 'a exec \<Rightarrow> bool" where
  "raises S m = (\<forall>h e. fst (m h) = Err e \<longrightarrow> S e)"

lemma raisesD: "raises S m \<Longrightarrow> m h = (Err e, h') \<Longrightarrow> S e"
  unfolding raises_def by (drule spec [of _ h]) simp

lemma raises_bind [intro!]: "raises S m \<Longrightarrow> (\<And>a. raises S (f a)) \<Longrightarrow> raises S (try_bind m f)"
  unfolding raises_def exec_projections by (auto split: sum.split_asm)

lemma raises_if [intro!]: "(c \<Longrightarrow> raises S m) \<Longrightarrow> (\<not> c \<Longrightarrow> raises S n) \<Longrightarrow> raises S (if c then m else n)"
  by simp

lemma raises_steps [intro!]:
  "raises S (ret a)" "S e \<Longrightarrow> raises S (throw e)" "raises S (emit ev)" "raises S (capture n)"
  "raises S (ask_exists E p)" "raises S (ask_metadata E p)" "raises S (new_v4 E)" "raises S (utc_now E)"
  "raises S (sleep_ms t)" "raises S (remove_file p)" "raises S (read_with_timeout E q d)"
  "(\<And>e. S (g e)) \<Longrightarrow> raises S (spawn_child E c g)"
  "(\<And>e. S (k e)) \<Longrightarrow> raises S (with_err k m)"
  by (auto simp: raises_def exec_projections ret_def throw_def emit_def ask_exists_def ask_metadata_def
      new_v4_def utc_now_def sleep_ms_def remove_file_def read_with_timeout_def spawn_child_def
      map_err_def split: sum.splits)

lemma raises_Io [intro!]:
  "(\<And>h e. mkdir_error E h p = Some e \<Longrightarrow> S (Io e)) \<Longrightarrow> raises S (create_dir_all E p)"
  "(\<And>e. S (Io e)) \<Longrightarrow> raises S (kill_child E q)"
  by (auto simp: raises_def create_dir_all_def kill_child_def split: option.splits)

lemma raises_owning [intro!]: "raises S m \<Longrightarrow> raises S (owning_child p m)"
  unfolding raises_def exec_projections by (auto split: sum.split_asm)

lemma raises_dropping [intro!]: "raises S m \<Longrightarrow> raises S (dropping_child p m)"
  unfolding raises_def dropping_child_def by (simp add: case_prod_unfold Let_def)

lemma raises_kvm [intro!]: "(\<And>r. S (KvmUnavailable r)) \<Longrightarrow> raises S (require_kvm E)"
  unfolding require_kvm_def by auto

lemma raises_any_exists [intro!]: "raises S (any_exists E ps)"
  by (induction ps) auto

lemma raises_which_binary [intro!]: "S (BinaryNotFound p) \<Longrightarrow> raises S (which_binary E p)"
  unfolding which_binary_def by auto

lemma raises_poll [intro!]: "(\<And>m. S (SpawnFailed m)) \<Longrightarrow> raises S (poll_socket E sock n)"
  by (induction n) auto

lemma raises_wait [intro!]: "(\<And>m. S (SpawnFailed m)) \<Longrightarrow> raises S (wait_for_socket E sock)"
  unfolding wait_for_socket_def by auto

lemma raises_read_serial:
  assumes "\<And>m. S (SpawnFailed m)" and "\<And>h e. read_result E h p d = ReadError e \<Longrightarrow> S (Io e)"
  shows "raises S (read_serial E c p d)"
  using assms by (auto simp: raises_def read_serial_eq split: read_outcome.splits if_splits)

text \<open>The documented errors of each method.\<close>

fun start_error :: "ExecutorError \<Rightarrow> bool" where
  "start_error (KvmUnavailable r) = True"
| "start_error (BinaryNotFound p) = True"
| "start_error (SpawnFailed m) = True"
| "start_error (Io e) = True"
| "start_error _ = False"

fun snapshot_error :: "uuid \<Rightarrow> ExecutorError \<Rightarrow> bool" where
  "snapshot_error vm (SnapshotFailed i r) = (i = vm)"
| "snapshot_error vm (Io e) = True"
| "snapshot_error vm _ = False"

fun restore_error :: "uuid \<Rightarrow> ExecutorError \<Rightarrow> bool" where
  "restore_error sid (RestoreFailed i r) = (i = sid)"
| "restore_error sid (Io e) = True"
| "restore_error sid _ = False"

fun health_error :: "ExecutorError \<Rightarrow> bool" where
  "health_error (KvmUnavailable r) = True"
| "health_error (BinaryNotFound p) = True"
| "health_error _ = False"

lemma raises_fc_spawn: "raises start_error (fc_spawn E b cfg)"
  unfolding fc_spawn_def Let_def by auto

lemma raises_fc_snapshot: "raises (snapshot_error (vm_id v)) (fc_snapshot E b v)"
  unfolding fc_snapshot_def Let_def by auto

lemma raises_fc_restore: "raises (restore_error (snapshot_uuid sid)) (fc_restore E b sid)"
  unfolding fc_restore_def Let_def by auto

lemma raises_fc_terminate: "raises (\<lambda>e. \<exists>msg. e = Io msg) (fc_terminate E b v)"
  unfolding fc_terminate_def by auto

lemma raises_fc_health_check: "raises health_error (fc_health_check E b)"
  unfolding fc_health_check_def by auto

lemma raises_fc_execute_command:
  assumes "\<And>r. S (KvmUnavailable r)" and "\<And>p. S (BinaryNotFound p)" and "\<And>m. S (SpawnFailed m)"
    and "\<And>h p e. mkdir_error E h p = Some e \<Longrightarrow> S (Io e)"
    and "\<And>h p e. read_result E h p timeout = ReadError e \<Longrightarrow> S (Io e)"
  shows "raises S (fc_execute_command E b cfg command timeout)"
  unfolding fc_execute_command_def Let_def using assms
  by (auto intro!: raises_read_serial split: prod.split)

section \<open>Where the output of a run comes from\<close>

lemma execute_command_output:
  "triple (\<lambda>_. True) (fc_execute_command E b cfg command timeout) (\<lambda>_ _. True)
     (\<lambda>out _. \<exists>h p raw. read_result E h p timeout = ReadOk raw
        \<and> parse_execution_output (base64_decode E) raw = (out_stdout out, out_stderr out, exit_code out))"
  (is "triple _ _ _ ?Q")
proof -
  have tail: "triple (\<lambda>_. True)
      (try_bind (read_serial E cmd p timeout) (\<lambda>raw.
       try_bind (emit (Waited p)) (\<lambda>_.
       try_bind (capture (remove_file sock)) (\<lambda>_.
       case parse_execution_output (base64_decode E) raw of (out, err, code) \<Rightarrow>
         ret \<lparr>out_stdout = out, out_stderr = err, exit_code = code\<rparr>)))) (\<lambda>_ _. True) ?Q" for cmd p sock
  proof (rule triple_bind [OF read_serial_Ok])
    fix raw
    show "triple (\<lambda>_. \<exists>h. read_result E h p timeout = ReadOk raw)
      (try_bind (emit (Waited p)) (\<lambda>_.
       try_bind (capture (remove_file sock)) (\<lambda>_.
       case parse_execution_output (base64_decode E) raw of (out, err, code) \<Rightarrow>
         ret \<lparr>out_stdout = out, out_stderr = err, exit_code = code\<rparr>))) (\<lambda>_ _. True) ?Q"
      by (auto simp: triple_iff exec_projections emit_def remove_file_def ret_def split: prod.split)
  qed
  show ?thesis
    unfolding fc_execute_command_def Let_def
    by (intro tail triple_any_bind triple_dropping_child)
qed

section \<open>Finding the binary\<close>

text \<open>In a file system that does not change during the search.\<close>

lemma any_exists_stable:
  assumes "\<And>h q. path_exists E h q = present q"
  shows "fst (any_exists E ps h) = Ok (\<exists>q \<in> set ps. present q)"
  by (induction ps arbitrary: h) (auto simp: exec_projections ret_def ask_exists_def assms)

lemma which_binary_stable:
  assumes "\<And>h q. path_exists E h q = present q"
  shows "fst (which_binary E p h) =
    (if (if is_absolute p then present p
         else \<exists>dir \<in> set (split_colon (case path_var E of Some v \<Rightarrow> v | None \<Rightarrow> [])). present (path_join dir p))
     then Ok () else Err (BinaryNotFound p))"
  by (simp add: which_binary_def exec_projections any_exists_stable [OF assms] assms
      ask_exists_def ret_def throw_def)

section \<open>Snapshots over a working socket\<close>

text \<open>The socket accepts connections and every request can be built.\<close>

definition api_reachable :: "env \<Rightarrow> path \<Rightarrow> bool" where
  "api_reachable E s = ((\<forall>h. connect_error E h s = None \<and> handshake_error E h s = None)
     \<and> (\<forall>u. uri_error E u = None) \<and> (\<forall>r. build_error E r = None))"

lemma put_json_reachable:
  assumes "api_reachable E s"
  shows "requests (snd (put_json E s m u j h)) = requests h @ [json_request E s m u j]"
  using assms by (simp add: put_json_def json_request_def api_request_defs api_reachable_def Let_def split: sum.split)

definition vm_state_request :: "env \<Rightarrow> path \<Rightarrow> string \<Rightarrow> path \<times> http_request" where
  "vm_state_request E s st = json_request E s PATCH ''/vm'' (JObj [(''state'', JStr st)])"

definition create_request :: "env \<Rightarrow> FirecrackerBackend \<Rightarrow> path \<Rightarrow> VmSnapshotId \<Rightarrow> path \<times> http_request" where
  "create_request E b s sid = json_request E s PUT ''/snapshot/create''
     (JObj [(''snapshot_type'', JStr ''Full''), (''snapshot_path'', JStr (snapshot_state_path E b sid)),
            (''mem_file_path'', JStr (snapshot_mem_path E b sid))])"

lemma snapshot_requests:
  assumes "api_reachable E (socket_path v)"
  shows "\<exists>rs sid. requests (snd (fc_snapshot E b v h)) = requests h @ rs
    \<and> (rs = [] \<or> rs = [vm_state_request E (socket_path v) ''Paused'']
       \<or> rs = [vm_state_request E (socket_path v) ''Paused'', create_request E b (socket_path v) sid,
               vm_state_request E (socket_path v) ''Resumed''])
    \<and> (length rs < 3 \<longrightarrow> \<not> is_ok (fst (fc_snapshot E b v h)))
    \<and> (\<forall>i. fst (fc_snapshot E b v h) = Ok i \<longrightarrow> i = sid)"
proof -
  let ?sid = "VmSnapshotId_new (drawn_uuid E h)" and ?s = "socket_path v"
  let ?pause = "put_json E ?s PATCH ''/vm'' (JObj [(''state'', JStr ''Paused'')]) (CreateDirAll (snapshot_dir b) # DrawUuid # h)"
  note steps = fc_snapshot_def exec_projections new_v4_def create_dir_all_def from_result_def ret_def
    Let_def put_json_reachable [OF assms] vm_state_request_def create_request_def
  consider (mkdir) e where "mkdir_error E (DrawUuid # h) (snapshot_dir b) = Some e"
    | (pause) e where "mkdir_error E (DrawUuid # h) (snapshot_dir b) = None" "fst ?pause = Err e"
    | (paused) r where "mkdir_error E (DrawUuid # h) (snapshot_dir b) = None" "fst ?pause = Ok r"
    by (cases "mkdir_error E (DrawUuid # h) (snapshot_dir b)"; cases "fst ?pause") auto
  then show ?thesis
  proof cases
    case mkdir
    then show ?thesis by (intro exI [of _ "[]"] exI [of _ ?sid]) (simp add: steps)
  next
    case pause
    then show ?thesis
      by (intro exI [of _ "[vm_state_request E ?s ''Paused'']"] exI [of _ ?sid]) (simp add: steps)
  next
    case paused
    then show ?thesis
      by (intro exI [of _ "[vm_state_request E ?s ''Paused'', create_request E b ?s ?sid,
          vm_state_request E ?s ''Resumed'']"] exI [of _ ?sid]) (simp add: steps split: sum.split)
  qed
qed

end
