(* ===== verification/Base64_Reference.thy ===== *)
theory Base64_Reference
  imports Serial_Output
begin

text \<open>
  The standard base64 encoding of RFC 4648, section 4, with strict padding: an executable
  reference against which the interface \<open>base64_engine\<close> is discharged, so that the
  serial protocol's properties can be evaluated on concrete streams. The executor itself
  uses the \<open>base64\<close> crate, which stays a parameter of the model.
\<close>

definition b64_table :: "u8 list" where
  "b64_table =
     as_bytes ''ABCDEFGHIJKLMNOPQRSTUVWXYZabcdefghijklmnopqrstuvwxyz0123456789+/''"

definition b64_char :: "nat \<Rightarrow> u8" where
  "b64_char n = b64_table ! n"

definition b64_val :: "u8 \<Rightarrow> nat option" where
  "b64_val b = position (\<lambda>c. c = b) b64_table"

fun b64_encode :: "u8 list \<Rightarrow> u8 list" where
  "b64_encode [] = []"
| "b64_encode [a] = [b64_char (unat a div 4), b64_char (unat a mod 4 * 16), 61, 61]"
| "b64_encode [a, b] =
     [b64_char (unat a div 4), b64_char (unat a mod 4 * 16 + unat b div 16),
      b64_char (unat b mod 16 * 4), 61]"
| "b64_encode (a # b # c # bs) =
     b64_char (unat a div 4) # b64_char (unat a mod 4 * 16 + unat b div 16) #
     b64_char (unat b mod 16 * 4 + unat c div 64) # b64_char (unat c mod 64) # b64_encode bs"

text \<open>The bytes of a final group: two, one or no padding characters, unused bits zero.\<close>

definition b64_last :: "nat \<Rightarrow> nat \<Rightarrow> u8 \<Rightarrow> u8 \<Rightarrow> u8 list option" where
  "b64_last i j r s =
     (if r = 61 \<and> s = 61 then
        (if j mod 16 = 0 then Some [of_nat (i * 4 + j div 16)] else None)
      else case b64_val r of None \<Rightarrow> None | Some k \<Rightarrow>
        (if s = 61 then
           (if k mod 4 = 0 then Some [of_nat (i * 4 + j div 16), of_nat (j mod 16 * 16 + k div 4)]
            else None)
         else map_option (\<lambda>l. [of_nat (i * 4 + j div 16), of_nat (j mod 16 * 16 + k div 4),
                               of_nat (k mod 4 * 64 + l)]) (b64_val s)))"

fun b64_decode :: "u8 list \<Rightarrow> u8 list option" where
  "b64_decode [] = Some []"
| "b64_decode (p # q # r # s # rest) =
     (case (b64_val p, b64_val q) of
        (Some i, Some j) \<Rightarrow>
          if rest = [] then b64_last i j r s
          else (case (b64_val r, b64_val s) of
             (Some k, Some l) \<Rightarrow>
               map_option (\<lambda>bs. of_nat (i * 4 + j div 16) # of_nat (j mod 16 * 16 + k div 4)
                 # of_nat (k mod 4 * 64 + l) # bs) (b64_decode rest)
           | _ \<Rightarrow> None)
      | _ \<Rightarrow> None)"
| "b64_decode _ = None"

lemma b64_table_length [simp]: "length b64_table = 64"
  by (simp add: b64_table_def)

lemma b64_table_distinct: "distinct b64_table"
  unfolding b64_table_def as_bytes_def by (simp add: distinct_map inj_on_def)

lemma b64_val_char [simp]: "n < 64 \<Longrightarrow> b64_val (b64_char n) = Some n"
  using b64_table_distinct
  by (auto simp: b64_val_def b64_char_def position_Some nth_eq_iff_index_eq)

lemma b64_char_in_table: "n < 64 \<Longrightarrow> b64_char n \<in> set b64_table"
  by (simp add: b64_char_def)

lemma pad_byte: "61 = byte_of_char CHR ''=''"
  by (simp add: byte_of_char_def)

lemma pad_not_in_table: "61 \<notin> set b64_table"
  unfolding b64_table_def pad_byte by simp

lemma b64_char_not_pad [simp]: "n < 64 \<Longrightarrow> b64_char n \<noteq> 61"
  using b64_char_in_table pad_not_in_table by metis

lemma digit_join:
  assumes "y < (k::nat)"
  shows "(x * k + y) div k = x" and "(x * k + y) mod k = y"
  using assms by simp_all

lemma sextet_high:
  "unat (a :: u8) div 4 < 64" "unat a div 16 < 16" "unat a div 64 < 4"
  by (simp_all add: less_mult_imp_div_less)

lemma sextet_bounds [simp]:
  "unat (a :: u8) div 4 < 64" "unat a mod 4 * 16 < 64" "unat a mod 16 * 4 < 64"
  "unat a mod 4 * 16 + unat (b :: u8) div 16 < 64" "unat a mod 16 * 4 + unat b div 64 < 64"
proof -
  have "unat a mod 4 < 4" "unat a mod 16 < 16" by simp_all
  then show "unat a mod 4 * 16 < 64" "unat a mod 16 * 4 < 64"
    "unat a mod 4 * 16 + unat b div 16 < 64" "unat a mod 16 * 4 + unat b div 64 < 64"
    using sextet_high [of b] by linarith+
qed (rule sextet_high)

lemmas sextet_join = digit_join [OF sextet_high(2)] digit_join [OF sextet_high(3)]

lemma b64_encode_Nil [simp]: "b64_encode bs = [] \<longleftrightarrow> bs = []"
  by (cases bs rule: b64_encode.cases) simp_all

lemma b64_decode_encode: "b64_decode (b64_encode bs) = Some bs"
  by (induction bs rule: b64_encode.induct)
    (simp_all add: sextet_join sextet_high b64_last_def del: of_nat_add of_nat_mult)

lemma b64_encode_alphabet: "set (b64_encode bs) \<subseteq> b64_alphabet"
proof -
  have "set b64_table \<subseteq> b64_alphabet" and pad: "61 \<in> b64_alphabet"
    unfolding b64_alphabet_def b64_table_def pad_byte by simp_all
  then have "b64_char n \<in> b64_alphabet" if "n < 64" for n
    using that b64_char_in_table by blast
  with pad show ?thesis
    by (induction bs rule: b64_encode.induct) simp_all
qed

interpretation rfc4648: base64_engine b64_encode b64_decode
  by unfold_locales (rule b64_decode_encode, rule b64_encode_alphabet)

end
