(* ===== verification/Simulation.thy ===== *)
theory Simulation
  imports Vmm_Backend Base64_Reference
begin

text \<open>
  A concrete outside world, in which every request succeeds: files exist, Firecracker
  starts and answers 204, the console delivers a given byte stream. It carries the
  reference base64 engine and the hyphenated text form of a UUID, and shows that the
  hypotheses of the properties can hold together. Process ids, UUIDs and clock readings
  are taken from the length of the history, so they never repeat along a run.
\<close>

section \<open>The text of a UUID\<close>

text \<open>Thirty-two hexadecimal digits in groups of 8, 4, 4, 4 and 12.\<close>

fun nibbles :: "nat \<Rightarrow> nat \<Rightarrow> string" where
  "nibbles 0 n = []"
| "nibbles (Suc k) n = nibbles k (n div 16) @ [hex_digit (n mod 16)]"

definition uuid_hyphenated :: "uuid \<Rightarrow> string" where
  "uuid_hyphenated u =
     (let s = nibbles 32 (unat u)
      in take 8 s @ ''-'' @ take 4 (drop 8 s) @ ''-'' @ take 4 (drop 12 s) @ ''-'' @
         take 4 (drop 16 s) @ ''-'' @ drop 20 s)"

lemma length_nibbles [simp]: "length (nibbles k n) = k"
  by (induction k arbitrary: n) simp_all

lemma nibbles_inject:
  "m < 16 ^ k \<Longrightarrow> n < 16 ^ k \<Longrightarrow> nibbles k m = nibbles k n \<longleftrightarrow> m = n"
proof (induction k arbitrary: m n)
  case (Suc k)
  have "m div 16 < 16 ^ k" "n div 16 < 16 ^ k"
    using Suc.prems by (simp_all add: less_mult_imp_div_less mult.commute)
  moreover have "m = n \<longleftrightarrow> m div 16 = n div 16 \<and> m mod 16 = n mod 16"
    by (metis mod_div_mult_eq)
  ultimately show ?case using Suc.IH by (simp add: hex_digit_inject)
qed simp

lemma uuid_hyphenated_inject: "uuid_hyphenated u = uuid_hyphenated w \<longleftrightarrow> u = w"
proof
  let ?s = "nibbles 32 (unat u)" and ?t = "nibbles 32 (unat w)"
  have join: "take n (drop m s) @ drop (m + n) s = drop m s" for n m and s :: string
    by (metis add.commute append_take_drop_id drop_drop)
  have split: "take 8 s @ take 4 (drop 8 s) @ take 4 (drop 12 s) @ take 4 (drop 16 s) @ drop 20 s = s"
    for s :: string
    using join [of 4 8 s] join [of 4 12 s] join [of 4 16 s] by simp
  assume "uuid_hyphenated u = uuid_hyphenated w"
  then have "take 8 ?s = take 8 ?t" "take 4 (drop 8 ?s) = take 4 (drop 8 ?t)"
    "take 4 (drop 12 ?s) = take 4 (drop 12 ?t)" "take 4 (drop 16 ?s) = take 4 (drop 16 ?t)"
    "drop 20 ?s = drop 20 ?t"
    by (simp_all add: uuid_hyphenated_def Let_def)
  then have "?s = ?t" using split [of ?s] split [of ?t] by metis
  moreover have "unat x < 16 ^ 32" for x :: uuid using unsigned_less [of x] by simp
  ultimately have "unat u = unat w" by (simp add: nibbles_inject)
  then show "u = w" by (rule unsigned_word_eqI)
qed simp

section \<open>A world in which everything works\<close>

definition sim_env :: "u8 list \<Rightarrow> env" where
  "sim_env console =
     \<lparr>path_exists = (\<lambda>_ _. True), metadata_ok = (\<lambda>_ _. True), path_var = Some ''/usr/bin:/bin'',
      mkdir_error = (\<lambda>_ _. None), drawn_uuid = (\<lambda>h. of_nat (length h)),
      spawn_result = (\<lambda>h _. Inr (length h)), kill_error = (\<lambda>_ _. None),
      read_result = (\<lambda>_ _ _. ReadOk console), clock = (\<lambda>h. int (length h)),
      monotonic = (\<lambda>h. length h), connect_error = (\<lambda>_ _. None), handshake_error = (\<lambda>_ _. None),
      uri_error = (\<lambda>_. None), build_error = (\<lambda>_. None),
      send_result = (\<lambda>_ _ _. Inr \<lparr>resp_status = 204, resp_body = Inr []\<rparr>),
      fmt_status = (\<lambda>code. show_nat code), fmt_uuid = uuid_hyphenated,
      json_to_string = json_text, base64_decode = b64_decode\<rparr>"

lemma sim_env_simps [simp]:
  "path_exists (sim_env c) h p = True" "metadata_ok (sim_env c) h p = True"
  "mkdir_error (sim_env c) h p = None" "drawn_uuid (sim_env c) h = of_nat (length h)"
  "spawn_result (sim_env c) h cmd = Inr (length h)" "kill_error (sim_env c) h q = None"
  "read_result (sim_env c) h q d = ReadOk c" "clock (sim_env c) h = int (length h)"
  "monotonic (sim_env c) h = length h" "fmt_uuid (sim_env c) = uuid_hyphenated"
  "connect_error (sim_env c) h p = None" "handshake_error (sim_env c) h p = None"
  "uri_error (sim_env c) u = None" "build_error (sim_env c) req = None"
  "send_result (sim_env c) h p req = Inr \<lparr>resp_status = 204, resp_body = Inr []\<rparr>"
  "json_to_string (sim_env c) = json_text" "base64_decode (sim_env c) = b64_decode"
  by (simp_all add: sim_env_def)

lemma sim_wait_for_socket: "wait_for_socket (sim_env c) s h = (Ok (), Exists s # h)"
  by (simp add: wait_for_socket_def numeral_eq_Suc try_bind_def ask_exists_def ret_def)

text \<open>The texts of the requests are not spelled out.\<close>

declare json_text.simps [simp del]

lemma sim_put_json:
  "put_json (sim_env c) s m u j h =
     (Ok [], Requested s (api_http_request m u (Some (json_text j))) # Connected s # h)"
  by (simp add: put_json_def api_request_defs check_response_def is_success_def from_utf8_lossy_def)

lemmas sim_run = sim_wait_for_socket sim_put_json try_bind_def with_err_def capture_def
  owning_child_def dropping_child_def ask_exists_def ask_metadata_def create_dir_all_def new_v4_def
  utc_now_def instant_now_def spawn_child_def kill_child_def sleep_ms_def remove_file_def
  read_with_timeout_def require_kvm_def configure_and_boot_def exec_ret exec_throw exec_emit
  exec_from_result

definition sim_socket :: "FirecrackerBackend \<Rightarrow> history \<Rightarrow> path" where
  "sim_socket b h = path_join (socket_dir b) (uuid_hyphenated (of_nat (Suc (Suc (length h)))) @ ''.sock'')"

lemma sim_spawn:
  "\<exists>h'. fc_spawn (sim_env c) b cfg h =
     (Ok (VmHandle_new (int (length h) + 14) (of_nat (length h + 2)) (sim_socket b h) (Suc (Suc (Suc (Suc (length h)))))), h')"
  by (simp add: fc_spawn_def sim_run fc_socket_path_def sim_socket_def Let_def add.commute)

lemma sim_terminate: "fst (fc_terminate (sim_env c) b v h) = Ok ()"
  by (simp add: fc_terminate_def sim_run Let_def)

lemma sim_which_binary:
  "which_binary (sim_env c) p h =
     (Ok (), Exists (if is_absolute p then p else path_join ''/usr/bin'' p) # h)"
  by (simp add: which_binary_def sim_run sim_env_def [of c])

lemma sim_execute_command:
  "fst (fc_execute_command (sim_env console) b cfg command timeout h) =
     (let (out, err, code) = parse_execution_output b64_decode console
      in Ok \<lparr>out_stdout = out, out_stderr = err, exit_code = code\<rparr>)"
  by (simp add: fc_execute_command_def sim_which_binary sim_run read_serial_eq firecracker_cmd_def
      Let_def split: prod.split)

end
