(* ===== verification/Runner.thy ===== *)
theory Runner
  imports Vmm_Backend
begin

text \<open>
  \<open>forge-executor/src/runner.rs\<close>: running a block in a microVM and recording the hash of
  its output. The runner is generic in the backend (\<open>vmm_backend\<close>) and takes its hasher
  from the \<open>sha2\<close> crate, here a record of the three operations it calls; the locale
  \<open>sha256_hasher\<close> states what the source relies on.
\<close>

section \<open>The hash of an output\<close>

record 's hasher =
  hasher_new :: 's
  hasher_update :: "'s \<Rightarrow> u8 list \<Rightarrow> 's"
  hasher_finalize :: "'s \<Rightarrow> u8 list"

definition compute_hash :: "'s hasher \<Rightarrow> u8 list \<Rightarrow> u8 list \<Rightarrow> ContentHash" where
  "compute_hash H stdout stderr =
     (let hasher = hasher_new H;
          hasher = hasher_update H hasher stdout;
          hasher = hasher_update H hasher stderr;
          result = hasher_finalize H hasher
      in ContentHash_new result)"

text \<open>
  An incremental hasher of a digest of 32 bytes: finalising after any sequence of updates
  gives the digest of the updates' concatenation.
\<close>

locale sha256_hasher =
  fixes H :: "'s hasher" and digest :: "u8 list \<Rightarrow> u8 list"
  assumes finalize_updates:
      "hasher_finalize H (foldl (hasher_update H) (hasher_new H) chunks) = digest (concat chunks)"
    and digest_length: "length (digest m) = 32"
begin

lemma compute_hash_digest: "compute_hash H stdout stderr = ContentHash (digest (stdout @ stderr))"
  using finalize_updates [of "[stdout, stderr]"]
  by (simp add: compute_hash_def ContentHash_new_def Let_def)

lemma compute_hash_wf: "wf_ContentHash (compute_hash H stdout stderr)"
  by (simp add: compute_hash_digest wf_ContentHash_def digest_length)

lemma compute_hash_eq_iff:
  assumes "inj_on digest {a @ b, c @ d}"
  shows "compute_hash H a b = compute_hash H c d \<longleftrightarrow> a @ b = c @ d"
  by (simp add: compute_hash_digest inj_on_eq_iff [OF assms])

end

text \<open>Two lists commute exactly when both are repetitions of one list.\<close>

lemma append_commute_iff:
  "a @ b = b @ a \<longleftrightarrow> (\<exists>zs m n. a = concat (replicate m zs) \<and> b = concat (replicate n zs))"
proof
  assume "a @ b = b @ a"
  from comm_append_are_replicate [OF this]
  show "\<exists>zs m n. a = concat (replicate m zs) \<and> b = concat (replicate n zs)" by metis
next
  assume "\<exists>zs m n. a = concat (replicate m zs) \<and> b = concat (replicate n zs)"
  then obtain zs m n where "a = concat (replicate m zs)" "b = concat (replicate n zs)" by blast
  moreover have "concat (replicate m zs) @ concat (replicate n zs) = concat (replicate (m + n) zs)" for m n
    by (simp add: replicate_add)
  ultimately show "a @ b = b @ a" by (metis add.commute)
qed

section \<open>Running a block\<close>

definition DEFAULT_TIMEOUT :: duration where
  "DEFAULT_TIMEOUT = from_secs 30"

record BlockRunner =
  backend :: vmm_backend
  vm_config :: VmConfig
  run_timeout :: duration

definition BlockRunner_new :: "vmm_backend \<Rightarrow> VmConfig \<Rightarrow> BlockRunner" where
  "BlockRunner_new B cfg = \<lparr>backend = B, vm_config = cfg, run_timeout = DEFAULT_TIMEOUT\<rparr>"

definition BlockRunner_with_timeout :: "vmm_backend \<Rightarrow> VmConfig \<Rightarrow> duration \<Rightarrow> BlockRunner" where
  "BlockRunner_with_timeout B cfg t = \<lparr>backend = B, vm_config = cfg, run_timeout = t\<rparr>"

definition build_command :: "string \<Rightarrow> string" where
  "build_command block_name = ''echo '' @ [CHR 0x27] @ block_name @ [CHR 0x27]"

text \<open>
  \<open>Instant::elapsed\<close> saturates at zero, as subtraction on durations does. The identifier
  of the record is drawn by \<open>ExecutionRecord::new\<close>, the last step.
\<close>

definition runner_execute ::
  "env \<Rightarrow> 's hasher \<Rightarrow> BlockRunner \<Rightarrow> Block \<Rightarrow> u8 list \<Rightarrow> ExecutionRecord exec" where
  "runner_execute E H r block input =
     (let ihash = compute_hash H input [] in
      try_bind (utc_now E) (\<lambda>started.
      try_bind (instant_now E) (\<lambda>wall_start.
      (let command = build_command (man_name (manifest block)) in
       try_bind (vb_execute_command (backend r) (vm_config r) command (run_timeout r)) (\<lambda>output.
       try_bind (instant_now E) (\<lambda>wall_end.
       (let dur = wall_end - wall_start;
            ohash = compute_hash H (out_stdout output) (out_stderr output)
        in try_bind (new_v4 E) (\<lambda>drawn.
        ret (ExecutionRecord_new drawn (block_id block) (UserId_new ''forge-runner'')
          ihash ohash started dur Succeeded)))))))))"

section \<open>What a run returns\<close>

text \<open>The record of a run whose backend returned \<open>output\<close>, from history \<open>h\<close> to \<open>h'\<close>.\<close>

definition run_record ::
  "env \<Rightarrow> 's hasher \<Rightarrow> Block \<Rightarrow> u8 list \<Rightarrow> ExecutionOutput \<Rightarrow> history \<Rightarrow> history \<Rightarrow> ExecutionRecord" where
  "run_record E H block input output h h' =
     \<lparr>rec_id = ExecutionId (drawn_uuid E h'), rec_block_id = block_id block,
      user_id = UserId ''forge-runner'', input_hash = compute_hash H input [],
      output_hash = compute_hash H (out_stdout output) (out_stderr output),
      started_at = clock E h, rec_duration = monotonic E h' - monotonic E h,
      vm_snapshot_id = None, status = Succeeded\<rparr>"

abbreviation run_output :: "BlockRunner \<Rightarrow> Block \<Rightarrow> ExecutionOutput exec" where
  "run_output r block \<equiv> vb_execute_command (backend r) (vm_config r)
     (build_command (man_name (manifest block))) (run_timeout r)"

lemma runner_execute_cases:
  "runner_execute E H r block input h =
     (case run_output r block h of
        (Inl e, h') \<Rightarrow> (Err e, h')
      | (Inr output, h') \<Rightarrow> (Ok (run_record E H block input output h h'), DrawUuid # h'))"
  by (simp add: runner_execute_def try_bind_def utc_now_def instant_now_def new_v4_def ret_def
      run_record_def ExecutionRecord_new_def ExecutionId_new_def UserId_new_def Let_def
      split: sum.split prod.split)

lemma runner_execute_live:
  assumes "vmm (backend r)"
  shows "live (snd (runner_execute E H r block input h)) \<subseteq> live h"
proof -
  have "live (snd (run_output r block h)) \<subseteq> live h" using assms by (rule vmm.execute_live)
  then show ?thesis
    unfolding runner_execute_cases by (auto split: sum.split prod.split)
qed

section \<open>Quoting\<close>

text \<open>
  How a POSIX shell reads a quoted word: from the opening quote character \<open>q\<close> to the next
  one. The result is the text inside and what follows the closing quote.
\<close>

fun until_quote :: "char \<Rightarrow> string \<Rightarrow> (string \<times> string) option" where
  "until_quote q [] = None"
| "until_quote q (c # cs) =
     (if c = q then Some ([], cs) else map_option (\<lambda>(w, rest). (c # w, rest)) (until_quote q cs))"

definition read_quoted :: "char \<Rightarrow> string \<Rightarrow> (string \<times> string) option" where
  "read_quoted q s = (case s of [] \<Rightarrow> None | c # cs \<Rightarrow> if c = q then until_quote q cs else None)"

lemma until_quote_append: "q \<notin> set w \<Longrightarrow> until_quote q (w @ q # rest) = Some (w, rest)"
  by (induction w) auto

lemma until_quote_Some: "until_quote q s = Some (w, rest) \<Longrightarrow> s = w @ q # rest \<and> q \<notin> set w"
  by (induction s arbitrary: w) (auto split: if_splits)

lemma until_quote_iff: "until_quote q s = Some (w, rest) \<longleftrightarrow> s = w @ q # rest \<and> q \<notin> set w"
  using until_quote_append until_quote_Some by metis

end
