(* ===== verification/Sha256_Reference.thy ===== *)
theory Sha256_Reference
  imports Runner
begin

text \<open>
  SHA-256 as FIPS 180-4 specifies it, as a one-shot function on byte lists, and a hasher
  that collects its input and digests it at the end. The runner takes its hasher from the
  \<open>sha2\<close> crate, which is a parameter of the model; this theory shows that the contract
  \<open>sha256_hasher\<close> the runner relies on can be met. \<open>Sha256_Evaluation\<close> computes the known
  digests against which the repository's own tests compare.
\<close>

unbundle bit_operations_syntax

type_synonym working = "u32 \<times> u32 \<times> u32 \<times> u32 \<times> u32 \<times> u32 \<times> u32 \<times> u32"

definition rotr32 :: "nat \<Rightarrow> u32 \<Rightarrow> u32" where
  "rotr32 n x = (drop_bit n x OR push_bit (32 - n) x)"

text \<open>The fractional parts of the cube roots of the first 64 primes, in 32 bits.\<close>

definition round_constants :: "u32 list" where
  "round_constants =
    [1116352408, 1899447441, 3049323471, 3921009573, 961987163, 1508970993, 2453635748,
     2870763221, 3624381080, 310598401, 607225278, 1426881987, 1925078388, 2162078206,
     2614888103, 3248222580, 3835390401, 4022224774, 264347078, 604807628, 770255983,
     1249150122, 1555081692, 1996064986, 2554220882, 2821834349, 2952996808, 3210313671,
     3336571891, 3584528711, 113926993, 338241895, 666307205, 773529912, 1294757372,
     1396182291, 1695183700, 1986661051, 2177026350, 2456956037, 2730485921, 2820302411,
     3259730800, 3345764771, 3516065817, 3600352804, 4094571909, 275423344, 430227734,
     506948616, 659060556, 883997877, 958139571, 1322822218, 1537002063, 1747873779,
     1955562222, 2024104815, 2227730452, 2361852424, 2428436474, 2756734187, 3204031479,
     3329325298]"

text \<open>The fractional parts of the square roots of the first eight primes.\<close>

definition initial_state :: working where
  "initial_state =
    (1779033703, 3144134277, 1013904242, 2773480762, 1359893119, 2600822924, 528734635,
     1541459225)"

fun round_step :: "u32 \<Rightarrow> u32 \<Rightarrow> working \<Rightarrow> working" where
  "round_step k w (a, b, c, d, e, f, g, h) =
     (let t1 = h + (rotr32 6 e XOR rotr32 11 e XOR rotr32 25 e) + ((e AND f) XOR (NOT e AND g)) + k + w;
          t2 = (rotr32 2 a XOR rotr32 13 a XOR rotr32 22 a)
             + ((a AND b) XOR (a AND c) XOR (b AND c))
      in (t1 + t2, a, b, c, d + t1, e, f, g))"

text \<open>The next word of the message schedule, from the sixteen before it.\<close>

definition next_word :: "u32 \<Rightarrow> u32 list \<Rightarrow> u32" where
  "next_word w ws =
     (let x = ws ! 13; y = ws ! 0
      in (rotr32 17 x XOR rotr32 19 x XOR drop_bit 10 x) + ws ! 8
         + (rotr32 7 y XOR rotr32 18 y XOR drop_bit 3 y) + w)"

fun rounds :: "u32 list \<Rightarrow> u32 list \<Rightarrow> working \<Rightarrow> working" where
  "rounds (k # ks) (w # ws) s = rounds ks (ws @ [next_word w ws]) (round_step k w s)"
| "rounds _ _ s = s"

fun add_working :: "working \<Rightarrow> working \<Rightarrow> working" where
  "add_working (a, b, c, d, e, f, g, h) (a', b', c', d', e', f', g', h') =
     (a + a', b + b', c + c', d + d', e + e', f + f', g + g', h + h')"

fun be_words :: "u8 list \<Rightarrow> u32 list" where
  "be_words (p # q # r # s # bs) =
     (push_bit 24 (ucast p) OR push_bit 16 (ucast q) OR push_bit 8 (ucast r) OR ucast s) # be_words bs"
| "be_words _ = []"

fun digest_blocks :: "u32 list \<Rightarrow> nat \<Rightarrow> working \<Rightarrow> working" where
  "digest_blocks ws 0 s = s"
| "digest_blocks ws (Suc n) s =
     digest_blocks (drop 16 ws) n (add_working s (rounds round_constants (take 16 ws) s))"

definition be_bytes32 :: "u32 \<Rightarrow> u8 list" where
  "be_bytes32 w = [ucast (drop_bit 24 w), ucast (drop_bit 16 w), ucast (drop_bit 8 w), ucast w]"

definition pad_message :: "u8 list \<Rightarrow> u8 list" where
  "pad_message m =
     m @ [0x80] @ replicate ((119 - length m mod 64) mod 64) 0 @
     map (\<lambda>i. of_nat (8 * length m div 256 ^ i)) [7, 6, 5, 4, 3, 2, 1, 0]"

fun working_bytes :: "working \<Rightarrow> u8 list" where
  "working_bytes (a, b, c, d, e, f, g, h) = concat (map be_bytes32 [a, b, c, d, e, f, g, h])"

definition sha256 :: "u8 list \<Rightarrow> u8 list" where
  "sha256 m =
     (let padded = pad_message m
      in working_bytes (digest_blocks (be_words padded) (length padded div 64) initial_state))"

section \<open>The contract\<close>

lemma length_working_bytes: "length (working_bytes s) = 32"
  by (cases s rule: working_bytes.cases) (simp add: be_bytes32_def)

lemma sha256_length: "length (sha256 m) = 32"
  by (simp add: sha256_def Let_def length_working_bytes)

text \<open>Padding fills the last block of 64 bytes.\<close>

lemma pad_message_blocks: "length (pad_message m) mod 64 = 0"
proof -
  define r where "r = length m mod 64"
  have z: "(119 - r) mod 64 = (if r \<le> 55 then 55 - r else 119 - r)"
  proof (cases "r \<le> 55")
    case True
    then have "119 - r = (55 - r) + 64" by simp
    then have "(119 - r) mod 64 = (55 - r) mod 64" by (metis mod_add_self2)
    with True show ?thesis by simp
  qed simp
  have "length m = 64 * (length m div 64) + r" and "r < 64"
    unfolding r_def by simp_all
  then have "length (pad_message m) = 64 * (length m div 64 + (if r \<le> 55 then 1 else 2))"
    unfolding pad_message_def by (simp add: r_def [symmetric] z split: if_split) arith
  then show ?thesis by simp
qed

definition collecting_hasher :: "u8 list hasher" where
  "collecting_hasher = \<lparr>hasher_new = [], hasher_update = (@), hasher_finalize = sha256\<rparr>"

lemma foldl_append_concat: "foldl (@) acc chunks = acc @ concat chunks"
  by (induction chunks arbitrary: acc) simp_all

interpretation fips180: sha256_hasher collecting_hasher sha256
  by unfold_locales (simp_all add: collecting_hasher_def foldl_append_concat sha256_length)

end
