(* ===== verification/Orchestrator.thy ===== *)
theory Orchestrator
  imports Vmm_Backend
begin

text \<open>
  \<open>forge-executor/src/orchestrator.rs\<close>: the registry of active VMs around a backend. The
  operations are given twice: as whole calls (\<open>orch_spawn\<close>, \<open>orch_snapshot\<close>,
  \<open>orch_restore\<close>, \<open>orch_terminate\<close>), and as a step relation in which any number of calls
  are in flight and interleave at the points where the source takes or releases the
  registry's mutex: before, between and after the backend call. They may be cancelled there
  and at every moment of the backend call.
  Whole calls are runs of steps; the invariants are proved for every interleaving.
\<close>

section \<open>Whole calls\<close>

text \<open>\<open>Arc<Mutex<BTreeSet<Uuid>>>\<close> and the world the backend acts on.\<close>

record orchestrator =
  active_vms :: "uuid set"
  world :: history

definition orch_new :: "history \<Rightarrow> orchestrator" where
  "orch_new h = \<lparr>active_vms = {}, world = h\<rparr>"

definition registered :: "orchestrator \<Rightarrow> uuid \<Rightarrow> bool" where
  "registered s i = (i \<in> active_vms s)"

definition register :: "uuid \<Rightarrow> orchestrator \<Rightarrow> orchestrator" where
  "register i s = s\<lparr>active_vms := insert i (active_vms s)\<rparr>"

definition unregister :: "uuid \<Rightarrow> orchestrator \<Rightarrow> orchestrator" where
  "unregister i s = s\<lparr>active_vms := active_vms s - {i}\<rparr>"

text \<open>A call of the backend, \<open>self.backend.f(..).await\<close>.\<close>

definition call_backend :: "'a exec \<Rightarrow> orchestrator \<Rightarrow> (ExecutorError + 'a) \<times> orchestrator" where
  "call_backend m s = (let (r, h') = m (world s) in (r, s\<lparr>world := h'\<rparr>))"

text \<open>
  A call of the backend that is dropped at some moment before its end: the events up to
  that moment have happened, and the children it has started are dropped with it.
\<close>

definition interrupts :: "'a exec \<Rightarrow> orchestrator \<Rightarrow> orchestrator \<Rightarrow> bool" where
  "interrupts m s t =
     (\<exists>new. suffix (new @ world s) (snd (m (world s)))
        \<and> t = s\<lparr>world := map Dropped (spawned_pids new) @ new @ world s\<rparr>)"

text \<open>A handle that goes out of scope drops its child.\<close>

definition drop_handle :: "VmHandle \<Rightarrow> orchestrator \<Rightarrow> orchestrator" where
  "drop_handle v s = s\<lparr>world := Dropped (process v) # world s\<rparr>"

definition orch_spawn ::
  "vmm_backend \<Rightarrow> VmConfig \<Rightarrow> orchestrator \<Rightarrow> (ExecutorError + VmHandle) \<times> orchestrator" where
  "orch_spawn B cfg s =
     (case call_backend (vb_spawn B cfg) s of
        (Inl e, s') \<Rightarrow> (Err e, s')
      | (Inr handle, s') \<Rightarrow> (Ok handle, register (vm_id handle) s'))"

definition orch_snapshot ::
  "vmm_backend \<Rightarrow> VmHandle \<Rightarrow> orchestrator \<Rightarrow> (ExecutorError + VmSnapshotId) \<times> orchestrator" where
  "orch_snapshot B handle s =
     (if \<not> registered s (vm_id handle) then (Err (VmNotFound (vm_id handle)), s)
      else call_backend (vb_snapshot B handle) s)"

definition orch_restore ::
  "vmm_backend \<Rightarrow> VmSnapshotId \<Rightarrow> orchestrator \<Rightarrow> (ExecutorError + VmHandle) \<times> orchestrator" where
  "orch_restore B sid s =
     (case call_backend (vb_restore B sid) s of
        (Inl e, s') \<Rightarrow> (Err e, s')
      | (Inr handle, s') \<Rightarrow> (Ok handle, register (vm_id handle) s'))"

text \<open>The handle is moved in: the early return drops it, the backend consumes it otherwise.\<close>

definition orch_terminate ::
  "vmm_backend \<Rightarrow> VmHandle \<Rightarrow> orchestrator \<Rightarrow> (ExecutorError + unit) \<times> orchestrator" where
  "orch_terminate B handle s =
     (if \<not> registered s (vm_id handle)
      then (Err (VmNotFound (vm_id handle)), drop_handle handle s)
      else (case call_backend (vb_terminate B handle) s of
              (Inl e, s') \<Rightarrow> (Err e, s')
            | (Inr _, s') \<Rightarrow> (Ok (), unregister (vm_id handle) s')))"

definition active_count :: "orchestrator \<Rightarrow> nat" where
  "active_count s = card (active_vms s)"

lemma orch_simps [simp]:
  "active_vms (register i s) = insert i (active_vms s)" "world (register i s) = world s"
  "active_vms (unregister i s) = active_vms s - {i}" "world (unregister i s) = world s"
  "active_vms (drop_handle v s) = active_vms s"
  "world (drop_handle v s) = Dropped (process v) # world s"
  "active_vms (orch_new h) = {}" "world (orch_new h) = h"
  "active_vms (snd (call_backend m s)) = active_vms s"
  "world (snd (call_backend m s)) = snd (m (world s))"
  "fst (call_backend m s) = fst (m (world s))"
  by (simp_all add: register_def unregister_def drop_handle_def orch_new_def call_backend_def
      case_prod_unfold Let_def)

lemma interrupts_effect:
  "interrupts m s t \<Longrightarrow> active_vms t = active_vms s \<and> live (world t) \<subseteq> live (world s)"
  using live_append by (fastforce simp: interrupts_def live_dropped)

section \<open>Interleaved calls\<close>

text \<open>
  A call in flight: a VM was started and is not yet registered; a snapshot or a
  termination passed its check and has not called the backend; a terminated VM is not yet
  unregistered. \<open>held\<close> are the handles clients own. \<open>issued\<close>, \<open>stale\<close> and \<open>not_found\<close>
  record for the invariants which identifiers were handed out, which handles vanished
  without being unregistered, and which calls were answered \<open>VmNotFound\<close>.
\<close>

datatype call =
    Registering VmHandle
  | Snapshotting VmHandle
  | Terminating VmHandle
  | Unregistering uuid

record system =
  orch :: orchestrator
  held :: "VmHandle multiset"
  calls :: "call multiset"
  issued :: "uuid list"
  stale :: "uuid multiset"
  not_found :: "uuid list"

definition system_new :: "history \<Rightarrow> system" where
  "system_new h = \<lparr>orch = orch_new h, held = {#}, calls = {#}, issued = [], stale = {#}, not_found = []\<rparr>"

text \<open>The VM a successful \<open>spawn\<close> or \<open>restore\<close> of the backend returns.\<close>

definition starts :: "vmm_backend \<Rightarrow> VmHandle exec \<Rightarrow> bool" where
  "starts B m = ((\<exists>cfg. m = vb_spawn B cfg) \<or> (\<exists>sid. m = vb_restore B sid))"

text \<open>The steps of the calls in flight.\<close>

inductive call_step :: "vmm_backend \<Rightarrow> system \<Rightarrow> system \<Rightarrow> bool" for B where
  register: "Registering v \<in># calls s \<Longrightarrow>
    call_step B s (s\<lparr>orch := register (vm_id v) (orch s), calls := calls s - {#Registering v#},
      held := add_mset v (held s)\<rparr>)"
| snapshot_call: "Snapshotting v \<in># calls s \<Longrightarrow> call_backend (vb_snapshot B v) (orch s) = (r, t) \<Longrightarrow>
    call_step B s (s\<lparr>orch := t, calls := calls s - {#Snapshotting v#}, held := add_mset v (held s)\<rparr>)"
| terminate_Ok: "Terminating v \<in># calls s \<Longrightarrow> call_backend (vb_terminate B v) (orch s) = (Ok u, t) \<Longrightarrow>
    call_step B s (s\<lparr>orch := t, calls := add_mset (Unregistering (vm_id v)) (calls s - {#Terminating v#})\<rparr>)"
| terminate_Err: "Terminating v \<in># calls s \<Longrightarrow> call_backend (vb_terminate B v) (orch s) = (Err e, t) \<Longrightarrow>
    call_step B s (s\<lparr>orch := t, calls := calls s - {#Terminating v#}, stale := add_mset (vm_id v) (stale s)\<rparr>)"
| unregister: "Unregistering i \<in># calls s \<Longrightarrow>
    call_step B s (s\<lparr>orch := unregister i (orch s), calls := calls s - {#Unregistering i#}\<rparr>)"

text \<open>
  All steps: a call in flight moves, a client starts a call or drops a handle, or a client
  cancels a call by dropping its future where it awaits the registry's mutex or at any
  moment of its backend call. A cancelled \<open>spawn\<close>, \<open>restore\<close> or \<open>terminate\<close> drops the child
  it has started or the handle it owns; a cancelled \<open>snapshot\<close> only borrowed its handle.
\<close>

inductive orch_step :: "vmm_backend \<Rightarrow> system \<Rightarrow> system \<Rightarrow> bool" for B where
  call: "call_step B s t \<Longrightarrow> orch_step B s t"
| start_Err: "starts B m \<Longrightarrow> call_backend m (orch s) = (Err e, t) \<Longrightarrow> orch_step B s (s\<lparr>orch := t\<rparr>)"
| start_Ok: "starts B m \<Longrightarrow> call_backend m (orch s) = (Ok v, t) \<Longrightarrow>
    orch_step B s (s\<lparr>orch := t, calls := add_mset (Registering v) (calls s), issued := vm_id v # issued s\<rparr>)"
| snapshot_check: "v \<in># held s \<Longrightarrow> registered (orch s) (vm_id v) \<Longrightarrow>
    orch_step B s (s\<lparr>held := held s - {#v#}, calls := add_mset (Snapshotting v) (calls s)\<rparr>)"
| snapshot_reject: "v \<in># held s \<Longrightarrow> \<not> registered (orch s) (vm_id v) \<Longrightarrow>
    orch_step B s (s\<lparr>not_found := vm_id v # not_found s\<rparr>)"
| terminate_check: "v \<in># held s \<Longrightarrow> registered (orch s) (vm_id v) \<Longrightarrow>
    orch_step B s (s\<lparr>held := held s - {#v#}, calls := add_mset (Terminating v) (calls s)\<rparr>)"
| terminate_reject: "v \<in># held s \<Longrightarrow> \<not> registered (orch s) (vm_id v) \<Longrightarrow>
    orch_step B s (s\<lparr>orch := drop_handle v (orch s), held := held s - {#v#},
      not_found := vm_id v # not_found s\<rparr>)"
| client_drop: "v \<in># held s \<Longrightarrow>
    orch_step B s (s\<lparr>orch := drop_handle v (orch s), held := held s - {#v#},
      stale := add_mset (vm_id v) (stale s)\<rparr>)"
| cancel_starting: "starts B m \<Longrightarrow> interrupts m (orch s) t \<Longrightarrow> orch_step B s (s\<lparr>orch := t\<rparr>)"
| cancel_start: "Registering v \<in># calls s \<Longrightarrow>
    orch_step B s (s\<lparr>orch := drop_handle v (orch s), calls := calls s - {#Registering v#}\<rparr>)"
| cancel_snapshot: "Snapshotting v \<in># calls s \<Longrightarrow> interrupts (vb_snapshot B v) (orch s) t \<Longrightarrow>
    orch_step B s (s\<lparr>orch := t, calls := calls s - {#Snapshotting v#}, held := add_mset v (held s)\<rparr>)"
| cancel_terminate: "Terminating v \<in># calls s \<Longrightarrow> interrupts (vb_terminate B v) (orch s) t \<Longrightarrow>
    orch_step B s (s\<lparr>orch := drop_handle v t, calls := calls s - {#Terminating v#},
      stale := add_mset (vm_id v) (stale s)\<rparr>)"
| cancel_unregister: "Unregistering i \<in># calls s \<Longrightarrow>
    orch_step B s (s\<lparr>calls := calls s - {#Unregistering i#}, stale := add_mset i (stale s)\<rparr>)"

lemmas call_intros = call_step.intros [THEN orch_step.call]

abbreviation orch_run :: "vmm_backend \<Rightarrow> system \<Rightarrow> system \<Rightarrow> bool" where
  "orch_run B \<equiv> (orch_step B)\<^sup>*\<^sup>*"

section \<open>Invariants of every interleaving\<close>

fun call_handles :: "call \<Rightarrow> VmHandle set" where
  "call_handles (Registering v) = {v}"
| "call_handles (Snapshotting v) = {v}"
| "call_handles (Terminating v) = {v}"
| "call_handles (Unregistering i) = {}"

fun call_id :: "call \<Rightarrow> uuid" where
  "call_id (Registering v) = vm_id v"
| "call_id (Snapshotting v) = vm_id v"
| "call_id (Terminating v) = vm_id v"
| "call_id (Unregistering i) = i"

fun is_registered_call :: "call \<Rightarrow> bool" where
  "is_registered_call (Registering v) = False"
| "is_registered_call _ = True"

text \<open>The handles someone holds; the identifiers in use; those that should be registered.\<close>

definition owned :: "system \<Rightarrow> VmHandle set" where
  "owned s = set_mset (held s) \<union> (\<Union>c \<in> set_mset (calls s). call_handles c)"

definition used_ids :: "system \<Rightarrow> uuid multiset" where
  "used_ids s = image_mset vm_id (held s) + image_mset call_id (calls s) + stale s"

definition tracked_ids :: "system \<Rightarrow> uuid multiset" where
  "tracked_ids s = image_mset vm_id (held s)
     + image_mset call_id (filter_mset is_registered_call (calls s)) + stale s"

definition ids_issued :: "system \<Rightarrow> bool" where
  "ids_issued s = (used_ids s \<subseteq># mset (issued s))"

definition no_orphan :: "pid set \<Rightarrow> system \<Rightarrow> bool" where
  "no_orphan L s = (live (world (orch s)) \<subseteq> L \<union> process ` owned s)"

definition registry_exact :: "system \<Rightarrow> bool" where
  "registry_exact s = (active_vms (orch s) = set_mset (tracked_ids s) \<and> not_found s = [])"

inductive_cases orch_stepE: "orch_step B s t"
inductive_cases call_stepE: "call_step B s t"

lemma call_backend_Pair:
  "call_backend m s = (r, t) \<longleftrightarrow> (\<exists>h. m (world s) = (r, h) \<and> t = s\<lparr>world := h\<rparr>)"
  by (auto simp: call_backend_def case_prod_unfold Let_def prod_eq_iff)

lemma ids_issued_step: "orch_step B s t \<Longrightarrow> ids_issued s \<Longrightarrow> ids_issued t"
  by (erule orch_stepE, erule call_stepE)
    (auto simp: ids_issued_def used_ids_def add.assoc dest!: mset_pick dest: subset_mset_pick)

lemma tracked_used: "tracked_ids s \<subseteq># used_ids s"
  unfolding tracked_ids_def used_ids_def by (simp add: image_mset_subseteq_mono)

text \<open>With distinct identifiers, nothing in use is in use twice.\<close>

lemma used_once:
  assumes "ids_issued s" and "distinct (issued s)"
  shows "count (used_ids s) i \<le> 1"
proof -
  have "count (used_ids s) i \<le> count (mset (issued s)) i"
    using assms(1) by (simp add: ids_issued_def mset_subset_eq_count)
  also have "\<dots> \<le> 1" using assms(2) by (simp add: distinct_count_atmost_1)
  finally show ?thesis .
qed

lemma tracked_once:
  "ids_issued s \<Longrightarrow> distinct (issued s) \<Longrightarrow> count (tracked_ids s) i \<le> 1"
  using used_once tracked_used by (meson le_trans mset_subset_eq_count)

text \<open>
  What a step does to the registry: nothing, one registration, one removal, or a call was
  refused because a held handle is not registered.
\<close>

definition registry_move :: "system \<Rightarrow> system \<Rightarrow> bool" where
  "registry_move s t = (not_found t = not_found s \<and>
     (tracked_ids t = tracked_ids s \<and> active_vms (orch t) = active_vms (orch s)
      \<or> (\<exists>i. tracked_ids t = add_mset i (tracked_ids s)
           \<and> active_vms (orch t) = insert i (active_vms (orch s)))
      \<or> (\<exists>i. tracked_ids s = add_mset i (tracked_ids t)
           \<and> active_vms (orch t) = active_vms (orch s) - {i})))"

lemma call_registry_move:
  assumes "call_step B s t"
  shows "registry_move s t"
  using assms
proof cases
  case (register v)
  then obtain N where N: "calls s = add_mset (Registering v) N" by (blast dest: mset_pick)
  show ?thesis unfolding registry_move_def using register(1) N
    by (intro conjI disjI2 disjI1 exI [of _ "vm_id v"]) (simp_all add: tracked_ids_def)
next
  case (unregister i)
  then obtain N where N: "calls s = add_mset (Unregistering i) N" by (blast dest: mset_pick)
  show ?thesis unfolding registry_move_def using unregister(1) N
    by (intro conjI disjI2 exI [of _ i]) (simp_all add: tracked_ids_def)
qed (auto simp: registry_move_def tracked_ids_def call_backend_Pair dest!: mset_pick)

lemma step_registry_move:
  assumes "orch_step B s t" and "\<forall>v \<in># held s. registered (orch s) (vm_id v)"
  shows "registry_move s t"
  using assms(1)
proof cases
  case call
  then show ?thesis by (rule call_registry_move)
qed (use assms(2) in \<open>auto simp: registry_move_def tracked_ids_def call_backend_Pair dest!: mset_pick interrupts_effect\<close>)

lemma registry_exact_step:
  assumes "orch_step B s t" and "ids_issued s" and "distinct (issued s)" and "registry_exact s"
  shows "registry_exact t"
proof -
  have held: "vm_id v \<in># tracked_ids s" if "v \<in># held s" for v
    using that by (simp add: tracked_ids_def)
  have "registry_move s t"
    using held assms(4) by (intro step_registry_move [OF assms(1)]) (simp add: registered_def registry_exact_def)
  moreover have "i \<notin># M" if "tracked_ids s = add_mset i M" for i M
    using tracked_once [OF assms(2,3), of i] that by (simp add: not_in_iff)
  ultimately show ?thesis using assms(4) by (auto simp: registry_move_def registry_exact_def)
qed

lemma issued_step: "orch_step B s t \<Longrightarrow> distinct (issued t) \<Longrightarrow> distinct (issued s)"
  by (erule orch_stepE, erule call_stepE) auto

text \<open>Ending a VM's process pays for giving up its handle.\<close>

lemma no_orphan_end:
  assumes "no_orphan L s" and "live (world (orch t)) \<subseteq> live (world (orch s)) - {process v}"
    and "owned s \<subseteq> insert v (owned t)"
  shows "no_orphan L t"
  using assms unfolding no_orphan_def by blast

lemma no_orphan_keep:
  assumes "no_orphan L s" and "live (world (orch t)) \<subseteq> live (world (orch s))" and "owned s \<subseteq> owned t"
  shows "no_orphan L t"
  using assms unfolding no_orphan_def by blast

context vmm
begin

lemma starts_Ok: "starts B m \<Longrightarrow> m h = (Ok v, h') \<Longrightarrow> live h' = insert (process v) (live h)"
  by (auto simp: starts_def dest: spawn_Ok restore_Ok)

lemma starts_Err: "starts B m \<Longrightarrow> m h = (Err e, h') \<Longrightarrow> live h' \<subseteq> live h"
  by (auto simp: starts_def dest!: spawn_Err restore_Err)

lemma snapshot_Pair: "vb_snapshot B v h = (r, h') \<Longrightarrow> live h' = live h"
  using snapshot_live [of v h] by simp

lemma terminate_Pair: "vb_terminate B v h = (r, h') \<Longrightarrow> live h' = live h - {process v}"
  using terminate_live [of v h] by simp

lemma no_orphan_call:
  assumes "call_step B s t" and "no_orphan L s"
  shows "no_orphan L t"
  using assms(1)
proof cases
  case (terminate_Ok v r u)
  then obtain N where N: "calls s = add_mset (Terminating v) N" by (blast dest: mset_pick)
  have "live (world u) = live (world (orch s)) - {process v}"
    using terminate_Ok(3) by (auto simp: call_backend_Pair dest: terminate_Pair)
  with N terminate_Ok(1) show ?thesis
    by (intro no_orphan_end [OF assms(2), where v = v]) (auto simp: owned_def)
next
  case (terminate_Err v e u)
  then obtain N where N: "calls s = add_mset (Terminating v) N" by (blast dest: mset_pick)
  have "live (world u) = live (world (orch s)) - {process v}"
    using terminate_Err(3) by (auto simp: call_backend_Pair dest: terminate_Pair)
  with N terminate_Err(1) show ?thesis
    by (intro no_orphan_end [OF assms(2), where v = v]) (auto simp: owned_def)
qed (auto intro!: no_orphan_keep [OF assms(2)] simp: owned_def call_backend_Pair
    dest: snapshot_Pair dest!: mset_pick)

lemma no_orphan_step:
  assumes "orch_step B s t" and "no_orphan L s"
  shows "no_orphan L t"
  using assms(1)
proof cases
  case call
  then show ?thesis using assms(2) by (rule no_orphan_call)
next
  case (start_Ok m v u)
  then have "live (world u) = insert (process v) (live (world (orch s)))"
    by (auto simp: call_backend_Pair dest: starts_Ok)
  with start_Ok(1) assms(2) show ?thesis by (auto simp: no_orphan_def owned_def)
next
  case (terminate_reject v)
  then obtain N where "held s = add_mset v N" by (blast dest: mset_pick)
  with terminate_reject(1) show ?thesis
    by (intro no_orphan_end [OF assms(2), where v = v]) (auto simp: owned_def)
next
  case (client_drop v)
  then obtain N where "held s = add_mset v N" by (blast dest: mset_pick)
  with client_drop(1) show ?thesis
    by (intro no_orphan_end [OF assms(2), where v = v]) (auto simp: owned_def)
next
  case (cancel_start v)
  then obtain N where "calls s = add_mset (Registering v) N" by (blast dest: mset_pick)
  with cancel_start(1) show ?thesis
    by (intro no_orphan_end [OF assms(2), where v = v]) (auto simp: owned_def)
next
  case (cancel_terminate v u)
  then obtain N where "calls s = add_mset (Terminating v) N" by (blast dest: mset_pick)
  with cancel_terminate(1) interrupts_effect [OF cancel_terminate(3)] show ?thesis
    by (intro no_orphan_end [OF assms(2), where v = v]) (auto simp: owned_def)
qed (auto intro!: no_orphan_keep [OF assms(2)] simp: owned_def call_backend_Pair
    dest: starts_Err [THEN subsetD] dest!: mset_pick interrupts_effect)

lemma no_orphan_run: "orch_run B s t \<Longrightarrow> no_orphan L s \<Longrightarrow> no_orphan L t"
  by (induction rule: rtranclp_induct) (auto dest: no_orphan_step)

end

lemma run_invariants:
  assumes "orch_run B (system_new h) s"
  shows "ids_issued s \<and> (distinct (issued s) \<longrightarrow> registry_exact s)"
  using assms
proof (induction rule: rtranclp_induct)
  case base
  show ?case by (simp add: system_new_def ids_issued_def used_ids_def registry_exact_def tracked_ids_def)
next
  case (step s t)
  then show ?case by (blast intro: ids_issued_step registry_exact_step dest: issued_step)
qed

text \<open>When no call is in flight, the registry counts the held handles and the stale ones.\<close>

lemma active_count_quiescent:
  assumes "ids_issued s" and "distinct (issued s)" and "registry_exact s" and "calls s = {#}"
  shows "active_count (orch s) = size (held s) + size (stale s)"
  using assms(3,4) card_set_mset_once [OF tracked_once [OF assms(1,2)]]
  by (simp add: active_count_def registry_exact_def tracked_ids_def)

section \<open>Whole calls are runs\<close>

lemma run2: "orch_step B s t \<Longrightarrow> orch_step B t u \<Longrightarrow> orch_run B s u"
  by (meson converse_rtranclp_into_rtranclp r_into_rtranclp)

lemma start_run:
  assumes "starts B m"
  shows "\<exists>s'. orch_run B s s' \<and> calls s' = calls s \<and> stale s' = stale s \<and>
    (case call_backend m (orch s) of
       (Inl e, t) \<Rightarrow> orch s' = t \<and> held s' = held s \<and> issued s' = issued s
     | (Inr v, t) \<Rightarrow> orch s' = register (vm_id v) t \<and> held s' = add_mset v (held s)
         \<and> issued s' = vm_id v # issued s)"
proof -
  obtain r t where call: "call_backend m (orch s) = (r, t)" by fastforce
  show ?thesis
  proof (cases r)
    case (Inl e)
    have "orch_step B s (s\<lparr>orch := t\<rparr>)"
      using orch_step.start_Err [OF assms] call Inl by blast
    with call Inl show ?thesis by (intro exI [of _ "s\<lparr>orch := t\<rparr>"]) auto
  next
    case (Inr v)
    let ?s1 = "s\<lparr>orch := t, calls := add_mset (Registering v) (calls s), issued := vm_id v # issued s\<rparr>"
    have a: "orch_step B s ?s1" using orch_step.start_Ok [OF assms] call Inr by blast
    have b: "orch_step B ?s1 (?s1\<lparr>orch := register (vm_id v) (orch ?s1),
        calls := calls ?s1 - {#Registering v#}, held := add_mset v (held ?s1)\<rparr>)"
      by (rule call_intros(1)) simp
    show ?thesis by (intro exI conjI, rule run2 [OF a b]) (simp_all add: call Inr)
  qed
qed

lemma starts_calls: "starts B (vb_spawn B cfg)" "starts B (vb_restore B sid)"
  by (auto simp: starts_def)

lemma spawn_run:
  "\<exists>s'. orch_run B s s' \<and> calls s' = calls s \<and> orch s' = snd (orch_spawn B cfg (orch s))
     \<and> held s' = (case fst (orch_spawn B cfg (orch s)) of Inl e \<Rightarrow> held s | Inr v \<Rightarrow> add_mset v (held s))"
  using start_run [of B "vb_spawn B cfg" s, OF starts_calls(1)]
  by (cases "call_backend (vb_spawn B cfg) (orch s)"; cases "fst (call_backend (vb_spawn B cfg) (orch s))")
    (auto simp: orch_spawn_def)

lemma restore_run:
  "\<exists>s'. orch_run B s s' \<and> calls s' = calls s \<and> orch s' = snd (orch_restore B sid (orch s))
     \<and> held s' = (case fst (orch_restore B sid (orch s)) of Inl e \<Rightarrow> held s | Inr v \<Rightarrow> add_mset v (held s))"
  using start_run [of B "vb_restore B sid" s, OF starts_calls(2)]
  by (cases "call_backend (vb_restore B sid) (orch s)"; cases "fst (call_backend (vb_restore B sid) (orch s))")
    (auto simp: orch_restore_def)

lemma snapshot_run:
  assumes "v \<in># held s"
  shows "\<exists>s'. orch_run B s s' \<and> calls s' = calls s \<and> orch s' = snd (orch_snapshot B v (orch s))
    \<and> held s' = held s"
proof (cases "registered (orch s) (vm_id v)")
  case True
  obtain r t where call: "call_backend (vb_snapshot B v) (orch s) = (r, t)" by fastforce
  let ?s1 = "s\<lparr>held := held s - {#v#}, calls := add_mset (Snapshotting v) (calls s)\<rparr>"
  have a: "orch_step B s ?s1" using orch_step.snapshot_check [OF assms True] .
  have b: "orch_step B ?s1 (?s1\<lparr>orch := t, calls := calls ?s1 - {#Snapshotting v#},
      held := add_mset v (held ?s1)\<rparr>)"
    by (rule call_intros(2) [where r = r]) (simp_all add: call)
  show ?thesis
    by (intro exI conjI, rule run2 [OF a b]) (simp_all add: orch_snapshot_def call True assms)
next
  case False
  with orch_step.snapshot_reject [OF assms False, of B] show ?thesis
    by (intro exI [of _ "s\<lparr>not_found := vm_id v # not_found s\<rparr>"]) (auto simp: orch_snapshot_def)
qed

lemma terminate_run:
  assumes "v \<in># held s"
  shows "\<exists>s'. orch_run B s s' \<and> calls s' = calls s \<and> orch s' = snd (orch_terminate B v (orch s))
    \<and> held s' = held s - {#v#}"
proof (cases "registered (orch s) (vm_id v)")
  case True
  obtain r t where call: "call_backend (vb_terminate B v) (orch s) = (r, t)" by fastforce
  let ?s1 = "s\<lparr>held := held s - {#v#}, calls := add_mset (Terminating v) (calls s)\<rparr>"
  have check: "orch_step B s ?s1" using orch_step.terminate_check [OF assms True] .
  show ?thesis
  proof (cases r)
    case (Inl e)
    have b: "orch_step B ?s1 (?s1\<lparr>orch := t, calls := calls ?s1 - {#Terminating v#},
        stale := add_mset (vm_id v) (stale ?s1)\<rparr>)"
      by (rule call_intros(4)) (simp_all add: call Inl)
    show ?thesis
      by (intro exI conjI, rule run2 [OF check b]) (simp_all add: orch_terminate_def call True Inl)
  next
    case (Inr u)
    let ?s2 = "?s1\<lparr>orch := t, calls := add_mset (Unregistering (vm_id v)) (calls ?s1 - {#Terminating v#})\<rparr>"
    have b: "orch_step B ?s1 ?s2"
      by (rule call_intros(3)) (simp_all add: call Inr)
    have c: "orch_step B ?s2 (?s2\<lparr>orch := unregister (vm_id v) (orch ?s2),
        calls := calls ?s2 - {#Unregistering (vm_id v)#}\<rparr>)"
      by (rule call_intros(5)) simp
    show ?thesis
      by (intro exI conjI, rule converse_rtranclp_into_rtranclp [OF check run2 [OF b c]])
        (simp_all add: orch_terminate_def call True Inr)
  qed
next
  case False
  with orch_step.terminate_reject [OF assms False, of B] show ?thesis
    by (intro exI [of _ "s\<lparr>orch := drop_handle v (orch s), held := held s - {#v#},
      not_found := vm_id v # not_found s\<rparr>"]) (auto simp: orch_terminate_def)
qed

section \<open>Calls in flight get done\<close>

text \<open>The steps a call still has to make: a termination calls the backend and unregisters.\<close>

fun call_weight :: "call \<Rightarrow> nat" where
  "call_weight (Terminating v) = 2"
| "call_weight _ = 1"

definition work :: "system \<Rightarrow> nat" where
  "work s = sum_mset (image_mset call_weight (calls s))"

lemma work_zero: "work s = 0 \<longleftrightarrow> calls s = {#}"
proof -
  have "0 < call_weight c" for c by (cases c) simp_all
  then show ?thesis by (cases "calls s") (auto simp: work_def)
qed

lemma work_bound: "work s \<le> 2 * size (calls s)"
proof -
  have "sum_mset (image_mset call_weight N) \<le> 2 * size N" for N
  proof (induction N)
    case (add c N)
    then show ?case by (cases c) simp_all
  qed simp
  then show ?thesis by (simp add: work_def)
qed

lemma call_step_work: "call_step B s t \<Longrightarrow> work t < work s"
  by (erule call_stepE) (auto simp: work_def dest!: mset_pick)

lemma call_step_exists:
  assumes "c \<in># calls s"
  shows "\<exists>t. call_step B s t"
proof (cases c)
  case (Terminating v)
  obtain r u where "call_backend (vb_terminate B v) (orch s) = (r, u)" by fastforce
  with assms Terminating show ?thesis by (cases r) (blast intro: call_step.intros)+
next
  case (Snapshotting v)
  obtain r u where "call_backend (vb_snapshot B v) (orch s) = (r, u)" by fastforce
  with assms Snapshotting show ?thesis by (blast intro: call_step.intros)
qed (use assms in \<open>blast intro: call_step.intros\<close>)+

interpretation orch_calls: draining "call_step B" "\<lambda>s. True" work for B
proof
  show "\<exists>t. call_step B s t" if "0 < work s" for B s
    using that work_zero [of s] by (auto intro: call_step_exists)
qed (simp_all add: call_step_work)

lemma call_run_is_orch_run: "(call_step B)\<^sup>*\<^sup>* s t \<Longrightarrow> orch_run B s t"
  by (rule rtranclp_mono [THEN predicate2D]) (auto intro: orch_step.call)

lemma call_run_issued: "(call_step B)\<^sup>*\<^sup>* s t \<Longrightarrow> issued t = issued s"
  by (induction rule: rtranclp_induct) (auto elim: call_stepE)

end
