(* ===== verification/Executor_Properties.thy ===== *)
theory Executor_Properties
  imports Backend_Facts Simulation Sha256_Reference Orchestrator
begin

text \<open>
  The properties of the executor crate: the Firecracker backend, the runner and the
  orchestrator. Most hold for every environment, that is, for every behaviour of the
  operating system, of Firecracker and of the clock; the instances use the simulated world
  and the reference hash and base64 engine.
\<close>

section \<open>The Firecracker backend\<close>


text \<open>
  C24. Restoring a snapshot: on success one new process runs and one load request naming
  the snapshot's two files was sent to it; on failure no new process runs, at most that
  request was sent, and the error is \<open>RestoreFailed\<close> for this snapshot or an I/O error.
\<close>

theorem restore_outcome:
  "case fc_restore E b sid h of
     (Inl e, h') \<Rightarrow> live h' \<subseteq> live h \<and> restore_error (snapshot_uuid sid) e
       \<and> (requests h' = requests h
          \<or> (\<exists>vm. requests h' = requests h @ [load_request E b sid (fc_socket_path E b vm)]))
   | (Inr v, h') \<Rightarrow> live h' = insert (process v) (live h)
       \<and> requests h' = requests h @ [load_request E b sid (socket_path v)]
       \<and> socket_path v = fc_socket_path E b (vm_id v)"
  using triple_fc_restore [of "live h" "requests h" E b sid] raises_fc_restore [of sid E b]
  by (auto split: prod.split sum.split dest: tripleD_Err tripleD_Ok raisesD)


text \<open>
  C13. A failed snapshot never leaves the VM paused as far as the backend can help it: when
  the API socket accepts requests, either nothing or only the pause request was sent (and
  the call failed), or the pause, the creation and then the resume request were sent, also
  when the creation failed; and an identifier is returned only for the snapshot created.
\<close>

theorem snapshot_resumes:
  assumes "api_reachable E (socket_path v)"
  shows "\<exists>rs sid. requests (snd (fc_snapshot E b v h)) = requests h @ rs
    \<and> (rs = [] \<or> rs = [vm_state_request E (socket_path v) ''Paused'']
       \<or> rs = [vm_state_request E (socket_path v) ''Paused'', create_request E b (socket_path v) sid,
               vm_state_request E (socket_path v) ''Resumed''])
    \<and> (length rs < 3 \<longrightarrow> \<not> is_ok (fst (fc_snapshot E b v h)))
    \<and> (\<forall>i. fst (fc_snapshot E b v h) = Ok i \<longrightarrow> i = sid)"
  by (rule snapshot_requests [OF assms])

definition sim_handle :: VmHandle where
  "sim_handle = VmHandle_new 0 1 ''/tmp/forge-sockets/vm.sock'' 7"

theorem snapshot_resumes_witness:
  "\<exists>rs sid. requests (snd (fc_snapshot (sim_env []) with_defaults sim_handle [])) = rs
    \<and> (rs = [] \<or> rs = [vm_state_request (sim_env []) (socket_path sim_handle) ''Paused'']
       \<or> rs = [vm_state_request (sim_env []) (socket_path sim_handle) ''Paused'',
               create_request (sim_env []) with_defaults (socket_path sim_handle) sid,
               vm_state_request (sim_env []) (socket_path sim_handle) ''Resumed''])"
proof -
  have "api_reachable (sim_env []) (socket_path sim_handle)" by (simp add: api_reachable_def)
  from snapshot_resumes [OF this, of with_defaults "[]"] show ?thesis by auto
qed

text \<open>
  A snapshot and its restoration speak of the same two files, and no other snapshot has
  either of them: restoring loads what the creation of this snapshot wrote.
\<close>

lemma snapshot_files_apart:
  assumes "inj (fmt_uuid E)" and "\<And>u. \<not> is_absolute (fmt_uuid E u)" and "\<And>u. fmt_uuid E u \<noteq> []"
  shows "snapshot_mem_path E b sid \<noteq> snapshot_state_path E b sid'"
    and "snapshot_mem_path E b sid = snapshot_mem_path E b sid' \<longleftrightarrow> sid = sid'"
    and "snapshot_state_path E b sid = snapshot_state_path E b sid' \<longleftrightarrow> sid = sid'"
proof -
  have rel: "\<not> is_absolute (VmSnapshotId_fmt (fmt_uuid E) s @ ext)" for s ext
  proof (cases s)
    case (VmSnapshotId u)
    with assms(2,3) [of u] show ?thesis by (cases "fmt_uuid E u") (simp_all add: is_absolute_def)
  qed
  have id: "VmSnapshotId_fmt (fmt_uuid E) sid = VmSnapshotId_fmt (fmt_uuid E) sid' \<longleftrightarrow> sid = sid'"
    using assms(1) by (cases sid; cases sid') (simp add: inj_eq)
  have "x @ ''.mem'' \<noteq> y @ ''.state''" for x y :: string
  proof
    assume "x @ ''.mem'' = y @ ''.state''"
    then have "last (x @ ''.mem'') = last (y @ ''.state'')" by simp
    then show False by simp
  qed
  then show "snapshot_mem_path E b sid \<noteq> snapshot_state_path E b sid'"
    unfolding snapshot_mem_path_def snapshot_state_path_def path_join_inject [OF rel rel] .
  show "snapshot_mem_path E b sid = snapshot_mem_path E b sid' \<longleftrightarrow> sid = sid'"
    "snapshot_state_path E b sid = snapshot_state_path E b sid' \<longleftrightarrow> sid = sid'"
    unfolding snapshot_mem_path_def snapshot_state_path_def path_join_inject [OF rel rel] by (simp_all add: id)
qed

lemma snapshot_then_restore:
  assumes "api_reachable E (socket_path v)" and "fc_snapshot E b v h = (Ok sid, h1)" and "fc_restore E b sid h2 = (Ok w, h3)"
  shows "requests h1 = requests h @ [vm_state_request E (socket_path v) ''Paused'', create_request E b (socket_path v) sid,
      vm_state_request E (socket_path v) ''Resumed'']"
    and "requests h3 = requests h2 @ [load_request E b sid (socket_path w)]"
proof -
  show "requests h1 = requests h @ [vm_state_request E (socket_path v) ''Paused'', create_request E b (socket_path v) sid,
      vm_state_request E (socket_path v) ''Resumed'']"
    using snapshot_requests [OF assms(1), of b h] assms(2) by auto
  show "requests h3 = requests h2 @ [load_request E b sid (socket_path w)]"
    using tripleD_Ok [OF triple_fc_restore [of "live h2" "requests h2" E b sid] _ assms(3)] by simp
qed

text \<open>
  The errors of the remaining methods are the documented ones: \<open>snapshot\<close> fails with
  \<open>SnapshotFailed\<close> for the VM it was called on or an I/O error, \<open>terminate\<close> with an I/O
  error, \<open>health_check\<close> because KVM or the binary is missing. No \<open>ApiError\<close> and no
  \<open>VmNotFound\<close> leaves the backend.
\<close>

lemma backend_errors:
  "raises (snapshot_error (vm_id v)) (fc_snapshot E b v) \<and> raises (\<lambda>e. \<exists>msg. e = Io msg) (fc_terminate E b v)
   \<and> raises health_error (fc_health_check E b)"
  by (intro conjI raises_fc_snapshot raises_fc_terminate raises_fc_health_check)

text \<open>
  C31. A VM that does not finish in time makes \<open>execute_command\<close> fail, and not with an I/O
  error: in a world whose directories can be created and whose console never ends, every
  call returns an error and none of them is \<open>Io\<close>.
\<close>

theorem timeout_is_not_io:
  assumes "\<And>h p. read_result E h p timeout = TimedOut" and "\<And>h p. mkdir_error E h p = None"
  shows "\<exists>e. fst (fc_execute_command E b cfg command timeout h) = Err e \<and> (\<forall>msg. e \<noteq> Io msg)"
proof -
  obtain r h' where call: "fc_execute_command E b cfg command timeout h = (r, h')" by fastforce
  have "raises (\<lambda>e. \<forall>msg. e \<noteq> Io msg) (fc_execute_command E b cfg command timeout)"
    by (rule raises_fc_execute_command) (simp_all add: assms)
  moreover have "r \<noteq> Ok out" for out
  proof
    assume "r = Ok out"
    with call have "fc_execute_command E b cfg command timeout h = (Ok out, h')" by simp
    from tripleD_Ok [OF execute_command_output TrueI this] show False by (simp add: assms)
  qed
  ultimately show ?thesis using call by (cases r) (auto dest: raisesD)
qed

definition hanging_env :: env where
  "hanging_env = (sim_env [])\<lparr>read_result := \<lambda>_ _ _. TimedOut\<rparr>"

theorem timeout_is_not_io_witness:
  "\<exists>e. fst (fc_execute_command hanging_env with_defaults (VmConfig_new ''/k'' ''/r'') ''true'' (from_secs 1) [])
       = Err e \<and> (\<forall>msg. e \<noteq> Io msg)"
  by (rule timeout_is_not_io) (simp_all add: hanging_env_def)



text \<open>
  Different VMs get different API sockets: if the text of a UUID determines it and
  does not start with a slash, two VMs share a socket path only if they share the UUID.
\<close>

lemma socket_paths_distinct:
  assumes "inj (fmt_uuid E)" and "\<And>u. \<not> is_absolute (fmt_uuid E u)" and "\<And>u. fmt_uuid E u \<noteq> []"
  shows "fc_socket_path E b v = fc_socket_path E b w \<longleftrightarrow> v = w"
proof -
  have rel: "\<not> is_absolute (fmt_uuid E u @ ''.sock'')" for u
    using assms(2,3) [of u] by (cases "fmt_uuid E u") (simp_all add: is_absolute_def)
  show ?thesis using assms(1) by (simp add: fc_socket_path_def path_join_inject [OF rel rel] inj_eq)
qed

lemma uuid_hyphenated_relative: "\<not> is_absolute (uuid_hyphenated u)" "uuid_hyphenated u \<noteq> []"
proof -
  obtain c cs where c: "nibbles 32 (unat u) = c # cs" 
    using length_nibbles [of 32 "unat u"] by (cases "nibbles 32 (unat u)") auto
  have "x \<in> set (nibbles k n) \<Longrightarrow> \<exists>d < 16. x = hex_digit d" for x k n
    by (induction k arbitrary: n) (auto intro: exI [of _ "n mod 16" for n])
  then obtain d where "d < 16" "c = hex_digit d" using c by (metis list.set_intros(1))
  then have "c \<in> set ''0123456789abcdef''" using hex_digit_in by simp
  then have "c \<noteq> CHR ''/''" by auto
  with c show "\<not> is_absolute (uuid_hyphenated u)" "uuid_hyphenated u \<noteq> []"
    by (simp_all add: uuid_hyphenated_def Let_def is_absolute_def take_Cons')
qed

text \<open>
  An API request succeeds exactly when the connection, the handshake, the URI and the
  request are accepted and the response has a 2xx status and a readable body; the result is
  that body.
\<close>

lemma api_request_exact:
  "fst (api_request E s m u b h) = Ok r \<longleftrightarrow>
     connect_error E h s = None \<and> handshake_error E (Connected s # h) s = None
     \<and> uri_error E u = None \<and> build_error E (api_http_request m u b) = None
     \<and> (\<exists>resp bytes. send_result E (Connected s # h) s (api_http_request m u b) = Inr resp
          \<and> resp_body resp = Inr bytes \<and> is_success (resp_status resp)
          \<and> r = from_utf8_lossy bytes)"
  by (rule api_request_Ok_iff)


section \<open>The runner\<close>

text \<open>
  \<open>compute_hash\<close> is the digest of the output followed by the error output, as its
  documentation states, and its text has 64 hexadecimal digits; only the concatenation
  matters, not where the output ends and the error output begins.
\<close>

lemma compute_hash_is_digest:
  assumes "sha256_hasher H digest"
  shows "compute_hash H out err = ContentHash (digest (out @ err))
    \<and> length (ContentHash_fmt (compute_hash H out err)) = 64
    \<and> (out @ err = out' @ err' \<longrightarrow> compute_hash H out' err' = compute_hash H out err)"
  using ContentHash_fmt_hex [OF sha256_hasher.compute_hash_wf [OF assms, of out err]]
  by (simp add: sha256_hasher.compute_hash_digest [OF assms])


definition sim_block :: Block where
  "sim_block =
     \<lparr>block_id = BlockId 5, manifest = git_manifest, composed_of = None, trust_score = TrustScore f64_0_9,
      author = ContributorId ''forge-team'', nix_derivation = DerivationHash ''x'', created_at = 0, updated_at = 0\<rparr>"

definition sim_runner :: "env \<Rightarrow> BlockRunner" where
  "sim_runner E = BlockRunner_new (firecracker_vmm E with_defaults) (VmConfig_new ''/k'' ''/r'')"

lemma sim_run_Ok:
  "\<exists>rcd h'. runner_execute (sim_env c) H (sim_runner (sim_env c)) sim_block input h = (Ok rcd, h')"
proof -
  let ?r = "sim_runner (sim_env c)"
  have "fst (run_output ?r sim_block h) = (let (out, err, code) = parse_execution_output b64_decode c
      in Ok \<lparr>out_stdout = out, out_stderr = err, exit_code = code\<rparr>)"
    by (simp add: sim_runner_def BlockRunner_new_def firecracker_vmm_def sim_execute_command)
  then obtain res where "fst (run_output ?r sim_block h) = Ok res"
    by (auto simp: Let_def split: prod.splits)
  then show ?thesis unfolding runner_execute_cases by (cases "run_output ?r sim_block h") simp
qed

text \<open>
  C28. What a run returns is well formed and it leaves nothing behind: on every backend that
  honours the contract, both hashes of a record are 32-byte digests, the status is never
  \<open>Pending\<close> or \<open>Running\<close>, the record has no snapshot, and no VM process outlives the run,
  whether it succeeded or failed.
\<close>

theorem runner_record_wf:
  assumes "sha256_hasher H digest" and "vmm (backend r)"
    and "runner_execute E H r block input h = (res, h')"
  shows "live h' \<subseteq> live h \<and> (\<forall>rcd. res = Ok rcd \<longrightarrow>
    wf_ContentHash (input_hash rcd) \<and> wf_ContentHash (output_hash rcd)
    \<and> status rcd \<notin> {Pending, Running} \<and> vm_snapshot_id rcd = None)"
proof -
  have "live h' \<subseteq> live h" using runner_execute_live [OF assms(2), of E H block input h] assms(3) by simp
  then show ?thesis
    using assms(3) sha256_hasher.compute_hash_wf [OF assms(1)]
    by (auto simp: runner_execute_cases run_record_def split: prod.splits sum.splits)
qed

theorem runner_record_wf_witness:
  "\<exists>rcd h'. runner_execute (sim_env []) collecting_hasher (sim_runner (sim_env [])) sim_block [1] [] = (Ok rcd, h')
     \<and> live h' \<subseteq> live [] \<and> wf_ContentHash (input_hash rcd) \<and> wf_ContentHash (output_hash rcd)"
proof -
  have "vmm (backend (sim_runner (sim_env [])))"
    by (simp add: sim_runner_def BlockRunner_new_def firecracker_vmm_contract)
  moreover obtain rcd h' where run: "runner_execute (sim_env []) collecting_hasher (sim_runner (sim_env []))
      sim_block [1] [] = (Ok rcd, h')" using sim_run_Ok by blast
  ultimately show ?thesis using runner_record_wf [OF fips180.sha256_hasher_axioms _ run] by auto
qed


text \<open>
  C35. The kernel command line of a run quotes the init script with double quotes, and the
  script contains double quotes itself: the quoted text opened after \<open>-c\<close> ends before the
  command, whatever the command is.
\<close>

theorem exec_boot_args_quoting:
  "\<exists>rest. read_quoted (CHR 0x22) (drop 61 (exec_boot_args command)) =
     Some (''SF=$(mktemp);EF=$(mktemp);eval '', command @ rest)"
proof -
  have "\<exists>rest. drop 61 (exec_boot_args command) =
      CHR 0x22 # ''SF=$(mktemp);EF=$(mktemp);eval '' @ CHR 0x22 # command @ rest"
    by (simp add: exec_boot_args_def init_script_def)
  then show ?thesis by (auto simp: read_quoted_def until_quote_iff)
qed

section \<open>The orchestrator\<close>

text \<open>A run used as an instance: one VM was spawned in the simulated world.\<close>

abbreviation sim_vmm :: vmm_backend where
  "sim_vmm \<equiv> firecracker_vmm (sim_env []) with_defaults"

lemma sim_spawn_run:
  "\<exists>s v. orch_run sim_vmm (system_new []) s \<and> held s = {#v#} \<and> calls s = {#} \<and> issued s = [vm_id v] \<and> stale s = {#}"
proof -
  obtain v h' where "vb_spawn sim_vmm (VmConfig_new ''/k'' ''/r'') [] = (Ok v, h')"
    using sim_spawn [of "[]" with_defaults "VmConfig_new ''/k'' ''/r''" "[]"]
    by (auto simp: firecracker_vmm_def)
  with start_run [OF starts_calls(1) [of sim_vmm "VmConfig_new ''/k'' ''/r''"], of "system_new []"]
  show ?thesis by (auto simp: system_new_def call_backend_def)
qed

text \<open>
  C3. The registry of the orchestrator is exact under every interleaving of calls and
  their cancellation at any moment, also inside a backend call: as long as the identifiers handed out are distinct, the registered VMs are those
  whose handle a client holds, those with a snapshot or termination in flight, and those
  whose handle was lost (a failed or cancelled termination or a dropped handle); and no call
  on a handle the orchestrator handed out was ever answered \<open>VmNotFound\<close>.
\<close>

theorem orchestrator_registry:
  assumes "orch_run B (system_new h) s" and "distinct (issued s)"
  shows "active_vms (orch s) = set_mset (tracked_ids s) \<and> not_found s = []"
  using run_invariants [OF assms(1)] assms(2) by (simp add: registry_exact_def)

theorem orchestrator_registry_witness:
  "\<exists>s. orch_run sim_vmm (system_new []) s \<and> size (held s) = 1
     \<and> active_vms (orch s) = set_mset (tracked_ids s) \<and> not_found s = []"
proof -
  obtain s v where s: "orch_run sim_vmm (system_new []) s" "held s = {#v#}" "issued s = [vm_id v]"
    using sim_spawn_run by blast
  from orchestrator_registry [OF s(1)] s show ?thesis by auto
qed







text \<open>
  Calls on a VM that is not registered are refused with \<open>VmNotFound\<close> without calling
  the backend and without touching the registry; \<open>terminate\<close> still drops the handle it was
  given, which ends the process behind it.
\<close>

lemma orchestrator_unregistered:
  assumes "vm_id v \<notin> active_vms s"
  shows "orch_snapshot B v s = (Err (VmNotFound (vm_id v)), s)
   \<and> fst (orch_terminate B v s) = Err (VmNotFound (vm_id v))
   \<and> active_vms (snd (orch_terminate B v s)) = active_vms s
   \<and> live (world (snd (orch_terminate B v s))) = live (world s) - {process v}"
  using assms by (simp add: orch_snapshot_def orch_terminate_def registered_def)


definition unkillable_env :: env where
  "unkillable_env = (sim_env [])\<lparr>kill_error := \<lambda>_ _. Some ''EPERM''\<rparr>"


end
