(* ===== verification/Rust_Float.thy ===== *)
theory Rust_Float
  imports Forge_Trust
begin

text \<open>
  \<open>Display\<close> of \<open>f64\<close> in the Rust standard library (\<open>core::num::flt2dec\<close>), and with it the
  texts of \<open>forge-core/src/error.rs\<close>. A double is printed with the fewest decimal digits
  that lie in its rounding interval, without an exponent. The library finds them with Grisu
  and falls back to Dragon; the model is Dragon's digit-by-digit criterion on exact
  integers. The closing lemmas show that the text determines the double: no other double is
  nearer to the printed number.
\<close>

section \<open>The rounding interval\<close>

text \<open>
  \<open>flt2dec::decode\<close>, in units of \<open>2^-1076\<close>: the value, the distance to the lower and to the
  upper end of the interval, and whether the ends belong to it. The library shifts the
  mantissa of a subnormal, so it counts as even.
\<close>

record f64_decoded =
  dc_mant :: nat
  dc_minus :: nat
  dc_plus :: nat
  dc_inclusive :: bool

definition f64_ulp :: "f64 \<Rightarrow> nat" where
  "f64_ulp v = 2 ^ (f64_exponent v - 1)"

definition f64_decode :: "f64 \<Rightarrow> f64_decoded" where
  "f64_decode v =
     (let m = 4 * f64_magnitude v; u = f64_ulp v in
      if f64_exponent v = 0 then \<lparr>dc_mant = m, dc_minus = 2 * u, dc_plus = 2 * u, dc_inclusive = True\<rparr>
      else if f64_fraction v = 0 then \<lparr>dc_mant = m, dc_minus = u, dc_plus = 2 * u, dc_inclusive = True\<rparr>
      else \<lparr>dc_mant = m, dc_minus = 2 * u, dc_plus = 2 * u, dc_inclusive = even (f64_fraction v)\<rparr>)"

section \<open>Shortest digits\<close>

text \<open>
  One position of Dragon's loop: the digits generated down to the place \<open>10^e\<close>, if the loop
  stops there. It stops when cutting the rest off or rounding it up stays in the interval;
  if both do, the nearer one is taken, a tie is rounded up.
\<close>

definition dc_unit :: nat where
  "dc_unit = 2 ^ 1076"

definition digits_at :: "f64_decoded \<Rightarrow> int \<Rightarrow> nat option" where
  "digits_at d e =
     (let a = 10 ^ nat (- e); unit = dc_unit * 10 ^ nat e;
          q = dc_mant d * a div unit; r = dc_mant d * a mod unit;
          down = (if dc_inclusive d then r \<le> dc_minus d * a else r < dc_minus d * a);
          up = (if dc_inclusive d then unit \<le> r + dc_plus d * a else unit < r + dc_plus d * a)
      in if up \<and> (\<not> down \<or> unit \<le> 2 * r) then Some (Suc q)
         else if down then Some q else None)"

text \<open>
  The loop from the highest decimal place a double can have down to \<open>10^-1074\<close>, where
  every double is a whole number, so it stops there at the latest.
\<close>

fun search_digits :: "nat \<Rightarrow> int \<Rightarrow> f64_decoded \<Rightarrow> (nat \<times> int) option" where
  "search_digits 0 e d = None"
| "search_digits (Suc n) e d =
     (case digits_at d e of Some m \<Rightarrow> Some (m, e) | None \<Rightarrow> search_digits n (e - 1) d)"

definition format_shortest :: "f64_decoded \<Rightarrow> (nat \<times> int) option" where
  "format_shortest d = search_digits 1384 309 d"

text \<open>\<open>digits_to_dec_str\<close>: the digits of \<open>m\<close> with the decimal point moved by \<open>e\<close>.\<close>

definition dec_text :: "nat \<Rightarrow> int \<Rightarrow> string" where
  "dec_text m e =
     (let s = show_nat m; p = int (length s) + e
      in if p \<le> 0 then ''0.'' @ replicate (nat (- p)) (CHR ''0'') @ s
         else if p < int (length s) then take (nat p) s @ ''.'' @ drop (nat p) s
         else s @ replicate (nat e) (CHR ''0''))"

definition fmt_f64 :: "f64 \<Rightarrow> string" where
  "fmt_f64 v =
     (if is_nan v then ''NaN''
      else (if f64_sign v then ''-'' else '''') @
        (if is_infinite v then ''inf''
         else if f64_magnitude v = 0 then ''0''
         else case format_shortest (f64_decode v) of Some (m, e) \<Rightarrow> dec_text m e | None \<Rightarrow> ''''))"

section \<open>Texts of the core errors\<close>

fun CoreError_fmt :: "CoreError \<Rightarrow> string" where
  "CoreError_fmt (InvalidTrustScore v) = ''invalid trust score '' @ fmt_f64 v @ '': must be in [0.0, 1.0]''"
| "CoreError_fmt (InvalidBlockId reason) = ''invalid block id: '' @ reason"
| "CoreError_fmt (ManifestValidation field reason) =
     ''manifest validation failed for field '' @ [CHR 0x27] @ field @ [CHR 0x27] @ '': '' @ reason"

section \<open>The value of a decimal text\<close>

definition dec_number :: "string \<Rightarrow> real" where
  "dec_number s =
     (let whole = takeWhile (\<lambda>c. c \<noteq> CHR ''.'') s; frac = drop (Suc (length whole)) s
      in of_int (dec_value 0 whole) + of_int (dec_value 0 frac) / 10 ^ length frac)"

definition text_value :: "string \<Rightarrow> real" where
  "text_value s = (if take 1 s = ''-'' then - dec_number (drop 1 s) else dec_number s)"

lemma dec_value_shift: "dec_value a cs = a * 10 ^ length cs + dec_value 0 cs"
proof (induction cs arbitrary: a)
  case (Cons c cs)
  from Cons [of "a * 10 + the (to_digit c)"] Cons [of "the (to_digit c)"] show ?case
    by (simp add: algebra_simps)
qed simp

lemma dec_value_zeros: "dec_value 0 (replicate k (CHR ''0'')) = 0"
  by (induction k) (simp_all add: to_digit_def)

lemma digit_not_point: "is_digit c \<Longrightarrow> c \<noteq> CHR ''.''"
  by (auto simp: is_digit_def to_digit_def)

lemma is_digit_zero: "is_digit (CHR ''0'')"
  by (simp add: is_digit_def to_digit_def)

lemma digits_no_point: "list_all is_digit cs \<Longrightarrow> takeWhile (\<lambda>c. c \<noteq> CHR ''.'') cs = cs"
  by (induction cs) (simp_all add: digit_not_point)

lemma dec_number_digits: "list_all is_digit cs \<Longrightarrow> dec_number cs = of_int (dec_value 0 cs)"
  by (simp add: dec_number_def digits_no_point)

lemma dec_number_point:
  assumes "list_all is_digit cs"
  shows "dec_number (cs @ ''.'' @ ds) = of_int (dec_value 0 (cs @ ds)) / 10 ^ length ds"
proof -
  have "takeWhile (\<lambda>c. c \<noteq> CHR ''.'') (cs @ ''.'' @ ds) = cs"
    using assms by (subst takeWhile_append2) (auto simp: list_all_iff dest: digit_not_point)
  then show ?thesis
    by (simp add: dec_number_def dec_value_append dec_value_shift [of "dec_value 0 cs" ds] field_simps)
qed

lemma powi_neg: "0 \<le> k \<Longrightarrow> (10::real) powi (- k) = 1 / 10 ^ nat k"
  by (simp add: power_int_minus power_int_def power_one_over)

lemma dec_number_text: "dec_number (dec_text m e) = real m * 10 powi e"
proof -
  let ?s = "show_nat m"
  let ?p = "int (length ?s) + e"
  consider (small) "?p \<le> 0" | (mid) "0 < ?p" "e < 0" | (big) "0 < ?p" "0 \<le> e" by linarith
  then show ?thesis
  proof cases
    case small
    have "dec_value 0 (''0'' @ replicate (nat (- ?p)) (CHR ''0'') @ ?s) = int m"
      by (simp add: dec_value_append dec_value_zeros dec_value_show_nat to_digit_def)
    moreover have "e = - int (nat (- ?p) + length ?s)" using small by simp
    then have "10 powi e = 1 / (10::real) ^ (nat (- ?p) + length ?s)" by (metis nat_int of_nat_0_le_iff powi_neg)
    ultimately show ?thesis
      using small dec_number_point [of "''0''" "replicate (nat (- ?p)) (CHR ''0'') @ ?s"]
      by (simp add: dec_text_def Let_def is_digit_zero)
  next
    case mid
    have "list_all is_digit (take (nat ?p) ?s)"
      using show_nat_digits [of m] by (auto simp: list_all_iff dest: in_set_takeD)
    moreover have "e = - int (length ?s - nat ?p)" using mid by simp
    then have "10 powi e = 1 / (10::real) ^ (length ?s - nat ?p)" by (metis nat_int of_nat_0_le_iff powi_neg)
    ultimately show ?thesis
      using mid dec_number_point [of "take (nat ?p) ?s" "drop (nat ?p) ?s"]
      by (simp add: dec_text_def Let_def dec_value_show_nat)
  next
    case big
    have "list_all is_digit (?s @ replicate (nat e) (CHR ''0''))"
      using show_nat_digits [of m] by (auto simp: list_all_iff is_digit_zero)
    then show ?thesis
      using big by (simp add: dec_text_def Let_def dec_number_digits dec_value_append dec_value_show_nat
          dec_value_shift [of "int m"] dec_value_zeros power_int_def)
  qed
qed

section \<open>The digits lie in the rounding interval\<close>

lemma digits_at_cases:
  assumes "digits_at d e = Some m"
  shows "m * (dc_unit * 10 ^ nat e) \<le> (dc_mant d + dc_plus d) * 10 ^ nat (- e)"
    and "dc_mant d * 10 ^ nat (- e) \<le> m * (dc_unit * 10 ^ nat e) + dc_minus d * 10 ^ nat (- e)"
proof -
  define a :: nat where "a = 10 ^ nat (- e)"
  define unit where "unit = dc_unit * 10 ^ nat e"
  define q r where "q = dc_mant d * a div unit" and "r = dc_mant d * a mod unit"
  have split: "dc_mant d * a = q * unit + r" by (simp add: q_def r_def)
  have "0 < unit" by (simp add: unit_def dc_unit_def)
  then have "r < unit" by (simp add: r_def)
  have "(m = Suc q \<and> unit \<le> r + dc_plus d * a) \<or> (m = q \<and> r \<le> dc_minus d * a)"
    using assms unfolding digits_at_def Let_def
    by (auto simp flip: a_def unit_def q_def r_def split: if_splits)
  then show "m * unit \<le> (dc_mant d + dc_plus d) * a" "dc_mant d * a \<le> m * unit + dc_minus d * a"
    using split \<open>r < unit\<close> by (auto simp: algebra_simps)
qed

lemma digits_at_interval:
  assumes "digits_at d e = Some m"
  shows "real m * 10 powi e * real dc_unit \<le> real (dc_mant d) + real (dc_plus d)"
    and "real (dc_mant d) - real (dc_minus d) \<le> real m * 10 powi e * real dc_unit"
proof -
  have "real (m * (dc_unit * 10 ^ nat e)) \<le> real ((dc_mant d + dc_plus d) * 10 ^ nat (- e))"
    "real (dc_mant d * 10 ^ nat (- e)) \<le> real (m * (dc_unit * 10 ^ nat e) + dc_minus d * 10 ^ nat (- e))"
    using digits_at_cases [OF assms] by (simp_all only: of_nat_le_iff)
  then have *: "real m * real dc_unit * 10 ^ nat e \<le> (real (dc_mant d) + real (dc_plus d)) * 10 ^ nat (- e)"
    "real (dc_mant d) * 10 ^ nat (- e) \<le> real m * real dc_unit * 10 ^ nat e + real (dc_minus d) * 10 ^ nat (- e)"
    by simp_all
  have "(10::real) powi e * 10 ^ nat (- e) = 10 ^ nat e"
    by (simp add: power_int_def power_one_over)
  then have "real m * 10 powi e * real dc_unit * 10 ^ nat (- e) = real m * real dc_unit * 10 ^ nat e"
    by (metis mult.assoc mult.commute)
  with * have "real m * 10 powi e * real dc_unit * 10 ^ nat (- e) \<le> (real (dc_mant d) + real (dc_plus d)) * 10 ^ nat (- e)"
    "(real (dc_mant d) - real (dc_minus d)) * 10 ^ nat (- e) \<le> real m * 10 powi e * real dc_unit * 10 ^ nat (- e)"
    unfolding left_diff_distrib by linarith+
  then show "real m * 10 powi e * real dc_unit \<le> real (dc_mant d) + real (dc_plus d)"
    "real (dc_mant d) - real (dc_minus d) \<le> real m * 10 powi e * real dc_unit"
    by (auto dest: mult_right_le_imp_le)
qed

lemma search_digits_Some:
  "digits_at d (e - int i) \<noteq> None \<Longrightarrow> i < n \<Longrightarrow>
     \<exists>m e'. search_digits n e d = Some (m, e') \<and> digits_at d e' = Some m"
proof (induction n arbitrary: e i)
  case (Suc n)
  show ?case
  proof (cases "digits_at d e")
    case None
    with Suc.prems have "i \<noteq> 0" by (cases i) auto
    then obtain j where "i = Suc j" by (cases i) auto
    with Suc.IH [of "e - 1" j] Suc.prems None show ?thesis by (simp add: algebra_simps)
  qed simp
qed simp

text \<open>At \<open>10^-1074\<close> every double is a whole number, so the search ends.\<close>

lemma whole_at:
  assumes "dc_mant d = 4 * n" and "dc_unit = 2 ^ (k + 2)" and "0 < dc_minus d"
  shows "digits_at d (- int k) \<noteq> None"
proof -
  have "(10::nat) ^ k = 5 ^ k * 2 ^ k" by (subst power_mult_distrib [symmetric]) simp
  then have "dc_mant d * 10 ^ k = n * 5 ^ k * dc_unit"
    using assms(1,2) by (simp add: power_add)
  then have "dc_mant d * 10 ^ nat (- (- int k)) mod (dc_unit * 10 ^ nat (- int k)) = 0" by simp
  then show ?thesis using assms(3) unfolding digits_at_def Let_def by (simp only: if_splits) simp
qed

lemma dc_unit_power: "dc_unit = 2 ^ (1074 + 2)"
  by (simp only: dc_unit_def) simp

lemma f64_decode_simps:
  "dc_mant (f64_decode v) = 4 * f64_magnitude v"
  "0 < dc_minus (f64_decode v)"
  "dc_minus (f64_decode v) \<le> 2 * f64_ulp v"
  "dc_plus (f64_decode v) = 2 * f64_ulp v"
  by (simp_all add: f64_decode_def Let_def f64_ulp_def)

lemma format_shortest_Some:
  "\<exists>m e. format_shortest (f64_decode v) = Some (m, e) \<and> digits_at (f64_decode v) e = Some m"
proof -
  have "digits_at (f64_decode v) (309 - int 1383) \<noteq> None"
    using whole_at [OF f64_decode_simps(1) dc_unit_power f64_decode_simps(2), of v] by simp
  then show ?thesis unfolding format_shortest_def by (rule search_digits_Some) simp
qed

section \<open>No other double is nearer\<close>

text \<open>A magnitude is a 53-bit number times the unit of its binade.\<close>

definition f64_mantissa :: "f64 \<Rightarrow> nat" where
  "f64_mantissa v = (if f64_exponent v = 0 then f64_fraction v else 2 ^ 52 + f64_fraction v)"

lemma f64_mantissa_facts:
  "f64_magnitude v = f64_mantissa v * f64_ulp v" "f64_mantissa v < 2 ^ 53"
  "f64_exponent v - 1 = 0 \<or> 2 ^ 52 \<le> f64_mantissa v"
proof -
  have "f64_fraction v < 2 ^ 52" by (simp add: f64_fraction_def)
  then show "f64_mantissa v < 2 ^ 53" by (simp add: f64_mantissa_def)
  show "f64_magnitude v = f64_mantissa v * f64_ulp v"
    by (simp add: f64_magnitude_def f64_mantissa_def f64_ulp_def)
  show "f64_exponent v - 1 = 0 \<or> 2 ^ 52 \<le> f64_mantissa v" by (simp add: f64_mantissa_def)
qed

lemma ulp_dvd: "f64_exponent v - 1 \<le> f64_exponent w - 1 \<Longrightarrow> f64_ulp v dvd f64_magnitude w"
  by (simp add: f64_mantissa_facts(1) f64_ulp_def le_imp_power_dvd)

lemma lower_binade:
  assumes "f64_exponent w - 1 < f64_exponent v - 1"
  shows "2 * f64_magnitude w + f64_ulp v \<le> 2 ^ 53 * f64_ulp v"
proof -
  obtain k where k: "f64_ulp v = 2 * (2 ^ k * f64_ulp w)"
    using less_imp_Suc_add [OF assms] by (auto simp: f64_ulp_def power_add)
  obtain j where j: "(2::nat) ^ k = Suc j" by (metis not0_implies_Suc power_not_zero zero_neq_numeral)
  have "f64_mantissa w + 2 ^ k \<le> 2 ^ 53 * 2 ^ k"
    using f64_mantissa_facts(2) [of w] unfolding j by simp
  then have "(f64_mantissa w + 2 ^ k) * f64_ulp w \<le> 2 ^ 53 * 2 ^ k * f64_ulp w" by (rule mult_le_mono1)
  then show ?thesis by (simp add: k f64_mantissa_facts(1) algebra_simps)
qed

lemma above_gap:
  assumes "f64_magnitude v < f64_magnitude w"
  shows "f64_magnitude v + f64_ulp v \<le> f64_magnitude w"
proof (cases "f64_exponent v - 1 \<le> f64_exponent w - 1")
  case True
  then have "f64_ulp v dvd f64_magnitude w - f64_magnitude v"
    using ulp_dvd [of v w] ulp_dvd [of v v] by (simp add: dvd_diff_nat)
  with assms have "f64_ulp v \<le> f64_magnitude w - f64_magnitude v" by (simp add: dvd_imp_le)
  with assms show ?thesis by simp
next
  case False
  then have "2 ^ 52 * f64_ulp v \<le> f64_magnitude v"
    using f64_mantissa_facts(1,3) [of v] by auto
  with lower_binade [of w v] False assms show ?thesis by simp
qed

lemma below_gap:
  assumes "f64_magnitude w < f64_magnitude v"
  shows "4 * f64_magnitude w + 2 * dc_minus (f64_decode v) \<le> 4 * f64_magnitude v"
proof (cases "f64_exponent v - 1 \<le> f64_exponent w - 1")
  case True
  then have "f64_ulp v dvd f64_magnitude v - f64_magnitude w"
    using ulp_dvd [of v w] ulp_dvd [of v v] by (simp add: dvd_diff_nat)
  with assms have "f64_ulp v \<le> f64_magnitude v - f64_magnitude w" by (simp add: dvd_imp_le)
  with assms f64_decode_simps(3) [of v] show ?thesis by simp
next
  case False
  then have low: "2 * f64_magnitude w + f64_ulp v \<le> 2 ^ 53 * f64_ulp v"
    by (intro lower_binade) simp
  have exp: "f64_exponent v \<noteq> 0" using False by simp
  show ?thesis
  proof (cases "f64_fraction v = 0")
    case True
    with exp low show ?thesis
      by (simp add: f64_decode_def Let_def f64_mantissa_facts(1) [of v] f64_mantissa_def)
  next
    case False
    then have "(2 ^ 52 + 1) * f64_ulp v \<le> f64_magnitude v"
      using exp unfolding f64_mantissa_facts(1) [of v] by (intro mult_le_mono1) (simp add: f64_mantissa_def)
    with low f64_decode_simps(3) [of v] show ?thesis by simp
  qed
qed

text \<open>A number in the rounding interval is at least as near to the double as to any other.\<close>

lemma interval_nearest:
  assumes "real (4 * f64_magnitude v) - real (dc_minus (f64_decode v)) \<le> x"
    and "x \<le> real (4 * f64_magnitude v) + real (dc_plus (f64_decode v))"
    and "f64_magnitude v \<noteq> 0"
  shows "\<bar>real (4 * f64_magnitude v) - x\<bar> \<le> \<bar>real (4 * f64_magnitude w) - x\<bar>"
    and "\<bar>real (4 * f64_magnitude v) - x\<bar> \<le> \<bar>- real (4 * f64_magnitude w) - x\<bar>"
proof -
  let ?V = "real (4 * f64_magnitude v)" and ?W = "real (4 * f64_magnitude w)"
  let ?m = "real (dc_minus (f64_decode v))" and ?p = "real (dc_plus (f64_decode v))"
  have above: "?V + 2 * ?p \<le> ?W" if "f64_magnitude v < f64_magnitude w"
    using above_gap [OF that] f64_decode_simps(4) [of v] by linarith
  have below: "?W + 2 * ?m \<le> ?V" if "f64_magnitude w < f64_magnitude v"
    using below_gap [OF that] by linarith
  consider "f64_magnitude w = f64_magnitude v" | "f64_magnitude v < f64_magnitude w" | "f64_magnitude w < f64_magnitude v"
    by linarith
  then show "\<bar>?V - x\<bar> \<le> \<bar>?W - x\<bar>"
    using assms(1,2) above below by cases (auto simp: abs_if)
  have "f64_ulp v \<le> f64_magnitude v"
    using assms(3) by (simp add: f64_mantissa_facts(1))
  then have "2 * ?m \<le> ?V" using f64_decode_simps(3) [of v] by simp
  then show "\<bar>?V - x\<bar> \<le> \<bar>- ?W - x\<bar>" using assms(1,2) by (auto simp: abs_if)
qed

lemma dc_unit_quarter: "real dc_unit = 4 * real f64_unit"
proof -
  have "(2::real) ^ (1074 + 2) = 4 * 2 ^ 1074" by (simp only: power_add) simp
  then show ?thesis unfolding dc_unit_power f64_unit_def by (simp only: of_nat_power of_nat_numeral)
qed

lemma f64_real_magnitude:
  "f64_real v = (if f64_sign v then - 1 else 1) * real (f64_magnitude v) / real f64_unit"
  by (simp add: f64_real_def f64_scaled_def)

lemma dec_text_no_sign: "take 1 (dec_text m e) \<noteq> ''-''"
proof -
  have "\<exists>c cs. dec_text m e = c # cs \<and> is_digit c"
  proof -
    obtain c cs where s: "show_nat m = c # cs" "is_digit c" using show_nat_Cons by blast
    show ?thesis
    proof (cases "int (length (show_nat m)) + e \<le> 0")
      case True
      then show ?thesis by (simp add: dec_text_def Let_def is_digit_zero)
    next
      case False
      then obtain k where "nat (int (length (show_nat m)) + e) = Suc k" by (cases "nat (int (length (show_nat m)) + e)") auto
      with False s show ?thesis by (simp add: dec_text_def Let_def)
    qed
  qed
  then show ?thesis by (auto dest: digit_not_sign)
qed

text \<open>Printing a finite double and reading the text: no double is nearer than the one printed.\<close>

lemma fmt_f64_nearest:
  assumes "\<not> is_nan v" and "\<not> is_infinite v"
  shows "\<bar>f64_real v - text_value (fmt_f64 v)\<bar> \<le> \<bar>f64_real w - text_value (fmt_f64 v)\<bar>"
proof (cases "f64_magnitude v = 0")
  case True
  with assms have "text_value (fmt_f64 v) = 0"
    by (simp add: fmt_f64_def text_value_def dec_number_def to_digit_def)
  moreover have "f64_real v = 0" using True by (simp add: f64_real_magnitude)
  ultimately show ?thesis by simp
next
  case False
  obtain m e where me: "format_shortest (f64_decode v) = Some (m, e)" "digits_at (f64_decode v) e = Some m"
    using format_shortest_Some by blast
  let ?s = "if f64_sign v then - 1 else 1 :: real"
  define x where "x = real m * 10 powi e"
  have printed: "text_value (fmt_f64 v) = ?s * x"
    using assms False me(1) dec_text_no_sign [of m e]
    by (simp add: fmt_f64_def text_value_def dec_number_text x_def)
  have "real (4 * f64_magnitude v) - real (dc_minus (f64_decode v)) \<le> x * real dc_unit"
    "x * real dc_unit \<le> real (4 * f64_magnitude v) + real (dc_plus (f64_decode v))"
    using digits_at_interval [OF me(2)] by (simp_all add: x_def f64_decode_simps(1))
  note near = interval_nearest [OF this False]
  have unit: "0 < real f64_unit" using f64_unit_half by simp
  have scale: "\<bar>k * real (f64_magnitude u) / real f64_unit - x\<bar> = \<bar>k * real (4 * f64_magnitude u) - x * real dc_unit\<bar> / (4 * real f64_unit)" for k u
    using unit by (simp add: dc_unit_quarter abs_if field_simps)
  have "\<bar>real (f64_magnitude v) / real f64_unit - x\<bar> \<le> \<bar>k * real (f64_magnitude w) / real f64_unit - x\<bar>" if "k = 1 \<or> k = - 1" for k
    using that scale [of 1 v] scale [of k w] near [of w] unit by (auto simp: divide_right_mono)
  from this [of 1] this [of "- 1"] show ?thesis
    unfolding printed f64_real_magnitude by (auto simp: abs_if split: if_splits)
qed

end
