(* ===== verification/Core_Properties.thy ===== *)
theory Core_Properties
  imports Forge_Blocks Base64_Reference Rust_Float
begin

text \<open>
  The properties of the core data types and of the serial console parser, each with a
  concrete instance of its hypotheses.
\<close>

section \<open>The serial console protocol\<close>

text \<open>
  C2. Parsing the serial console recovers exactly what the guest framed: for every base64
  engine, whatever the output and error bytes and the exit code, however the base64 text
  is wrapped into lines, whatever harmless noise comes before and whatever comes after,
  \<open>parse_execution_output\<close> returns the output, the error output and the exit code.
\<close>

theorem serial_roundtrip:
  assumes "base64_engine encode decode" and "quiet_noise noise"
    and "wraps body1 (encode out)" and "wraps body2 (encode err)"
  shows "parse_execution_output decode (guest_serial noise body1 body2 code rest) = (out, err, code)"
  using assms by (intro base64_engine.parse_guest_serial)

lemma quiet_noise_Nil: "quiet_noise []"
  by (simp add: quiet_noise_def crlf_def exit_marker_def)

lemma wraps_crlf: "list_all (\<lambda>b. \<not> is_eol b) text \<Longrightarrow> wraps (text @ crlf) text"
  by (simp add: wraps_def crlf_def line_block_def is_eol_def list_all_iff filter_id_conv)

theorem serial_roundtrip_witness:
  "parse_execution_output b64_decode
     (guest_serial [] (b64_encode [104, 105, 10] @ crlf) (b64_encode [] @ crlf) (- 7) [0xFF])
   = ([104, 105, 10], [], - 7)"
proof (rule serial_roundtrip [OF rfc4648.base64_engine_axioms quiet_noise_Nil])
  show "wraps (b64_encode [104, 105, 10] @ crlf) (b64_encode [104, 105, 10])"
    by (rule wraps_crlf) code_simp
  show "wraps (b64_encode [] @ crlf) (b64_encode [])" by (rule wraps_crlf) simp
qed

text \<open>
  \<open>make_b64_output\<close>, the stream the unit tests build, is parsed back to its
  arguments for every output, error output and exit code (an \<open>i32\<close>, so negative codes too).
\<close>

lemma make_b64_output_roundtrip:
  assumes "base64_engine encode decode"
  shows "parse_execution_output decode (make_b64_output encode out err code) = (out, err, code)"
proof -
  have no_eol: "list_all (\<lambda>b. \<not> is_eol b) (encode bs)" for bs
  proof -
    have "set (encode bs) \<subseteq> b64_alphabet" using assms by (rule base64_engine.encode_alphabet)
    moreover have "\<forall>b \<in> b64_alphabet. \<not> is_eol b" unfolding b64_alphabet_def by code_simp
    ultimately show ?thesis by (auto simp: list_all_iff)
  qed
  have "quiet_noise (as_bytes ''kernel boot noise'' @ crlf)" by code_simp
  moreover have "make_b64_output encode out err code =
      guest_serial (as_bytes ''kernel boot noise'' @ crlf) (encode out @ crlf) (encode err @ crlf) code []"
    by (simp add: make_b64_output_def guest_serial_def)
  ultimately show ?thesis
    using assms no_eol by (simp add: base64_engine.parse_guest_serial wraps_crlf)
qed

text \<open>A section that stands in the console between its markers and decodes to \<open>out\<close>.\<close>

definition framed :: "(u8 list \<Rightarrow> u8 list option) \<Rightarrow> u8 list \<Rightarrow> u8 list \<Rightarrow> u8 list \<Rightarrow> u8 list \<Rightarrow> bool" where
  "framed decode raw s e out =
     (\<exists>pre body post. raw = pre @ s @ crlf @ body @ e @ post
        \<and> decode (filter (\<lambda>b. \<not> is_eol b) body) = Some out)"

text \<open>
  C23. The parser never invents output: its result is either the fallback (the raw bytes,
  no error output, code \<open>-1\<close>), or both sections stand in the console between their markers
  and decode to the result, and the console contains the exit marker.
\<close>

theorem parse_execution_output_sound:
  assumes "parse_execution_output decode raw = (out, err, code)"
  shows "(out, err, code) = (raw, [], - 1)
    \<or> framed decode raw stdout_start stdout_end out \<and> framed decode raw stderr_start stderr_end err
      \<and> sublist exit_marker raw"
proof (cases "extract_b64_section decode raw stdout_start stdout_end = Some out
    \<and> extract_b64_section decode raw stderr_start stderr_end = Some err \<and> extract_exit_code raw = Some code")
  case True
  have "find_slice exit_marker raw \<noteq> None"
    using True by (auto simp: extract_exit_code_def Let_def split: option.splits)
  then have "sublist exit_marker raw"
    unfolding find_slice_None [OF marker_not_Nil(5)] by (rule notnotD)
  moreover have "framed decode raw stdout_start stdout_end out"
    using True extract_b64_section_Some [OF marker_not_Nil(2)] unfolding framed_def by blast
  moreover have "framed decode raw stderr_start stderr_end err"
    using True extract_b64_section_Some [OF marker_not_Nil(4)] unfolding framed_def by blast
  ultimately show ?thesis by blast
next
  case False
  with assms show ?thesis
    by (auto simp: parse_execution_output_def Let_def split: option.splits)
qed

theorem parse_execution_output_sound_witness:
  "parse_execution_output b64_decode (as_bytes ''panic'') = (as_bytes ''panic'', [], - 1)
   \<and> ((as_bytes ''panic'', [], - 1) = (as_bytes ''panic'', [], - 1 :: i32)
      \<or> framed b64_decode (as_bytes ''panic'') stdout_start stdout_end (as_bytes ''panic'')
        \<and> framed b64_decode (as_bytes ''panic'') stderr_start stderr_end []
        \<and> sublist exit_marker (as_bytes ''panic''))"
proof -
  have "parse_execution_output b64_decode (as_bytes ''panic'') = (as_bytes ''panic'', [], - 1)"
    by code_simp
  with parse_execution_output_sound [OF this] show ?thesis by blast
qed

text \<open>
  The exit code survives the console: after complete lines without the marker, the
  printed code of every \<open>i32\<close> is read back, whatever follows its line.
\<close>

lemma exit_code_roundtrip:
  "line_block pre \<Longrightarrow> \<not> sublist exit_marker pre \<Longrightarrow>
   extract_exit_code (pre @ exit_marker @ as_bytes (show_i32 code) @ crlf @ rest) = Some code"
  by (rule extract_exit_code_show)



section \<open>Text\<close>


text \<open>
  \<open>String::from_utf8_lossy\<close> returns valid UTF-8 for every byte sequence and changes
  nothing when the bytes are valid already.
\<close>

lemma from_utf8_lossy_valid:
  "valid_utf8 (as_bytes (from_utf8_lossy bs)) \<and> (valid_utf8 bs \<longrightarrow> as_bytes (from_utf8_lossy bs) = bs)"
  by (simp add: from_utf8_lossy_def valid_utf8_lossy utf8_lossy_id)

section \<open>Core types\<close>

text \<open>
  The text of a content hash: 64 lower-case hexadecimal digits, and different hashes
  have different texts.
\<close>

lemma ContentHash_text:
  assumes "wf_ContentHash h"
  shows "length (ContentHash_fmt h) = 64 \<and> set (ContentHash_fmt h) \<subseteq> set ''0123456789abcdef''
    \<and> (\<forall>k. ContentHash_fmt k = ContentHash_fmt h \<longleftrightarrow> k = h)"
  using ContentHash_fmt_hex [OF assms] by (simp add: ContentHash_fmt_inject)

text \<open>
  \<open>TrustScore::new\<close> accepts exactly the doubles that are numbers in the closed unit
  interval (by their real value, so negative zero and subnormals too) and rejects NaN,
  infinities and everything else with the value in the error.
\<close>

lemma TrustScore_new_exact:
  "TrustScore_new v =
     (if \<not> is_nan v \<and> 0 \<le> f64_real v \<and> f64_real v \<le> 1 then Ok (TrustScore v)
      else Err (InvalidTrustScore v))"
  by (rule TrustScore_new_iff)

text \<open>
  The four decimals a trust score is printed with are its value rounded to nearest:
  they differ from it by at most half a unit in the fourth place.
\<close>

lemma TrustScore_display_rounding:
  "\<not> is_nan v \<Longrightarrow> \<not> is_infinite v \<Longrightarrow> \<not> f64_sign v \<Longrightarrow>
     \<exists>n. TrustScore_fmt (TrustScore v) = show_nat (n div 10000) @ ''.'' @ fmt_four_digits (n mod 10000)
       \<and> \<bar>f64_real v - real n / 10000\<bar> \<le> 1 / 20000"
proof -
  assume v: "\<not> is_nan v" "\<not> is_infinite v" "\<not> f64_sign v"
  let ?n = "round_ten_thousandths (f64_magnitude v)"
  have "\<bar>f64_real v * 10000 - real ?n\<bar> \<le> 1 / 2"
    using round_ten_thousandths_error [of "f64_magnitude v"] v(3)
    by (simp add: f64_real_def f64_scaled_def)
  then have "\<bar>f64_real v - real ?n / 10000\<bar> \<le> 1 / 20000" by linarith
  then show ?thesis using v by (intro exI [of _ ?n]) (simp add: fmt_f64_4_def Let_def)
qed


definition f64_1_1 :: f64 where
  "f64_1_1 = 0x3FF199999999999A"


end
