(* ===== verification/Sha256_Evaluation.thy ===== *)
theory Sha256_Evaluation
  imports Sha256_Reference
begin

text \<open>
  Known answers of the reference hash. The rounds of SHA-256 are mirrored on natural numbers,
  where the simplifier computes quickly; the mirror agrees with the rounds on 32-bit words
  as long as its numbers fit, and evaluates the digests of the texts that the tests of
  \<open>runner.rs\<close> hash.
\<close>

unbundle bit_operations_syntax

section \<open>The rounds on natural numbers\<close>

abbreviation w32 :: "nat \<Rightarrow> u32" where "w32 \<equiv> of_nat"

definition nrotr :: "nat \<Rightarrow> nat \<Rightarrow> nat" where
  "nrotr n x = drop_bit n x + push_bit (32 - n) (take_bit n x)"

type_synonym nworking = "nat \<times> nat \<times> nat \<times> nat \<times> nat \<times> nat \<times> nat \<times> nat"

fun of_nworking :: "nworking \<Rightarrow> working" where
  "of_nworking (a, b, c, d, e, f, g, h) = (w32 a, w32 b, w32 c, w32 d, w32 e, w32 f, w32 g, w32 h)"

fun nround_step :: "nat \<Rightarrow> nat \<Rightarrow> nworking \<Rightarrow> nworking" where
  "nround_step k w (a, b, c, d, e, f, g, h) =
     (let t1 = h + (nrotr 6 e XOR nrotr 11 e XOR nrotr 25 e) + (g XOR (e AND (f XOR g))) + k + w;
          t2 = (nrotr 2 a XOR nrotr 13 a XOR nrotr 22 a) + ((a AND b) XOR (c AND (a XOR b)))
      in (take_bit 32 (t1 + t2), a, b, c, take_bit 32 (d + t1), e, f, g))"

definition nnext_word :: "nat \<Rightarrow> nat list \<Rightarrow> nat" where
  "nnext_word w ws =
     (let x = ws ! 13; y = ws ! 0
      in take_bit 32 ((nrotr 17 x XOR nrotr 19 x XOR drop_bit 10 x) + ws ! 8
         + (nrotr 7 y XOR nrotr 18 y XOR drop_bit 3 y) + w))"

fun nrounds :: "u32 list \<Rightarrow> nat list \<Rightarrow> nworking \<Rightarrow> nworking" where
  "nrounds (k # ks) (w # ws) s = nrounds ks (ws @ [nnext_word w ws]) (nround_step (unat k) w s)"
| "nrounds _ _ s = s"

abbreviation fits32 :: "nat \<Rightarrow> bool" where "fits32 x \<equiv> x < 2 ^ 32"

fun fits_working :: "nworking \<Rightarrow> bool" where
  "fits_working (a, b, c, d, e, f, g, h) = list_all fits32 [a, b, c, d, e, f, g, h]"

section \<open>Agreement with the rounds on words\<close>

lemma fits_take_bit: "fits32 (take_bit 32 x)"
  by (rule take_bit_nat_less_exp)

lemma fits_nround_step: "fits_working s \<Longrightarrow> fits_working (nround_step k w s)"
  by (cases s rule: fits_working.cases) (simp add: Let_def fits_take_bit [simplified])

lemma w32_take_bit: "w32 (take_bit 32 x) = w32 x"
  by (rule bit_word_eqI) (simp add: bit_simps)

lemma w32_drop_bit:
  assumes "fits32 x"
  shows "w32 (drop_bit n x) = drop_bit n (w32 x)"
proof -
  have "take_bit 32 x = x" using assms by (simp add: take_bit_nat_eq_self)
  then have "bit x k \<Longrightarrow> k < 32" for k by (metis bit_take_bit_iff)
  then show ?thesis by (intro bit_word_eqI) (auto simp: bit_simps)
qed

lemma w32_nrotr:
  assumes "fits32 x" and "n \<le> 32"
  shows "w32 (nrotr n x) = rotr32 n (w32 x)"
proof -
  have "take_bit 32 x = x" using assms by (simp add: take_bit_nat_eq_self)
  then have small: "bit x j \<Longrightarrow> j < 32" for j by (metis bit_take_bit_iff)
  have "\<not> (bit x (n + k) \<and> 32 - n \<le> k)" for k
    using small [of "n + k"] by auto
  then have "drop_bit n x AND push_bit (32 - n) (take_bit n x) = 0"
    by (intro bit_eqI) (auto simp: bit_simps)
  then have "nrotr n x = drop_bit n x OR push_bit (32 - n) (take_bit n x)"
    by (simp add: nrotr_def disjunctive_add_eq_or)
  moreover have "w32 (push_bit (32 - n) (take_bit n x)) = push_bit (32 - n) (w32 x)"
    using assms(2) by (intro bit_word_eqI) (auto simp: bit_simps)
  ultimately show ?thesis using w32_drop_bit [OF assms(1)] by (simp add: rotr32_def of_nat_or_eq)
qed

lemma choose_word: "(e AND f) XOR (NOT e AND g) = g XOR (e AND (f XOR g))" for e f g :: u32
  by (rule bit_word_eqI) (auto simp: bit_simps)

lemma majority_word: "(a AND b) XOR (a AND c) XOR (b AND c) = (a AND b) XOR (c AND (a XOR b))" 
  for a b c :: u32
  by (rule bit_word_eqI) (auto simp: bit_simps)

lemmas w32_simps = w32_nrotr w32_drop_bit w32_take_bit of_nat_and_eq of_nat_xor_eq choose_word majority_word

lemma w32_round_step:
  "fits_working s \<Longrightarrow> round_step k (w32 w) (of_nworking s) = of_nworking (nround_step (unat k) w s)"
  by (cases s rule: fits_working.cases) (simp add: Let_def w32_simps)

lemma w32_next_word:
  "length ws = 15 \<Longrightarrow> list_all fits32 ws \<Longrightarrow> next_word (w32 w) (map w32 ws) = w32 (nnext_word w ws)"
  by (simp add: next_word_def nnext_word_def Let_def w32_simps list_all_length)

lemma w32_rounds:
  "length ws = 16 \<Longrightarrow> list_all fits32 ws \<Longrightarrow> fits_working s \<Longrightarrow>
     rounds ks (map w32 ws) (of_nworking s) = of_nworking (nrounds ks ws s)"
proof (induction ks ws s rule: nrounds.induct)
  case (1 k ks w ws s)
  have "fits32 (nnext_word w ws)" unfolding nnext_word_def Let_def by (rule fits_take_bit)
  with 1 show ?case by (simp add: w32_round_step w32_next_word fits_nround_step)
qed simp_all

text \<open>One round at a time, each step computed before the next.\<close>

lemma nrounds_Cons:
  assumes "nround_step (unat k) w s = s'" and "nnext_word w ws = v" and "ws @ [v] = ws'" and "nrounds ks ws' s' = r"
  shows "nrounds (k # ks) (w # ws) s = r"
  using assms by simp

lemma nrounds_Nil: "nrounds [] ws s = s" by simp

fun to_nworking :: "working \<Rightarrow> nworking" where
  "to_nworking (a, b, c, d, e, f, g, h) = (unat a, unat b, unat c, unat d, unat e, unat f, unat g, unat h)"

lemma of_to_nworking: "of_nworking (to_nworking s) = s"
  by (cases s rule: to_nworking.cases) simp

lemma fits_unat: "fits32 (unat (w :: u32))"
  using unsigned_less [of w, where ?'a = nat] by simp

lemma fits_to_nworking: "fits_working (to_nworking s)"
  by (cases s rule: to_nworking.cases) (simp add: fits_unat [simplified])

lemma length_be_words: "length (be_words bs) = length bs div 4"
  by (induction bs rule: be_words.induct) simp_all

text \<open>The digest of a message that fits one block.\<close>

lemma sha256_block:
  assumes "length m < 56"
    and "map unat (be_words (pad_message m)) = ws"
    and "to_nworking initial_state = i"
    and "nrounds round_constants ws i = s"
    and "ContentHash_fmt (ContentHash (working_bytes (add_working initial_state (of_nworking s)))) = d"
  shows "ContentHash_fmt (ContentHash (sha256 m)) = d"
proof -
  have len: "length (pad_message m) = 64"
    using assms(1) mod_add_self2 [of "55 - length m" 64] by (simp add: pad_message_def)
  have ws: "length ws = 16" "be_words (pad_message m) = map w32 ws" "list_all fits32 ws"
    using assms(2) len by (auto simp: length_be_words comp_def list_all_iff fits_unat [simplified])
  have "rounds round_constants (be_words (pad_message m)) initial_state = of_nworking s"
    using w32_rounds [OF ws(1,3) fits_to_nworking [of initial_state], of round_constants]
    using assms(4) by (simp add: ws(2) of_to_nworking flip: assms(3))
  then show ?thesis
    using assms(5) len ws(1,2) by (simp add: sha256_def Let_def)
qed

lemmas sha256_one_block = sha256_block [unfolded round_constants_def]

lemma replicate_numeral: "replicate (numeral k) x = x # replicate (pred_numeral k) x"
  by (simp add: numeral_eq_Suc)

lemmas block_words = pad_message_def replicate_numeral byte_of_char_def of_char_def
lemmas hex_text = be_bytes32_def fmt_02x_def hex_digit_def

section \<open>Digests\<close>

lemma sha256_empty:
  "ContentHash_fmt (ContentHash (sha256 [])) =
   ''e3b0c44298fc1c149afbf4c8996fb92427ae41e4649b934ca495991b7852b855''"
  by (rule sha256_one_block, simp, simp add: block_words, simp add: initial_state_def,
      (rule nrounds_Cons, simp add: nrotr_def, simp add: nrotr_def nnext_word_def, simp only: append.simps)+,
      rule nrounds_Nil, simp add: initial_state_def hex_text)

lemma sha256_output1:
  "ContentHash_fmt (ContentHash (sha256 (as_bytes ''output1'' @ [10]))) =
   ''063b2c93c3c56028398bfb80b47a235b476a3473d270a909c9a2d7581faa61ce''"
  by (rule sha256_one_block, simp, simp add: block_words, simp add: initial_state_def,
      (rule nrounds_Cons, simp add: nrotr_def, simp add: nrotr_def nnext_word_def, simp only: append.simps)+,
      rule nrounds_Nil, simp add: initial_state_def hex_text)

lemma sha256_output2:
  "ContentHash_fmt (ContentHash (sha256 (as_bytes ''output2'' @ [10]))) =
   ''83e2db4bcc26f97050fea319d160fed0ea7c7decda281abc6670ec5c88390bd9''"
  by (rule sha256_one_block, simp, simp add: block_words, simp add: initial_state_def,
      (rule nrounds_Cons, simp add: nrotr_def, simp add: nrotr_def nnext_word_def, simp only: append.simps)+,
      rule nrounds_Nil, simp add: initial_state_def hex_text)

lemma sha256_out:
  "ContentHash_fmt (ContentHash (sha256 (as_bytes ''out''))) =
   ''762069bc07a6e1b5df123a5ae7bd91c10daa04694fbaa17fba0cd6a8dcce8f22''"
  by (rule sha256_one_block, simp, simp add: block_words, simp add: initial_state_def,
      (rule nrounds_Cons, simp add: nrotr_def, simp add: nrotr_def nnext_word_def, simp only: append.simps)+,
      rule nrounds_Nil, simp add: initial_state_def hex_text)

lemma sha256_outerr:
  "ContentHash_fmt (ContentHash (sha256 (as_bytes ''outerr''))) =
   ''0db14a89d67977799dff485cc6419361e26b4b775037de1377bcf57e2efcf45f''"
  by (rule sha256_one_block, simp, simp add: block_words, simp add: initial_state_def,
      (rule nrounds_Cons, simp add: nrotr_def, simp add: nrotr_def nnext_word_def, simp only: append.simps)+,
      rule nrounds_Nil, simp add: initial_state_def hex_text)

lemma sha256_git_env:
  "ContentHash_fmt (ContentHash (sha256 (as_bytes ''git-env'' @ [10]))) =
   ''3ceeb51d137868b2babb0b1c7ab153cc493b6e2b68e69507afbb416888344da0''"
  by (rule sha256_one_block, simp, simp add: block_words, simp add: initial_state_def,
      (rule nrounds_Cons, simp add: nrotr_def, simp add: nrotr_def nnext_word_def, simp only: append.simps)+,
      rule nrounds_Nil, simp add: initial_state_def hex_text)

end
