(* ===== verification/Forge_Serde.thy ===== *)
theory Forge_Serde
  imports Vm_Types Json
begin

text \<open>
  The implementations of \<open>Serialize\<close> and \<open>Deserialize\<close> that the sources derive, on JSON
  documents. By the rules of \<open>serde_derive\<close> a struct is an object with its fields in order,
  a struct with one unnamed field is that field, a variant without fields is its name and a
  variant with fields an object with one member. Reading a struct accepts an array of the
  fields too, ignores members it does not know, and rejects a field given twice; a missing
  \<open>Option\<close> is \<open>None\<close>. An error is \<open>None\<close>: no code looks into it.

  The texts of UUIDs, of timestamps and of doubles belong to third-party crates and are the
  record \<open>leaf_texts\<close>; the locale \<open>leaf_formats\<close> says that identifiers and timestamps are read
  back. For doubles it does not: \<open>serde_json\<close> promises that only with its feature
  \<open>float_roundtrip\<close>, which this workspace does not enable.
\<close>

section \<open>Leaves\<close>

record leaf_texts =
  uuid_text :: "uuid \<Rightarrow> string"
  uuid_of_text :: "string \<Rightarrow> uuid option"
  time_text :: "datetime \<Rightarrow> string"
  time_of_text :: "string \<Rightarrow> datetime option"
  float_text :: "f64 \<Rightarrow> string"
  float_of_text :: "string \<Rightarrow> f64"

definition f64_finite :: "f64 \<Rightarrow> bool" where
  "f64_finite x = (\<not> is_nan x \<and> \<not> is_infinite x)"

locale leaf_formats =
  fixes L :: leaf_texts
  assumes uuid_reads: "uuid_of_text L (uuid_text L u) = Some u"
    and time_reads: "time_of_text L (time_text L t) = Some t"
    and float_prints: "f64_finite x \<Longrightarrow> float_token (float_text L x)"

fun de_string :: "json \<Rightarrow> string option" where
  "de_string (JStr s) = Some s"
| "de_string _ = None"

text \<open>An unsigned integer of the width of the type; \<open>None\<close> when it does not fit.\<close>

fun de_word :: "json \<Rightarrow> 'a::len word option" where
  "de_word (JNum i) = (if 0 \<le> i \<and> i < 2 ^ LENGTH('a) then Some (of_int i) else None)"
| "de_word _ = None"

definition ser_word :: "'a::len word \<Rightarrow> json" where
  "ser_word w = JNum (uint w)"

fun floor_log2 :: "nat \<Rightarrow> nat" where
  "floor_log2 n = (if n < 2 then 0 else Suc (floor_log2 (n div 2)))"

declare floor_log2.simps [simp del]

text \<open>
  The double nearest to \<open>p / q\<close>, the even one of two: \<open>u\<close> is the exponent of the unit in the
  last place, chosen so that the quotient has 53 bits, or the least exponent there is.
\<close>

definition round_div :: "nat \<Rightarrow> nat \<Rightarrow> nat" where
  "round_div p q =
     (let m = p div q; r = p mod q in if q < 2 * r \<or> (q = 2 * r \<and> odd m) then m + 1 else m)"

definition nearest_f64 :: "nat \<Rightarrow> nat \<Rightarrow> f64" where
  "nearest_f64 p q =
     (let scaled = (\<lambda>u :: int. (p * 2 ^ nat (- u), q * 2 ^ nat u));
          low = max (int (floor_log2 p) - int (floor_log2 q) - 53) (- 1074);
          u = (case scaled low of (a, b) \<Rightarrow> if a div b < 2 ^ 53 then low else low + 1)
      in if p = 0 then 0
         else case scaled u of (a, b) \<Rightarrow> of_nat (nat (u + 1074) * 2 ^ 52 + round_div a b))"

text \<open>\<open>i as f64\<close> for an integer of 64 bits.\<close>

definition f64_of_int :: "int \<Rightarrow> f64" where
  "f64_of_int i = (if i < 0 then nearest_f64 (nat (- i)) 1 + 2 ^ 63 else nearest_f64 (nat i) 1)"

definition ser_f64 :: "leaf_texts \<Rightarrow> f64 \<Rightarrow> json" where
  "ser_f64 L x = (if f64_finite x then JFloat (float_text L x) else JNull)"

fun de_f64 :: "leaf_texts \<Rightarrow> json \<Rightarrow> f64 option" where
  "de_f64 L (JFloat t) = Some (float_of_text L t)"
| "de_f64 L (JNum i) = Some (f64_of_int i)"
| "de_f64 L _ = None"

section \<open>Structs, enums and collections\<close>

text \<open>The arguments of the fields \<open>names\<close>; \<open>None\<close> for a field that is missing.\<close>

fun struct_args :: "string list \<Rightarrow> json \<Rightarrow> json option list option" where
  "struct_args names (JObj kvs) =
     (if \<exists>n \<in> set names. 1 < length (filter (\<lambda>(k, _). k = n) kvs) then None
      else Some (map (map_of kvs) names))"
| "struct_args names (JArr js) = (if length js = length names then Some (map Some js) else None)"
| "struct_args names _ = None"

definition field :: "(json \<Rightarrow> 'a option) \<Rightarrow> json option \<Rightarrow> 'a option" where
  "field de arg = Option.bind arg de"

definition option_field :: "(json \<Rightarrow> 'a option) \<Rightarrow> json option \<Rightarrow> 'a option option" where
  "option_field de arg =
     (case arg of
        None \<Rightarrow> Some None
      | Some j \<Rightarrow> if j = JNull then Some None else map_option Some (de j))"

definition ser_option :: "('a \<Rightarrow> json) \<Rightarrow> 'a option \<Rightarrow> json" where
  "ser_option ser x = (case x of None \<Rightarrow> JNull | Some a \<Rightarrow> ser a)"

fun de_all :: "(json \<Rightarrow> 'a option) \<Rightarrow> json list \<Rightarrow> 'a list option" where
  "de_all de [] = Some []"
| "de_all de (j # js) = Option.bind (de j) (\<lambda>a. map_option ((#) a) (de_all de js))"

definition ser_vec :: "('a \<Rightarrow> json) \<Rightarrow> 'a list \<Rightarrow> json" where
  "ser_vec ser xs = JArr (map ser xs)"

fun de_vec :: "(json \<Rightarrow> 'a option) \<Rightarrow> json \<Rightarrow> 'a list option" where
  "de_vec de (JArr js) = de_all de js"
| "de_vec de _ = None"

text \<open>A variant without fields: its name, or an object that gives it \<open>null\<close>.\<close>

fun unit_variant :: "json \<Rightarrow> string option" where
  "unit_variant (JStr s) = Some s"
| "unit_variant (JObj [(k, JNull)]) = Some k"
| "unit_variant _ = None"

definition de_unit_enum :: "(string \<times> 'a) list \<Rightarrow> json \<Rightarrow> 'a option" where
  "de_unit_enum variants j = Option.bind (unit_variant j) (map_of variants)"

section \<open>Identifiers (\<open>id.rs\<close>)\<close>

definition ser_uuid :: "leaf_texts \<Rightarrow> uuid \<Rightarrow> json" where
  "ser_uuid L u = JStr (uuid_text L u)"

definition de_uuid :: "leaf_texts \<Rightarrow> json \<Rightarrow> uuid option" where
  "de_uuid L j = Option.bind (de_string j) (uuid_of_text L)"

fun BlockId_serialize :: "leaf_texts \<Rightarrow> BlockId \<Rightarrow> json" where
  "BlockId_serialize L (BlockId u) = ser_uuid L u"

definition BlockId_deserialize :: "leaf_texts \<Rightarrow> json \<Rightarrow> BlockId option" where
  "BlockId_deserialize L j = map_option BlockId (de_uuid L j)"

fun ExecutionId_serialize :: "leaf_texts \<Rightarrow> ExecutionId \<Rightarrow> json" where
  "ExecutionId_serialize L (ExecutionId u) = ser_uuid L u"

definition ExecutionId_deserialize :: "leaf_texts \<Rightarrow> json \<Rightarrow> ExecutionId option" where
  "ExecutionId_deserialize L j = map_option ExecutionId (de_uuid L j)"

fun UserId_serialize :: "UserId \<Rightarrow> json" where
  "UserId_serialize (UserId s) = JStr s"

definition UserId_deserialize :: "json \<Rightarrow> UserId option" where
  "UserId_deserialize j = map_option UserId (de_string j)"

fun ContributorId_serialize :: "ContributorId \<Rightarrow> json" where
  "ContributorId_serialize (ContributorId s) = JStr s"

definition ContributorId_deserialize :: "json \<Rightarrow> ContributorId option" where
  "ContributorId_deserialize j = map_option ContributorId (de_string j)"

fun SnapshotId_serialize :: "leaf_texts \<Rightarrow> SnapshotId \<Rightarrow> json" where
  "SnapshotId_serialize L (SnapshotId u) = ser_uuid L u"

definition SnapshotId_deserialize :: "leaf_texts \<Rightarrow> json \<Rightarrow> SnapshotId option" where
  "SnapshotId_deserialize L j = map_option SnapshotId (de_uuid L j)"

fun DerivationHash_serialize :: "DerivationHash \<Rightarrow> json" where
  "DerivationHash_serialize (DerivationHash s) = JStr s"

definition DerivationHash_deserialize :: "json \<Rightarrow> DerivationHash option" where
  "DerivationHash_deserialize j = map_option DerivationHash (de_string j)"

text \<open>An array of 32 bytes is written as an array of numbers and read only with 32 of them.\<close>

fun ContentHash_serialize :: "ContentHash \<Rightarrow> json" where
  "ContentHash_serialize (ContentHash bytes) = ser_vec ser_word bytes"

definition ContentHash_deserialize :: "json \<Rightarrow> ContentHash option" where
  "ContentHash_deserialize j =
     Option.bind (de_vec de_word j) (\<lambda>bytes. if length bytes = 32 then Some (ContentHash bytes) else None)"

section \<open>Versions and trust (\<open>trust.rs\<close>)\<close>

definition SemVer_serialize :: "SemVer \<Rightarrow> json" where
  "SemVer_serialize v =
     JObj [(''major'', ser_word (major v)), (''minor'', ser_word (minor v)), (''patch'', ser_word (patch v))]"

definition SemVer_deserialize :: "json \<Rightarrow> SemVer option" where
  "SemVer_deserialize j =
     (case struct_args [''major'', ''minor'', ''patch''] j of
        Some [a, b, c] \<Rightarrow>
          Option.bind (field de_word a) (\<lambda>a. Option.bind (field de_word b) (\<lambda>b. Option.bind (field de_word c) (\<lambda>c.
          Some \<lparr>major = a, minor = b, patch = c\<rparr>)))
      | _ \<Rightarrow> None)"

fun TrustLevel_serialize :: "TrustLevel \<Rightarrow> json" where
  "TrustLevel_serialize Zero = JStr ''Zero''"
| "TrustLevel_serialize One = JStr ''One''"
| "TrustLevel_serialize Two = JStr ''Two''"
| "TrustLevel_serialize Three = JStr ''Three''"

definition TrustLevel_deserialize :: "json \<Rightarrow> TrustLevel option" where
  "TrustLevel_deserialize = de_unit_enum [(''Zero'', Zero), (''One'', One), (''Two'', Two), (''Three'', Three)]"

text \<open>The derived implementation reads the number and does not call \<open>TrustScore::new\<close>.\<close>

fun TrustScore_serialize :: "leaf_texts \<Rightarrow> TrustScore \<Rightarrow> json" where
  "TrustScore_serialize L (TrustScore x) = ser_f64 L x"

definition TrustScore_deserialize :: "leaf_texts \<Rightarrow> json \<Rightarrow> TrustScore option" where
  "TrustScore_deserialize L j = map_option TrustScore (de_f64 L j)"

section \<open>Blocks (\<open>block.rs\<close>)\<close>

fun DependencyKind_serialize :: "DependencyKind \<Rightarrow> json" where
  "DependencyKind_serialize Runtime = JStr ''Runtime''"
| "DependencyKind_serialize Build = JStr ''Build''"

definition DependencyKind_deserialize :: "json \<Rightarrow> DependencyKind option" where
  "DependencyKind_deserialize = de_unit_enum [(''Runtime'', Runtime), (''Build'', Build)]"

fun CognitiveLoad_serialize :: "CognitiveLoad \<Rightarrow> json" where
  "CognitiveLoad_serialize Low = JStr ''Low''"
| "CognitiveLoad_serialize Medium = JStr ''Medium''"
| "CognitiveLoad_serialize High = JStr ''High''"

definition CognitiveLoad_deserialize :: "json \<Rightarrow> CognitiveLoad option" where
  "CognitiveLoad_deserialize = de_unit_enum [(''Low'', Low), (''Medium'', Medium), (''High'', High)]"

definition Dependency_serialize :: "Dependency \<Rightarrow> json" where
  "Dependency_serialize d =
     JObj [(''name'', JStr (dep_name d)), (''version_req'', JStr (version_req d)),
           (''kind'', DependencyKind_serialize (dep_kind d))]"

definition Dependency_deserialize :: "json \<Rightarrow> Dependency option" where
  "Dependency_deserialize j =
     (case struct_args [''name'', ''version_req'', ''kind''] j of
        Some [a, b, c] \<Rightarrow>
          Option.bind (field de_string a) (\<lambda>a. Option.bind (field de_string b) (\<lambda>b.
          Option.bind (field DependencyKind_deserialize c) (\<lambda>c.
          Some \<lparr>dep_name = a, version_req = b, dep_kind = c\<rparr>)))
      | _ \<Rightarrow> None)"

definition Capability_serialize :: "Capability \<Rightarrow> json" where
  "Capability_serialize c =
     JObj [(''name'', JStr (cap_name c)), (''version'', SemVer_serialize (cap_version c))]"

definition Capability_deserialize :: "json \<Rightarrow> Capability option" where
  "Capability_deserialize j =
     (case struct_args [''name'', ''version''] j of
        Some [a, b] \<Rightarrow>
          Option.bind (field de_string a) (\<lambda>a. Option.bind (field SemVer_deserialize b) (\<lambda>b.
          Some \<lparr>cap_name = a, cap_version = b\<rparr>))
      | _ \<Rightarrow> None)"

definition BlockManifest_serialize :: "BlockManifest \<Rightarrow> json" where
  "BlockManifest_serialize m =
     JObj [(''name'', JStr (man_name m)), (''version'', SemVer_serialize (man_version m)),
           (''description'', JStr (description m)), (''requires'', ser_vec Dependency_serialize (requires m)),
           (''provides'', ser_vec Capability_serialize (provides m)),
           (''cognitive_load'', CognitiveLoad_serialize (cognitive_load m)),
           (''minimum_trust_level'', TrustLevel_serialize (minimum_trust_level m))]"

definition BlockManifest_deserialize :: "json \<Rightarrow> BlockManifest option" where
  "BlockManifest_deserialize j =
     (case struct_args [''name'', ''version'', ''description'', ''requires'', ''provides'', ''cognitive_load'',
             ''minimum_trust_level''] j of
        Some [a, b, c, d, e, f, g] \<Rightarrow>
          Option.bind (field de_string a) (\<lambda>a. Option.bind (field SemVer_deserialize b) (\<lambda>b.
          Option.bind (field de_string c) (\<lambda>c.
          Option.bind (field (de_vec Dependency_deserialize) d) (\<lambda>d.
          Option.bind (field (de_vec Capability_deserialize) e) (\<lambda>e.
          Option.bind (field CognitiveLoad_deserialize f) (\<lambda>f.
          Option.bind (field TrustLevel_deserialize g) (\<lambda>g.
          Some \<lparr>man_name = a, man_version = b, description = c, requires = d, provides = e,
                cognitive_load = f, minimum_trust_level = g\<rparr>)))))))
      | _ \<Rightarrow> None)"

definition ser_time :: "leaf_texts \<Rightarrow> datetime \<Rightarrow> json" where
  "ser_time L t = JStr (time_text L t)"

definition de_time :: "leaf_texts \<Rightarrow> json \<Rightarrow> datetime option" where
  "de_time L j = Option.bind (de_string j) (time_of_text L)"

definition Block_serialize :: "leaf_texts \<Rightarrow> Block \<Rightarrow> json" where
  "Block_serialize L b =
     JObj [(''id'', BlockId_serialize L (block_id b)), (''manifest'', BlockManifest_serialize (manifest b)),
           (''composed_of'', ser_option (ser_vec (BlockId_serialize L)) (composed_of b)),
           (''trust_score'', TrustScore_serialize L (trust_score b)),
           (''author'', ContributorId_serialize (author b)),
           (''nix_derivation'', DerivationHash_serialize (nix_derivation b)),
           (''created_at'', ser_time L (created_at b)), (''updated_at'', ser_time L (updated_at b))]"

definition Block_deserialize :: "leaf_texts \<Rightarrow> json \<Rightarrow> Block option" where
  "Block_deserialize L j =
     (case struct_args [''id'', ''manifest'', ''composed_of'', ''trust_score'', ''author'', ''nix_derivation'',
             ''created_at'', ''updated_at''] j of
        Some [a, b, c, d, e, f, g, h] \<Rightarrow>
          Option.bind (field (BlockId_deserialize L) a) (\<lambda>a.
          Option.bind (field BlockManifest_deserialize b) (\<lambda>b.
          Option.bind (option_field (de_vec (BlockId_deserialize L)) c) (\<lambda>c.
          Option.bind (field (TrustScore_deserialize L) d) (\<lambda>d.
          Option.bind (field ContributorId_deserialize e) (\<lambda>e.
          Option.bind (field DerivationHash_deserialize f) (\<lambda>f.
          Option.bind (field (de_time L) g) (\<lambda>g. Option.bind (field (de_time L) h) (\<lambda>h.
          Some \<lparr>block_id = a, manifest = b, composed_of = c, trust_score = d, author = e,
                nix_derivation = f, created_at = g, updated_at = h\<rparr>))))))))
      | _ \<Rightarrow> None)"

section \<open>Execution records (\<open>execution.rs\<close>)\<close>

text \<open>
  \<open>Duration\<close> is an object of whole seconds and nanoseconds; reading carries nanoseconds
  over a second into the seconds and fails when those overflow 64 bits.
\<close>

definition ser_duration :: "duration \<Rightarrow> json" where
  "ser_duration d = JObj [(''secs'', JNum (int (as_secs d))), (''nanos'', JNum (int (d mod 1000000000)))]"

definition de_duration :: "json \<Rightarrow> duration option" where
  "de_duration j =
     (case struct_args [''secs'', ''nanos''] j of
        Some [a, b] \<Rightarrow>
          Option.bind (field de_word a) (\<lambda>secs. Option.bind (field de_word b) (\<lambda>nanos.
          let d = unat (secs :: u64) * 1000000000 + unat (nanos :: u32)
          in if as_secs d < 2 ^ 64 then Some d else None))
      | _ \<Rightarrow> None)"

fun ExecutionStatus_serialize :: "ExecutionStatus \<Rightarrow> json" where
  "ExecutionStatus_serialize Pending = JStr ''Pending''"
| "ExecutionStatus_serialize Running = JStr ''Running''"
| "ExecutionStatus_serialize Succeeded = JStr ''Succeeded''"
| "ExecutionStatus_serialize (Failed reason) = JObj [(''Failed'', JObj [(''reason'', JStr reason)])]"

definition ExecutionStatus_deserialize :: "json \<Rightarrow> ExecutionStatus option" where
  "ExecutionStatus_deserialize j =
     (case j of
        JObj [(k, v)] \<Rightarrow>
          if k = ''Failed'' then
            (case struct_args [''reason''] v of
               Some [a] \<Rightarrow> map_option Failed (field de_string a)
             | _ \<Rightarrow> None)
          else de_unit_enum [(''Pending'', Pending), (''Running'', Running), (''Succeeded'', Succeeded)] j
      | _ \<Rightarrow> de_unit_enum [(''Pending'', Pending), (''Running'', Running), (''Succeeded'', Succeeded)] j)"

definition ExecutionRecord_serialize :: "leaf_texts \<Rightarrow> ExecutionRecord \<Rightarrow> json" where
  "ExecutionRecord_serialize L r =
     JObj [(''id'', ExecutionId_serialize L (rec_id r)), (''block_id'', BlockId_serialize L (rec_block_id r)),
           (''user_id'', UserId_serialize (user_id r)), (''input_hash'', ContentHash_serialize (input_hash r)),
           (''output_hash'', ContentHash_serialize (output_hash r)), (''started_at'', ser_time L (started_at r)),
           (''duration'', ser_duration (rec_duration r)),
           (''vm_snapshot_id'', ser_option (SnapshotId_serialize L) (vm_snapshot_id r)),
           (''status'', ExecutionStatus_serialize (status r))]"

definition ExecutionRecord_deserialize :: "leaf_texts \<Rightarrow> json \<Rightarrow> ExecutionRecord option" where
  "ExecutionRecord_deserialize L j =
     (case struct_args [''id'', ''block_id'', ''user_id'', ''input_hash'', ''output_hash'', ''started_at'', ''duration'',
             ''vm_snapshot_id'', ''status''] j of
        Some [a, b, c, d, e, f, g, h, i] \<Rightarrow>
          Option.bind (field (ExecutionId_deserialize L) a) (\<lambda>a.
          Option.bind (field (BlockId_deserialize L) b) (\<lambda>b.
          Option.bind (field UserId_deserialize c) (\<lambda>c.
          Option.bind (field ContentHash_deserialize d) (\<lambda>d. Option.bind (field ContentHash_deserialize e) (\<lambda>e.
          Option.bind (field (de_time L) f) (\<lambda>f. Option.bind (field de_duration g) (\<lambda>g.
          Option.bind (option_field (SnapshotId_deserialize L) h) (\<lambda>h.
          Option.bind (field ExecutionStatus_deserialize i) (\<lambda>i.
          Some \<lparr>rec_id = a, rec_block_id = b, user_id = c, input_hash = d, output_hash = e, started_at = f,
                rec_duration = g, vm_snapshot_id = h, status = i\<rparr>)))))))))
      | _ \<Rightarrow> None)"

section \<open>Executor configuration (\<open>config.rs\<close>)\<close>

definition VmConfig_serialize :: "VmConfig \<Rightarrow> json" where
  "VmConfig_serialize c =
     JObj [(''kernel_path'', JStr (kernel_path c)), (''rootfs_path'', JStr (rootfs_path c)),
           (''vcpu_count'', ser_word (vcpu_count c)), (''mem_size_mib'', ser_word (mem_size_mib c)),
           (''boot_args'', JStr (boot_args c))]"

definition VmConfig_deserialize :: "json \<Rightarrow> VmConfig option" where
  "VmConfig_deserialize j =
     (case struct_args [''kernel_path'', ''rootfs_path'', ''vcpu_count'', ''mem_size_mib'', ''boot_args''] j of
        Some [a, b, c, d, e] \<Rightarrow>
          Option.bind (field de_string a) (\<lambda>a. Option.bind (field de_string b) (\<lambda>b.
          Option.bind (field de_word c) (\<lambda>c. Option.bind (field de_word d) (\<lambda>d.
          Option.bind (field de_string e) (\<lambda>e.
          Some \<lparr>kernel_path = a, rootfs_path = b, vcpu_count = c, mem_size_mib = d, boot_args = e\<rparr>)))))
      | _ \<Rightarrow> None)"

fun VmSnapshotId_serialize :: "leaf_texts \<Rightarrow> VmSnapshotId \<Rightarrow> json" where
  "VmSnapshotId_serialize L (VmSnapshotId u) = ser_uuid L u"

definition VmSnapshotId_deserialize :: "leaf_texts \<Rightarrow> json \<Rightarrow> VmSnapshotId option" where
  "VmSnapshotId_deserialize L j = map_option VmSnapshotId (de_uuid L j)"

section \<open>What is written is read back\<close>

lemma distinct_key_once: "distinct (map fst kvs) \<Longrightarrow> length (filter (\<lambda>(k, _). k = n) kvs) \<le> 1"
proof (induction kvs)
  case (Cons kv kvs)
  then have "fst kv = n \<Longrightarrow> filter (\<lambda>(k, _). k = n) kvs = []" by (auto simp: filter_empty_conv) (metis fst_conv image_eqI)
  with Cons show ?case by (cases kv) auto
qed simp

lemma struct_args_object:
  assumes "map fst kvs = names" and "distinct names"
  shows "struct_args names (JObj kvs) = Some (map (\<lambda>(_, j). Some j) kvs)"
proof -
  have "map (map_of kvs) (map fst kvs) = map (\<lambda>(_, j). Some j) kvs"
    using assms by auto
  then show ?thesis using assms distinct_key_once [of kvs] by (auto simp: not_less)
qed

lemma field_Some [simp]: "field de (Some j) = de j"
  by (simp add: field_def)

lemma field_missing [simp]: "field de None = None"
  by (simp add: field_def)

lemma de_ser_word [simp]: "de_word (ser_word w) = Some w"
  using uint_bounded [of w] by (simp add: ser_word_def)

lemma de_all_map: "(\<And>x. x \<in> set xs \<Longrightarrow> de (ser x) = Some x) \<Longrightarrow> de_all de (map ser xs) = Some xs"
  by (induction xs) simp_all

lemma de_ser_vec: "(\<And>x. de (ser x) = Some x) \<Longrightarrow> de_vec de (ser_vec ser xs) = Some xs"
  by (simp add: ser_vec_def de_all_map)

lemma option_field_ser:
  assumes "\<And>x. de (ser x) = Some x" and "\<And>x. ser x \<noteq> JNull"
  shows "option_field de (Some (ser_option ser x)) = Some x"
  using assms by (cases x) (simp_all add: option_field_def ser_option_def)

lemmas serde_defs = UserId_deserialize_def ContributorId_deserialize_def DerivationHash_deserialize_def
  ContentHash_deserialize_def TrustLevel_deserialize_def DependencyKind_deserialize_def
  CognitiveLoad_deserialize_def de_unit_enum_def BlockId_deserialize_def ExecutionId_deserialize_def
  SnapshotId_deserialize_def VmSnapshotId_deserialize_def

lemma text_ids_read_back [simp]:
  "UserId_deserialize (UserId_serialize u) = Some u"
  "ContributorId_deserialize (ContributorId_serialize c) = Some c"
  "DerivationHash_deserialize (DerivationHash_serialize d) = Some d"
  by (cases u, simp add: serde_defs) (cases c, simp add: serde_defs, cases d, simp add: serde_defs)

lemma ContentHash_reads_back [simp]:
  "wf_ContentHash h \<Longrightarrow> ContentHash_deserialize (ContentHash_serialize h) = Some h"
  by (cases h) (simp add: serde_defs de_ser_vec wf_ContentHash_def)

lemma enums_read_back [simp]:
  "TrustLevel_deserialize (TrustLevel_serialize t) = Some t"
  "DependencyKind_deserialize (DependencyKind_serialize k) = Some k"
  "CognitiveLoad_deserialize (CognitiveLoad_serialize l) = Some l"
  by (cases t, simp_all add: serde_defs) (cases k, simp_all add: serde_defs, cases l, simp_all add: serde_defs)

lemma SemVer_reads_back [simp]: "SemVer_deserialize (SemVer_serialize v) = Some v"
  by (simp add: SemVer_deserialize_def SemVer_serialize_def struct_args_object)

lemma Dependency_reads_back [simp]: "Dependency_deserialize (Dependency_serialize d) = Some d"
  by (simp add: Dependency_deserialize_def Dependency_serialize_def struct_args_object)

lemma Capability_reads_back [simp]: "Capability_deserialize (Capability_serialize c) = Some c"
  by (simp add: Capability_deserialize_def Capability_serialize_def struct_args_object)

lemma BlockManifest_reads_back [simp]: "BlockManifest_deserialize (BlockManifest_serialize m) = Some m"
  by (simp add: BlockManifest_deserialize_def BlockManifest_serialize_def struct_args_object de_ser_vec)

lemma VmConfig_reads_back [simp]: "VmConfig_deserialize (VmConfig_serialize c) = Some c"
  by (simp add: VmConfig_deserialize_def VmConfig_serialize_def struct_args_object)

lemma ExecutionStatus_reads_back [simp]: "ExecutionStatus_deserialize (ExecutionStatus_serialize st) = Some st"
  by (cases st) (simp_all add: ExecutionStatus_deserialize_def struct_args_object de_unit_enum_def)

lemma de_word_nat:
  assumes "n < 2 ^ LENGTH('a)"
  shows "de_word (JNum (int n)) = Some (of_nat n :: 'a::len word)" "unat (of_nat n :: 'a word) = n"
proof -
  have "int n < 2 ^ LENGTH('a)" using assms by (metis of_nat_less_iff of_nat_numeral of_nat_power)
  then show "de_word (JNum (int n)) = Some (of_nat n :: 'a word)" by simp
  show "unat (of_nat n :: 'a word) = n" using assms by (simp add: unat_of_nat take_bit_nat_eq_self)
qed

lemma duration_reads_back [simp]:
  assumes "as_secs d < 2 ^ 64"
  shows "de_duration (ser_duration d) = Some d"
proof -
  have nanos: "d mod 1000000000 < 2 ^ 32" by (rule less_trans [of _ 1000000000]) simp_all
  have "as_secs d * 1000000000 + d mod 1000000000 = d" by (simp add: as_secs_def)
  then show ?thesis
    using assms de_word_nat [where ?'a = 64, of "as_secs d"] de_word_nat [where ?'a = 32, of "d mod 1000000000"] nanos
    by (simp add: de_duration_def ser_duration_def struct_args_object Let_def del: de_word.simps)
qed

context leaf_formats
begin

lemma de_ser_uuid [simp]: "de_uuid L (ser_uuid L u) = Some u"
  by (simp add: de_uuid_def ser_uuid_def uuid_reads)

lemma de_ser_time [simp]: "de_time L (ser_time L t) = Some t"
  by (simp add: de_time_def ser_time_def time_reads)

lemma uuid_ids_read_back [simp]:
  "BlockId_deserialize L (BlockId_serialize L b) = Some b"
  "ExecutionId_deserialize L (ExecutionId_serialize L e) = Some e"
  "SnapshotId_deserialize L (SnapshotId_serialize L s) = Some s"
  "VmSnapshotId_deserialize L (VmSnapshotId_serialize L v) = Some v"
  by (cases b, simp add: serde_defs) (cases e, simp add: serde_defs, cases s, simp add: serde_defs,
      cases v, simp add: serde_defs)

lemma option_fields_read_back [simp]:
  "option_field (de_vec (BlockId_deserialize L)) (Some (ser_option (ser_vec (BlockId_serialize L)) bs)) = Some bs"
  "option_field (SnapshotId_deserialize L) (Some (ser_option (SnapshotId_serialize L) sn)) = Some sn"
proof -
  have "SnapshotId_serialize L x \<noteq> JNull" for x by (cases x) (simp add: ser_uuid_def)
  then show "option_field (SnapshotId_deserialize L) (Some (ser_option (SnapshotId_serialize L) sn)) = Some sn"
    by (simp add: option_field_ser)
qed (simp add: option_field_ser de_ser_vec ser_vec_def de_all_map)

lemma ExecutionRecord_reads_back:
  assumes "wf_ContentHash (input_hash r)" and "wf_ContentHash (output_hash r)" and "as_secs (rec_duration r) < 2 ^ 64"
  shows "ExecutionRecord_deserialize L (ExecutionRecord_serialize L r) = Some r"
  using assms by (simp add: ExecutionRecord_deserialize_def ExecutionRecord_serialize_def struct_args_object)

lemma TrustScore_reads_back:
  "f64_finite x \<Longrightarrow> TrustScore_deserialize L (TrustScore_serialize L (TrustScore x))
     = Some (TrustScore (float_of_text L (float_text L x)))"
  by (simp add: TrustScore_deserialize_def ser_f64_def)

lemma Block_reads_back:
  assumes "f64_finite (TrustScore_value (trust_score b))"
  shows "Block_deserialize L (Block_serialize L b) =
    Some (b\<lparr>trust_score := TrustScore (float_of_text L (float_text L (TrustScore_value (trust_score b))))\<rparr>)"
  using assms TrustScore_reads_back [of "TrustScore_value (trust_score b)"]
  by (cases "trust_score b") (simp add: Block_deserialize_def Block_serialize_def struct_args_object)

end

section \<open>Through text\<close>

text \<open>Documents that \<open>serde_json\<close> reads back, nested at most \<open>k\<close> deep.\<close>

definition nests :: "nat \<Rightarrow> json \<Rightarrow> bool" where
  "nests k j = (json_ok j \<and> json_depth j \<le> k)"

lemma foldr_max_le: "foldr max (map f xs) 0 \<le> (k :: nat) \<longleftrightarrow> (\<forall>x \<in> set xs. f x \<le> k)"
  by (induction xs) auto

lemma nests_simps [simp]:
  "nests k JNull" "nests k (JBool b)" "nests k (JStr s)"
  "nests k (JNum i) \<longleftrightarrow> - (2 ^ 63) \<le> i \<and> i < 2 ^ 64" "nests k (JFloat t) \<longleftrightarrow> float_token t"
  "nests (Suc k) (JArr js) \<longleftrightarrow> list_all (nests k) js"
  "nests (Suc k) (JObj kvs) \<longleftrightarrow> list_all (\<lambda>(_, j). nests k j) kvs"
  by (auto simp: nests_def list_all_iff foldr_max_le)

lemma nests_word [simp]: "nests k (ser_word (w :: 'a::len word))" if "LENGTH('a) \<le> 64"
proof -
  have "uint w < 2 ^ LENGTH('a)" by (rule uint_bounded)
  also have "\<dots> \<le> 2 ^ 64" using that by (intro power_increasing) simp_all
  finally show ?thesis using order_trans [OF _ uint_ge_0 [of w], of "- 9223372036854775808"] by (simp add: ser_word_def)
qed

lemma nests_vec [simp]: "nests (Suc k) (ser_vec ser xs) \<longleftrightarrow> (\<forall>x \<in> set xs. nests k (ser x))"
  by (simp add: ser_vec_def list_all_iff)

lemma nests_option [simp]: "nests k (ser_option ser x) \<longleftrightarrow> (\<forall>a. x = Some a \<longrightarrow> nests k (ser a))"
  by (cases x) (simp_all add: ser_option_def)

lemma nests_leaves [simp]:
  "nests k (ser_uuid L u)" "nests k (ser_time L t)" "nests k (BlockId_serialize L bid)"
  "nests k (ExecutionId_serialize L eid)" "nests k (SnapshotId_serialize L sid)"
  "nests k (VmSnapshotId_serialize L vid)" "nests k (UserId_serialize uid)"
  "nests k (ContributorId_serialize cid)" "nests k (DerivationHash_serialize dh)"
  by (simp add: ser_uuid_def, simp add: ser_time_def, cases bid, simp add: ser_uuid_def, cases eid, simp add: ser_uuid_def,
      cases sid, simp add: ser_uuid_def, cases vid, simp add: ser_uuid_def, cases uid, simp, cases cid, simp, cases dh, simp)

lemma nests_enums [simp]:
  "nests k (TrustLevel_serialize t)" "nests k (DependencyKind_serialize dk)" "nests k (CognitiveLoad_serialize l)"
  by (cases t, simp_all) (cases dk, simp_all, cases l, simp_all)

lemma nests_structs [simp]:
  "nests (Suc k) (SemVer_serialize v)" "nests (Suc k) (Dependency_serialize d)"
  "nests (Suc (Suc k)) (Capability_serialize c)" "nests (Suc k) (VmConfig_serialize cfg)"
  by (simp_all add: SemVer_serialize_def Dependency_serialize_def Capability_serialize_def VmConfig_serialize_def)

lemma nests_manifest [simp]: "nests (Suc (Suc (Suc (Suc k)))) (BlockManifest_serialize m)"
  by (simp add: BlockManifest_serialize_def)

lemma nests_record_fields [simp]:
  "nests (Suc k) (ContentHash_serialize ch)" "nests (Suc (Suc k)) (ExecutionStatus_serialize st)"
  by (cases ch, simp) (cases st, simp_all)

lemma nests_duration [simp]:
  assumes "as_secs d < 2 ^ 64"
  shows "nests (Suc k) (ser_duration d)"
  using assms less_trans [of "d mod 1000000000" 1000000000 "2 ^ 64"]
  by (simp add: ser_duration_def flip: of_nat_mod)

text \<open>\<open>serde_json::from_str\<close> for a type: the text is read and the document turned into a value.\<close>

definition from_str :: "(string \<Rightarrow> json option) \<Rightarrow> (json \<Rightarrow> 'a option) \<Rightarrow> string \<Rightarrow> 'a option" where
  "from_str from_text de s = Option.bind (from_text s) de"

locale serde_texts = serde_json to_text from_text + leaf_formats L
  for to_text :: "json \<Rightarrow> string" and from_text :: "string \<Rightarrow> json option" and L :: leaf_texts
begin

lemma from_str_text: "nests 127 j \<Longrightarrow> from_str from_text de (to_text j) = de j"
  using text_roundtrip [of j] by (simp add: from_str_def nests_def)

lemma nests_score: "f64_finite (TrustScore_value s) \<Longrightarrow> nests k (TrustScore_serialize L s)"
  by (cases s) (simp add: ser_f64_def float_prints)

lemma VmConfig_text: "from_str from_text VmConfig_deserialize (to_text (VmConfig_serialize c)) = Some c"
  by (subst from_str_text) (simp_all add: numeral_eq_Suc)

lemma ExecutionRecord_text:
  assumes "wf_ContentHash (input_hash r)" and "wf_ContentHash (output_hash r)" and "as_secs (rec_duration r) < 2 ^ 64"
  shows "from_str from_text (ExecutionRecord_deserialize L) (to_text (ExecutionRecord_serialize L r)) = Some r"
proof (subst from_str_text)
  have "nests (Suc (Suc (Suc k))) (ExecutionRecord_serialize L r)" for k
    using assms(3) by (simp add: ExecutionRecord_serialize_def)
  from this [of 124] show "nests 127 (ExecutionRecord_serialize L r)" by simp
qed (rule ExecutionRecord_reads_back [OF assms])

lemma Block_text:
  assumes "f64_finite (TrustScore_value (trust_score b))"
  shows "from_str from_text (Block_deserialize L) (to_text (Block_serialize L b)) =
    Some (b\<lparr>trust_score := TrustScore (float_of_text L (float_text L (TrustScore_value (trust_score b))))\<rparr>)"
proof (subst from_str_text)
  have "nests (Suc (Suc (Suc (Suc (Suc k))))) (Block_serialize L b)" for k
    using nests_score [OF assms] by (simp add: Block_serialize_def)
  from this [of 122] show "nests 127 (Block_serialize L b)" by simp
qed (rule Block_reads_back [OF assms])

lemma ContentHash_through_text:
  assumes "wf_ContentHash h"
  shows "from_str from_text ContentHash_deserialize (to_text (ContentHash_serialize h)) = Some h"
proof (subst from_str_text)
  show "nests 127 (ContentHash_serialize h)" using nests_record_fields(1) [of 126 h] by simp
qed (simp add: assms)

end

end
