(* ===== verification/Serde_Reference.thy ===== *)
theory Serde_Reference
  imports Forge_Serde Simulation Rust_Float
begin

text \<open>
  Texts that meet the contract of \<open>leaf_formats\<close>: the hyphenated form of a UUID, a decimal
  count of nanoseconds for a timestamp, and the shortest digits of a double in scientific
  notation, read with correct rounding.
\<close>

section \<open>Identifiers\<close>

fun hex_number :: "nat \<Rightarrow> string \<Rightarrow> nat option" where
  "hex_number a [] = Some a"
| "hex_number a (c # cs) = Option.bind (hex_value c) (\<lambda>d. hex_number (a * 16 + d) cs)"

definition uuid_of_hyphenated :: "string \<Rightarrow> uuid option" where
  "uuid_of_hyphenated s =
     (let ds = filter (\<lambda>c. c \<noteq> CHR ''-'') s
      in if length ds = 32 \<and> length s = 36 then map_option of_nat (hex_number 0 ds) else None)"

lemma hex_number_append: "hex_number a (s @ t) = Option.bind (hex_number a s) (\<lambda>b. hex_number b t)"
  by (induction s arbitrary: a) (simp_all add: Option.bind_assoc)

lemma hex_number_nibbles: "hex_number 0 (nibbles k n) = Some (n mod 16 ^ k)"
proof (induction k arbitrary: n)
  case (Suc k)
  have "n mod 16 ^ Suc k = n div 16 mod 16 ^ k * 16 + n mod 16"
    using mod_mult2_eq [of n 16 "16 ^ k"] by (simp add: mult.commute)
  with Suc show ?case by (simp add: hex_number_append hex_value_digit)
qed simp

lemma nibbles_not_dash: "c \<in> set (nibbles k n) \<Longrightarrow> c \<noteq> CHR ''-''"
proof (induction k arbitrary: n)
  case (Suc k)
  have "hex_digit (n mod 16) \<in> set ''0123456789abcdef''" by (rule hex_digit_in) simp
  then have "hex_digit (n mod 16) \<noteq> CHR ''-''" by auto
  with Suc show ?case by auto
qed simp

lemma drop_groups:
  "take 8 s @ take 4 (drop 8 s) @ take 4 (drop 12 s) @ take 4 (drop 16 s) @ drop 20 s = (s :: string)"
proof -
  have "take n (drop m s) @ drop (m + n) s = drop m s" for n m
    by (metis add.commute append_take_drop_id drop_drop)
  from this [of 4 8] this [of 4 12] this [of 4 16] show ?thesis by simp
qed

lemma uuid_of_hyphenated_text: "uuid_of_hyphenated (uuid_hyphenated u) = Some u"
proof -
  let ?s = "nibbles 32 (unat u)"
  have keep: "filter (\<lambda>c. c \<noteq> CHR ''-'') t = t" if "set t \<subseteq> set ?s" for t
    using that nibbles_not_dash by (auto simp: filter_id_conv)
  have "filter (\<lambda>c. c \<noteq> CHR ''-'') (uuid_hyphenated u)
    = take 8 ?s @ take 4 (drop 8 ?s) @ take 4 (drop 12 ?s) @ take 4 (drop 16 ?s) @ drop 20 ?s"
    by (simp add: uuid_hyphenated_def Let_def keep set_take_subset set_drop_subset
        order_trans [OF set_take_subset set_drop_subset])
  then have digits: "filter (\<lambda>c. c \<noteq> CHR ''-'') (uuid_hyphenated u) = ?s" by (simp only: drop_groups)
  have "unat u < 16 ^ 32" using unsigned_less [of u] by simp
  then have "hex_number 0 ?s = Some (unat u)" by (simp only: hex_number_nibbles mod_less)
  moreover have "length (uuid_hyphenated u) = 36" by (simp add: uuid_hyphenated_def Let_def)
  ultimately show ?thesis by (simp add: uuid_of_hyphenated_def digits)
qed

section \<open>Doubles\<close>

definition scientific :: "f64 \<Rightarrow> string" where
  "scientific v =
     (if f64_sign v then ''-'' else '''') @
     (if f64_magnitude v = 0 then ''0e0''
      else case format_shortest (f64_decode v) of Some (m, e) \<Rightarrow> show_nat m @ ''e'' @ show_int e | None \<Rightarrow> [])"

definition read_float :: "string \<Rightarrow> f64" where
  "read_float t =
     (let neg = (take 1 t = ''-''); u = (if neg then drop 1 t else t);
          whole = takeWhile is_digit u; r = dropWhile is_digit u;
          frac = (if take 1 r = ''.'' then takeWhile is_digit (drop 1 r) else []);
          rest = (if take 1 r = ''.'' then dropWhile is_digit (drop 1 r) else r);
          e = (case i32_literal (drop 1 rest) of Some i \<Rightarrow> i | None \<Rightarrow> 0) - int (length frac);
          m = nat (dec_value 0 (whole @ frac));
          x = nearest_f64 (m * 10 ^ nat e) (10 ^ nat (- e))
      in if neg then x + 2 ^ 63 else x)"

lemma e_not_digit: "\<not> is_digit (CHR ''e'')"
  by (simp add: is_digit_def to_digit_def)

lemma digits_then_e:
  "takeWhile is_digit (show_nat m @ CHR ''e'' # r) = show_nat m"
  "dropWhile is_digit (show_nat m @ CHR ''e'' # r) = CHR ''e'' # r"
proof -
  from e_not_digit show_nat_digits [of m] show "takeWhile is_digit (show_nat m @ CHR ''e'' # r) = show_nat m"
    "dropWhile is_digit (show_nat m @ CHR ''e'' # r) = CHR ''e'' # r"
    by (auto simp: list_all_iff takeWhile_append dropWhile_append)
qed

lemma exponent_show_int: "exponent_part (CHR ''e'' # show_int e)"
proof (cases "e < 0")
  case True
  then show ?thesis using show_nat_digits by (simp add: exponent_part_def show_int_def digits1_def)
next
  case False
  obtain c cs where "show_nat (nat e) = c # cs" "is_digit c" "list_all is_digit cs" using show_nat_Cons by blast
  with False show ?thesis using digit_not_sign [of c] by (simp add: exponent_part_def show_int_def digits1_def)
qed

lemma scientific_token: "float_token ((if neg then ''-'' else '''') @ show_nat m @ ''e'' @ show_int e)"
proof -
  let ?u = "show_nat m @ CHR ''e'' # show_int e"
  obtain c cs where "show_nat m = c # cs" "is_digit c" using show_nat_Cons by blast
  then have "c \<noteq> CHR ''-''" "?u = c # cs @ CHR ''e'' # show_int e" using digit_not_sign [of c] by simp_all
  moreover have "hd (show_nat m) = CHR ''0'' \<Longrightarrow> length (show_nat m) = 1"
    using int_token_show_nat [of m] by (simp add: int_token_def)
  ultimately have "float_token ?u" "float_token (CHR ''-'' # ?u)"
    using digits_then_e [of m "show_int e"] exponent_show_int [of e]
    by (simp_all add: float_token_def Let_def is_digit_zero e_not_digit)
  then show ?thesis by simp
qed

lemma float_token_scientific: "float_token (scientific v)"
proof -
  obtain m e where "format_shortest (f64_decode v) = Some (m, e)" using format_shortest_Some by blast
  moreover have "''0e0'' = show_nat 0 @ ''e'' @ show_int 0" by (simp add: show_int_def show_nat.simps digit_char_def)
  ultimately show ?thesis
    using scientific_token [of "f64_sign v" m e] scientific_token [of "f64_sign v" 0 0]
    by (simp add: scientific_def split: if_splits)
qed

section \<open>The contract\<close>

definition reference_leaves :: leaf_texts where
  "reference_leaves =
     \<lparr>uuid_text = uuid_hyphenated, uuid_of_text = uuid_of_hyphenated, time_text = show_int,
      time_of_text = i32_literal, float_text = scientific, float_of_text = read_float\<rparr>"

interpretation reference: leaf_formats reference_leaves
  by unfold_locales
    (simp_all add: reference_leaves_def uuid_of_hyphenated_text i32_literal_show_int float_token_scientific)

interpretation reference_text: serde_texts json_text json_read reference_leaves
  by unfold_locales

end
