(* ===== verification/Sandbox_Pool.thy ===== *)
theory Sandbox_Pool
  imports Vm_Types "HOL-Library.AList"
begin

text \<open>
  \<open>forge-gateway/src/pool.rs\<close>: the registry of sandboxes. The \<open>IndexMap\<close> inside it comes
  from the \<open>indexmap\<close> crate and is a record of the operations the pool calls; the locale
  \<open>index_map\<close> states their documented behaviour. The \<open>RwLock\<close> around it may be poisoned:
  \<open>None\<close> is the panic of \<open>expect\<close> in that case.
\<close>

section \<open>The map inside\<close>

record SandboxEntry =
  entry_runtime :: string
  entry_created_at :: duration

record 'm index_map_ops =
  im_new :: 'm
  im_insert :: "'m \<Rightarrow> uuid \<Rightarrow> SandboxEntry \<Rightarrow> 'm"
  im_shift_remove :: "'m \<Rightarrow> uuid \<Rightarrow> SandboxEntry option \<times> 'm"
  im_contains_key :: "'m \<Rightarrow> uuid \<Rightarrow> bool"

text \<open>
  An insertion-ordered map: inserting a present key replaces its value in place and a new
  key goes to the end; removing by shifting returns the value and keeps the order of the
  rest.
\<close>

locale index_map =
  fixes M :: "'m index_map_ops" and items :: "'m \<Rightarrow> (uuid \<times> SandboxEntry) list"
  assumes items_new: "items (im_new M) = []"
    and items_insert: "items (im_insert M m k e) = AList.update k e (items m)"
    and shift_remove_value: "fst (im_shift_remove M m k) = map_of (items m) k"
    and items_shift_remove: "items (snd (im_shift_remove M m k)) = AList.delete k (items m)"
    and contains_key: "im_contains_key M m k \<longleftrightarrow> k \<in> fst ` set (items m)"

section \<open>The pool\<close>

record 'm SandboxPool =
  entries :: 'm
  poisoned :: bool

definition pool_new :: "'m index_map_ops \<Rightarrow> 'm SandboxPool" where
  "pool_new M = \<lparr>entries = im_new M, poisoned = False\<rparr>"

definition pool_create ::
  "'m index_map_ops \<Rightarrow> uuid \<Rightarrow> duration \<Rightarrow> string \<Rightarrow> 'm SandboxPool \<Rightarrow> (uuid \<times> 'm SandboxPool) option" where
  "pool_create M drawn now runtime p =
     (if poisoned p then None
      else Some (drawn, p\<lparr>entries := im_insert M (entries p) drawn
             \<lparr>entry_runtime = runtime, entry_created_at = now\<rparr>\<rparr>))"

definition pool_remove ::
  "'m index_map_ops \<Rightarrow> uuid \<Rightarrow> 'm SandboxPool \<Rightarrow> (bool \<times> 'm SandboxPool) option" where
  "pool_remove M i p =
     (if poisoned p then None
      else (let (removed, m) = im_shift_remove M (entries p) i
            in Some (removed \<noteq> None, p\<lparr>entries := m\<rparr>)))"

definition pool_contains :: "'m index_map_ops \<Rightarrow> uuid \<Rightarrow> 'm SandboxPool \<Rightarrow> bool option" where
  "pool_contains M i p = (if poisoned p then None else Some (im_contains_key M (entries p) i))"

section \<open>The pool as a finite map\<close>

definition pool_view :: "('m \<Rightarrow> (uuid \<times> SandboxEntry) list) \<Rightarrow> 'm SandboxPool \<Rightarrow> uuid \<rightharpoonup> SandboxEntry" where
  "pool_view items p = map_of (items (entries p))"

text \<open>
  What the gateway relies on, stated on an abstract map from identifiers to entries; a
  healthy pool is one whose lock is not poisoned.
\<close>

locale sandbox_registry =
  fixes healthy :: "'p \<Rightarrow> bool" and view :: "'p \<Rightarrow> uuid \<rightharpoonup> SandboxEntry"
    and new :: 'p
    and create :: "uuid \<Rightarrow> duration \<Rightarrow> string \<Rightarrow> 'p \<Rightarrow> (uuid \<times> 'p) option"
    and remove :: "uuid \<Rightarrow> 'p \<Rightarrow> (bool \<times> 'p) option"
    and contains :: "uuid \<Rightarrow> 'p \<Rightarrow> bool option"
  assumes new_spec: "healthy new \<and> view new = Map.empty"
    and create_spec: "healthy p \<Longrightarrow> \<exists>p'. create i now rt p = Some (i, p') \<and> healthy p'
      \<and> view p' = (view p)(i \<mapsto> \<lparr>entry_runtime = rt, entry_created_at = now\<rparr>)"
    and remove_spec: "healthy p \<Longrightarrow> \<exists>p'. remove i p = Some (i \<in> dom (view p), p') \<and> healthy p'
      \<and> view p' = (view p)(i := None)"
    and contains_spec: "healthy p \<Longrightarrow> contains i p = Some (i \<in> dom (view p))"

context index_map
begin

lemma view_new: "\<not> poisoned (pool_new M) \<and> pool_view items (pool_new M) = Map.empty"
  by (simp add: pool_new_def pool_view_def items_new)

lemma view_create:
  "\<not> poisoned p \<Longrightarrow> \<exists>p'. pool_create M i now rt p = Some (i, p') \<and> \<not> poisoned p'
     \<and> pool_view items p' = (pool_view items p)(i \<mapsto> \<lparr>entry_runtime = rt, entry_created_at = now\<rparr>)"
  by (simp add: pool_create_def pool_view_def items_insert update_conv')

lemma view_remove:
  "\<not> poisoned p \<Longrightarrow> \<exists>p'. pool_remove M i p = Some (i \<in> dom (pool_view items p), p') \<and> \<not> poisoned p'
     \<and> pool_view items p' = (pool_view items p)(i := None)"
  by (auto simp: pool_remove_def pool_view_def shift_remove_value items_shift_remove delete_conv'
      case_prod_unfold Let_def)

lemma view_contains:
  "\<not> poisoned p \<Longrightarrow> pool_contains M i p = Some (i \<in> dom (pool_view items p))"
  by (simp add: pool_contains_def pool_view_def contains_key dom_map_of_conv_image_fst)

end

sublocale index_map \<subseteq> sandbox_registry "\<lambda>p. \<not> poisoned p" "pool_view items" "pool_new M"
  "pool_create M" "pool_remove M" "pool_contains M"
  by unfold_locales (rule view_new, erule view_create, erule view_remove, erule view_contains)

section \<open>An association list is such a map\<close>

definition alist_map :: "(uuid \<times> SandboxEntry) list index_map_ops" where
  "alist_map =
     \<lparr>im_new = [], im_insert = (\<lambda>m k e. AList.update k e m),
      im_shift_remove = (\<lambda>m k. (map_of m k, AList.delete k m)),
      im_contains_key = (\<lambda>m k. map_of m k \<noteq> None)\<rparr>"

interpretation alist: index_map alist_map id
  by unfold_locales (auto simp: alist_map_def map_of_eq_None_iff)

end
