(* ===== verification/Gateway.thy ===== *)
theory Gateway
  imports Sandbox_Pool
begin

text \<open>
  \<open>forge-gateway/src/error.rs\<close> and \<open>routes.rs\<close>: the errors and their HTTP responses, the
  five handlers, the two helpers that run local processes, and the route table. A handler
  is a function of the gateway's state; \<open>None\<close> is a panic (a poisoned pool lock). Running
  a process, drawing a UUID, reading the clock and axum's extraction of path parameters
  and JSON bodies (from the content type and the bytes of a request) are answered by the
  record \<open>gw_env\<close>. The CORS and tracing layers, and
  the \<open>HEAD\<close> and \<open>OPTIONS\<close> requests they and axum answer, are outside the model.
\<close>

section \<open>Errors and responses\<close>

datatype GatewayError =
    Executor ExecutorError
  | SandboxNotFound uuid
  | InvalidRequest string

fun GatewayError_fmt :: "(uuid \<Rightarrow> string) \<Rightarrow> GatewayError \<Rightarrow> string" where
  "GatewayError_fmt fmt (Executor e) = ''executor error: '' @ ExecutorError_fmt fmt e"
| "GatewayError_fmt fmt (SandboxNotFound i) = ''sandbox not found: '' @ fmt i"
| "GatewayError_fmt fmt (InvalidRequest msg) = ''invalid request: '' @ msg"

record ShellResult =
  success :: bool
  sr_stdout :: string
  sr_stderr :: string
  sr_exit_code :: i32
  execution_time_ms :: nat

datatype reply_body =
    NoBody
  | ErrorBody string
  | HealthBody string
  | CreateSandboxResponse uuid
  | ShellResultBody ShellResult
  | RejectionBody

record response =
  rsp_status :: nat
  rsp_body :: reply_body

abbreviation respond :: "nat \<Rightarrow> reply_body \<Rightarrow> response" where
  "respond code body \<equiv> \<lparr>rsp_status = code, rsp_body = body\<rparr>"

definition into_response :: "(uuid \<Rightarrow> string) \<Rightarrow> GatewayError \<Rightarrow> response" where
  "into_response fmt e =
     (let code = (case e of Executor _ \<Rightarrow> 500 | SandboxNotFound _ \<Rightarrow> 404 | InvalidRequest _ \<Rightarrow> 400)
      in respond code (ErrorBody (GatewayError_fmt fmt e)))"

section \<open>State and outside world\<close>

datatype gw_event =
    DrewUuid
  | RanProcess string "string list"
  | FailedProcess string "string list"

type_synonym gw_trace = "gw_event list"

record process_output =
  status_code :: "i32 option"
  proc_stdout :: "u8 list"
  proc_stderr :: "u8 list"

record CreateSandboxBody =
  cb_runtime :: string

record ShellBody =
  sb_command :: string

record ExecuteBody =
  eb_code :: string
  eb_runtime :: string

record gw_env =
  gw_drawn :: "gw_trace \<Rightarrow> uuid"
  gw_instant :: "gw_trace \<Rightarrow> duration"
  process_result :: "gw_trace \<Rightarrow> string \<Rightarrow> string list \<Rightarrow> string + process_output"
  gw_fmt_uuid :: "uuid \<Rightarrow> string"
  parse_uuid :: "string \<Rightarrow> nat + uuid"
  de_create :: "string option \<Rightarrow> u8 list \<Rightarrow> nat + CreateSandboxBody"
  de_shell :: "string option \<Rightarrow> u8 list \<Rightarrow> nat + ShellBody"
  de_execute :: "string option \<Rightarrow> u8 list \<Rightarrow> nat + ExecuteBody"

record 'm gateway =
  pool :: "'m SandboxPool"
  trace :: gw_trace

type_synonym ('m, 'a) handler = "'m gateway \<Rightarrow> ((GatewayError + 'a) \<times> 'm gateway) option"

section \<open>Running processes\<close>

text \<open>
  \<open>Command::new(bin).arg(flag).arg(text).output().await\<close>, and the result made of its
  output: \<open>start.elapsed()\<close> is read when the process has ended.
\<close>

definition run_process ::
  "gw_env \<Rightarrow> string \<Rightarrow> string list \<Rightarrow> (string \<Rightarrow> GatewayError) \<Rightarrow> gw_trace
     \<Rightarrow> (GatewayError + process_output) \<times> gw_trace" where
  "run_process E bin args on_error t =
     (case process_result E t bin args of
        Inl e \<Rightarrow> (Err (on_error e), FailedProcess bin args # t)
      | Inr output \<Rightarrow> (Ok output, RanProcess bin args # t))"

definition shell_result :: "gw_env \<Rightarrow> duration \<Rightarrow> gw_trace \<Rightarrow> process_output \<Rightarrow> ShellResult" where
  "shell_result E start t output =
     \<lparr>success = (status_code output = Some 0),
      sr_stdout = from_utf8_lossy (proc_stdout output),
      sr_stderr = from_utf8_lossy (proc_stderr output),
      sr_exit_code = (case status_code output of Some c \<Rightarrow> c | None \<Rightarrow> - 1),
      execution_time_ms = as_millis (gw_instant E t - start)\<rparr>"

text \<open>
  The part of a helper after \<open>Instant::now()\<close>, which waits for the process, is a definition
  of its own: other requests move while it waits.
\<close>

definition await_shell ::
  "gw_env \<Rightarrow> duration \<Rightarrow> string \<Rightarrow> gw_trace \<Rightarrow> (GatewayError + ShellResult) \<times> gw_trace" where
  "await_shell E start command t =
     (case run_process E ''sh'' [''-c'', command]
             (\<lambda>e. InvalidRequest (''failed to spawn shell: '' @ e)) t of
        (Inl e, t') \<Rightarrow> (Err e, t')
      | (Inr output, t') \<Rightarrow> (Ok (shell_result E start t' output), t'))"

definition run_shell :: "gw_env \<Rightarrow> string \<Rightarrow> gw_trace \<Rightarrow> (GatewayError + ShellResult) \<times> gw_trace" where
  "run_shell E command t = (let start = gw_instant E t in await_shell E start command t)"

definition runtime_command :: "string \<Rightarrow> GatewayError + string \<times> string" where
  "runtime_command runtime =
     (if runtime = ''node'' then Ok (''node'', ''-e'')
      else if runtime = ''python'' then Ok (''python3'', ''-c'')
      else Err (InvalidRequest (''unsupported runtime '' @ [CHR 0x27] @ runtime @ [CHR 0x27])))"

definition await_code ::
  "gw_env \<Rightarrow> duration \<Rightarrow> string \<Rightarrow> string \<Rightarrow> string \<Rightarrow> gw_trace \<Rightarrow> (GatewayError + ShellResult) \<times> gw_trace" where
  "await_code E start bin flag code t =
     (case run_process E bin [flag, code]
             (\<lambda>e. InvalidRequest (''failed to spawn '' @ bin @ '': '' @ e)) t of
        (Inl e, t') \<Rightarrow> (Err e, t')
      | (Inr output, t') \<Rightarrow> (Ok (shell_result E start t' output), t'))"

definition run_code ::
  "gw_env \<Rightarrow> string \<Rightarrow> string \<Rightarrow> gw_trace \<Rightarrow> (GatewayError + ShellResult) \<times> gw_trace" where
  "run_code E runtime code t =
     (case runtime_command runtime of
        Inl e \<Rightarrow> (Err e, t)
      | Inr (bin, flag) \<Rightarrow> (let start = gw_instant E t in await_code E start bin flag code t))"

section \<open>Handlers\<close>

definition health :: response where
  "health = respond 200 (HealthBody ''ok'')"

definition create_sandbox ::
  "gw_env \<Rightarrow> 'm index_map_ops \<Rightarrow> CreateSandboxBody \<Rightarrow> ('m, response) handler" where
  "create_sandbox E M body g =
     (if cb_runtime body \<noteq> ''node'' \<and> cb_runtime body \<noteq> ''python''
      then Some (Err (InvalidRequest (''unsupported runtime '' @ [CHR 0x27] @ cb_runtime body @
             [CHR 0x27] @ ''; expected '' @ [CHR 0x27] @ ''node'' @ [CHR 0x27] @ '' or '' @
             [CHR 0x27] @ ''python'' @ [CHR 0x27])), g)
      else (let drawn = gw_drawn E (trace g); t = DrewUuid # trace g in
            case pool_create M drawn (gw_instant E t) (cb_runtime body) (pool g) of
              None \<Rightarrow> None
            | Some (i, p) \<Rightarrow>
                Some (Ok (respond 201 (CreateSandboxResponse i)), g\<lparr>pool := p, trace := t\<rparr>)))"

definition destroy_sandbox :: "'m index_map_ops \<Rightarrow> uuid \<Rightarrow> ('m, response) handler" where
  "destroy_sandbox M i g =
     (case pool_remove M i (pool g) of
        None \<Rightarrow> None
      | Some (removed, p) \<Rightarrow>
          (if \<not> removed then Some (Err (SandboxNotFound i), g\<lparr>pool := p\<rparr>)
           else Some (Ok (respond 204 NoBody), g\<lparr>pool := p\<rparr>)))"

definition shell_command ::
  "gw_env \<Rightarrow> 'm index_map_ops \<Rightarrow> uuid \<Rightarrow> ShellBody \<Rightarrow> ('m, response) handler" where
  "shell_command E M i body g =
     (case pool_contains M i (pool g) of
        None \<Rightarrow> None
      | Some there \<Rightarrow>
          (if \<not> there then Some (Err (SandboxNotFound i), g)
           else (case run_shell E (sb_command body) (trace g) of
                   (Inl e, t) \<Rightarrow> Some (Err e, g\<lparr>trace := t\<rparr>)
                 | (Inr res, t) \<Rightarrow> Some (Ok (respond 200 (ShellResultBody res)), g\<lparr>trace := t\<rparr>))))"

definition execute_code ::
  "gw_env \<Rightarrow> 'm index_map_ops \<Rightarrow> uuid \<Rightarrow> ExecuteBody \<Rightarrow> ('m, response) handler" where
  "execute_code E M i body g =
     (case pool_contains M i (pool g) of
        None \<Rightarrow> None
      | Some there \<Rightarrow>
          (if \<not> there then Some (Err (SandboxNotFound i), g)
           else (case run_code E (eb_runtime body) (eb_code body) (trace g) of
                   (Inl e, t) \<Rightarrow> Some (Err e, g\<lparr>trace := t\<rparr>)
                 | (Inr res, t) \<Rightarrow> Some (Ok (respond 200 (ShellResultBody res)), g\<lparr>trace := t\<rparr>))))"

section \<open>Routing\<close>

datatype gw_method = Get | Post | Delete | Put | Patch

datatype segment = Lit string | Capture

datatype endpoint = CreateEndpoint | ShellEndpoint | ExecuteEndpoint | DestroyEndpoint | HealthEndpoint

definition route_table :: "(gw_method \<times> segment list \<times> endpoint) list" where
  "route_table =
     [(Post, [Lit ''v1'', Lit ''sandbox''], CreateEndpoint),
      (Post, [Lit ''v1'', Lit ''sandbox'', Capture, Lit ''shell''], ShellEndpoint),
      (Post, [Lit ''v1'', Lit ''sandbox'', Capture, Lit ''execute''], ExecuteEndpoint),
      (Delete, [Lit ''v1'', Lit ''sandbox'', Capture], DestroyEndpoint),
      (Get, [Lit ''health''], HealthEndpoint)]"

text \<open>A capture takes one non-empty segment of the path.\<close>

fun match_path :: "segment list \<Rightarrow> string list \<Rightarrow> string list option" where
  "match_path [] [] = Some []"
| "match_path (Lit l # ps) (s # ss) = (if l = s then match_path ps ss else None)"
| "match_path (Capture # ps) (s # ss) =
     (if s = [] then None else map_option (\<lambda>caps. s # caps) (match_path ps ss))"
| "match_path _ _ = None"

record request =
  rq_method :: gw_method
  rq_path :: "string list"
  rq_content_type :: "string option"
  rq_body :: "u8 list"

text \<open>What the router decides: no such path, wrong method, or an endpoint with its captures.\<close>

datatype routed = NotFound404 | MethodNotAllowed405 | Routed endpoint "string list"

definition find_route :: "gw_method \<Rightarrow> string list \<Rightarrow> routed" where
  "find_route m path =
     (let hits = filter (\<lambda>(_, pat, _). match_path pat path \<noteq> None) route_table in
      case filter (\<lambda>(m', _, _). m' = m) hits of
        (_, pat, ep) # _ \<Rightarrow> Routed ep (the (match_path pat path))
      | [] \<Rightarrow> if hits = [] then NotFound404 else MethodNotAllowed405)"

text \<open>The typed call axum's extractors make of a request, or the status of their rejection.\<close>

datatype api_call =
    Health
  | Create CreateSandboxBody
  | Destroy uuid
  | Shell uuid ShellBody
  | Execute uuid ExecuteBody

definition extract_call :: "gw_env \<Rightarrow> request \<Rightarrow> nat + api_call" where
  "extract_call E rq =
     (case find_route (rq_method rq) (rq_path rq) of
        NotFound404 \<Rightarrow> Err 404
      | MethodNotAllowed405 \<Rightarrow> Err 405
      | Routed HealthEndpoint _ \<Rightarrow> Ok Health
      | Routed CreateEndpoint _ \<Rightarrow> and_then (de_create E (rq_content_type rq) (rq_body rq)) (\<lambda>b. Ok (Create b))
      | Routed DestroyEndpoint caps \<Rightarrow> and_then (parse_uuid E (hd caps)) (\<lambda>i. Ok (Destroy i))
      | Routed ShellEndpoint caps \<Rightarrow>
          and_then (parse_uuid E (hd caps)) (\<lambda>i.
          and_then (de_shell E (rq_content_type rq) (rq_body rq)) (\<lambda>b. Ok (Shell i b)))
      | Routed ExecuteEndpoint caps \<Rightarrow>
          and_then (parse_uuid E (hd caps)) (\<lambda>i.
          and_then (de_execute E (rq_content_type rq) (rq_body rq)) (\<lambda>b. Ok (Execute i b))))"

text \<open>The handler's \<open>Result\<close> turned into a response, as axum does with both sides.\<close>

definition render ::
  "gw_env \<Rightarrow> ((GatewayError + response) \<times> 'm gateway) option \<Rightarrow> (response \<times> 'm gateway) option" where
  "render E r = map_option (\<lambda>(res, g).
     (case res of Inl e \<Rightarrow> into_response (gw_fmt_uuid E) e | Inr rsp \<Rightarrow> rsp, g)) r"

fun answer :: "gw_env \<Rightarrow> 'm index_map_ops \<Rightarrow> api_call \<Rightarrow> 'm gateway \<Rightarrow> (response \<times> 'm gateway) option" where
  "answer E M Health g = Some (health, g)"
| "answer E M (Create b) g = render E (create_sandbox E M b g)"
| "answer E M (Destroy i) g = render E (destroy_sandbox M i g)"
| "answer E M (Shell i b) g = render E (shell_command E M i b g)"
| "answer E M (Execute i b) g = render E (execute_code E M i b g)"

definition serve :: "gw_env \<Rightarrow> 'm index_map_ops \<Rightarrow> request \<Rightarrow> 'm gateway \<Rightarrow> (response \<times> 'm gateway) option" where
  "serve E M rq g =
     (case extract_call E rq of
        Inl code \<Rightarrow> Some (respond code RejectionBody, g)
      | Inr c \<Rightarrow> answer E M c g)"

fun serve_all ::
  "gw_env \<Rightarrow> 'm index_map_ops \<Rightarrow> request list \<Rightarrow> 'm gateway \<Rightarrow> (response list \<times> 'm gateway) option" where
  "serve_all E M [] g = Some ([], g)"
| "serve_all E M (rq # rqs) g =
     (case serve E M rq g of
        None \<Rightarrow> None
      | Some (rsp, g') \<Rightarrow> map_option (\<lambda>(rsps, g''). (rsp # rsps, g'')) (serve_all E M rqs g'))"

definition gateway_new :: "'m index_map_ops \<Rightarrow> 'm gateway" where
  "gateway_new M = \<lparr>pool = pool_new M, trace = []\<rparr>"

section \<open>The contract of the API\<close>

text \<open>
  The specification keeps only the runtime of each sandbox. It answers a call with a
  status and the new map, given the identifier drawn for a creation and whether the
  process of the call starts.
\<close>

definition supported :: "string \<Rightarrow> bool" where
  "supported rt = (rt = ''node'' \<or> rt = ''python'')"

fun spec_answer ::
  "uuid \<Rightarrow> bool \<Rightarrow> api_call \<Rightarrow> (uuid \<rightharpoonup> string) \<Rightarrow> nat \<times> (uuid \<rightharpoonup> string)" where
  "spec_answer drawn started Health m = (200, m)"
| "spec_answer drawn started (Create b) m =
     (if supported (cb_runtime b) then (201, m(drawn \<mapsto> cb_runtime b)) else (400, m))"
| "spec_answer drawn started (Destroy i) m = (if i \<in> dom m then (204, m(i := None)) else (404, m))"
| "spec_answer drawn started (Shell i b) m =
     (if i \<notin> dom m then 404 else if started then 200 else 400, m)"
| "spec_answer drawn started (Execute i b) m =
     (if i \<notin> dom m then 404 else if supported (eb_runtime b) \<and> started then 200 else 400, m)"

fun call_target :: "api_call \<Rightarrow> uuid option" where
  "call_target (Destroy i) = Some i"
| "call_target (Shell i b) = Some i"
| "call_target (Execute i b) = Some i"
| "call_target _ = None"

text \<open>The process a call asks for, and whether it starts.\<close>

fun call_process :: "api_call \<Rightarrow> (string \<times> string list) option" where
  "call_process (Shell i b) = Some (''sh'', [''-c'', sb_command b])"
| "call_process (Execute i b) =
     (case runtime_command (eb_runtime b) of
        Inl _ \<Rightarrow> None | Inr (bin, flag) \<Rightarrow> Some (bin, [flag, eb_code b]))"
| "call_process _ = None"

definition process_starts :: "gw_env \<Rightarrow> api_call \<Rightarrow> gw_trace \<Rightarrow> bool" where
  "process_starts E c t =
     (case call_process c of None \<Rightarrow> False | Some (bin, args) \<Rightarrow> is_ok (process_result E t bin args))"

definition runtimes :: "('m \<Rightarrow> (uuid \<times> SandboxEntry) list) \<Rightarrow> 'm gateway \<Rightarrow> uuid \<rightharpoonup> string" where
  "runtimes items g = map_option entry_runtime \<circ> pool_view items (pool g)"

definition process_event :: "gw_event \<Rightarrow> (string \<times> string list) option" where
  "process_event e =
     (case e of DrewUuid \<Rightarrow> None | RanProcess bin args \<Rightarrow> Some (bin, args)
      | FailedProcess bin args \<Rightarrow> Some (bin, args))"

lemma process_event_simps [simp]:
  "process_event DrewUuid = None" "process_event (RanProcess bin args) = Some (bin, args)"
  "process_event (FailedProcess bin args) = Some (bin, args)"
  by (simp_all add: process_event_def)

lemma runtimes_dom [simp]: "dom (runtimes items g) = dom (pool_view items (pool g))"
  by (auto simp: runtimes_def dom_def)

lemma runtimes_upd:
  "pool_view items p = (pool_view items (pool g))(i \<mapsto> \<lparr>entry_runtime = rt, entry_created_at = now\<rparr>)
     \<Longrightarrow> runtimes items (g\<lparr>pool := p\<rparr>) = (runtimes items g)(i \<mapsto> rt)"
  "pool_view items p = (pool_view items (pool g))(i := None)
     \<Longrightarrow> runtimes items (g\<lparr>pool := p\<rparr>) = (runtimes items g)(i := None)"
  "pool_view items p = pool_view items (pool g) \<Longrightarrow> runtimes items (g\<lparr>pool := p\<rparr>) = runtimes items g"
  "runtimes items (g\<lparr>trace := t\<rparr>) = runtimes items g"
  by (auto simp: runtimes_def)

lemma runtime_command_cases:
  "runtime_command rt = Ok (''node'', ''-e'') \<and> rt = ''node''
   \<or> runtime_command rt = Ok (''python3'', ''-c'') \<and> rt = ''python''
   \<or> (\<exists>msg. runtime_command rt = Err (InvalidRequest msg)) \<and> \<not> supported rt"
  by (simp add: runtime_command_def supported_def)

lemma runtime_command_supported: "is_ok (runtime_command rt) \<longleftrightarrow> supported rt"
  by (simp add: runtime_command_def supported_def)

lemma run_shell_cases:
  "run_shell E cmd t = (case process_result E t ''sh'' [''-c'', cmd] of
     Inl e \<Rightarrow> (Err (InvalidRequest (''failed to spawn shell: '' @ e)), FailedProcess ''sh'' [''-c'', cmd] # t)
   | Inr output \<Rightarrow> (Ok (shell_result E (gw_instant E t) (RanProcess ''sh'' [''-c'', cmd] # t) output),
       RanProcess ''sh'' [''-c'', cmd] # t))"
  by (simp add: run_shell_def await_shell_def run_process_def split: sum.split)

lemma run_code_cases:
  "run_code E rt code t = (case runtime_command rt of Inl e \<Rightarrow> (Err e, t) | Inr (bin, flag) \<Rightarrow>
     (case process_result E t bin [flag, code] of
       Inl e \<Rightarrow> (Err (InvalidRequest (''failed to spawn '' @ bin @ '': '' @ e)), FailedProcess bin [flag, code] # t)
     | Inr output \<Rightarrow> (Ok (shell_result E (gw_instant E t) (RanProcess bin [flag, code] # t) output),
         RanProcess bin [flag, code] # t)))"
  by (simp add: run_code_def await_code_def run_process_def split: sum.split prod.split)

text \<open>The event a started or failed process leaves.\<close>

lemma run_shell_trace:
  "\<exists>e. snd (run_shell E cmd t) = e # t \<and> process_event e = Some (''sh'', [''-c'', cmd])"
  by (simp add: run_shell_cases split: sum.split)

lemma run_code_trace:
  "snd (run_code E rt code t) = t \<or> (\<exists>e bin flag. snd (run_code E rt code t) = e # t
     \<and> runtime_command rt = Ok (bin, flag) \<and> process_event e = Some (bin, [flag, code]))"
  by (auto simp: run_code_cases split: sum.split prod.split)

lemmas handler_defs =
  create_sandbox_def destroy_sandbox_def shell_command_def execute_code_def render_def
  into_response_def

context index_map
begin

lemma create_cases:
  assumes "\<not> poisoned (pool g)" and "supported (cb_runtime b)"
  shows "\<exists>p'. create_sandbox E M b g =
      Some (Ok (respond 201 (CreateSandboxResponse (gw_drawn E (trace g)))),
        g\<lparr>pool := p', trace := DrewUuid # trace g\<rparr>)
    \<and> \<not> poisoned p' \<and> runtimes items (g\<lparr>pool := p'\<rparr>) = (runtimes items g)(gw_drawn E (trace g) \<mapsto> cb_runtime b)"
  using create_spec [OF assms(1), of "gw_drawn E (trace g)" "gw_instant E (DrewUuid # trace g)" "cb_runtime b"]
    assms(2) by (auto simp: create_sandbox_def supported_def runtimes_upd)

lemma destroy_cases:
  assumes "\<not> poisoned (pool g)"
  shows "\<exists>p'. destroy_sandbox M i g =
      Some (if i \<in> dom (runtimes items g) then Ok (respond 204 NoBody) else Err (SandboxNotFound i), g\<lparr>pool := p'\<rparr>)
    \<and> \<not> poisoned p' \<and> runtimes items (g\<lparr>pool := p'\<rparr>) = (runtimes items g)(i := None)"
proof -
  from remove_spec [OF assms, of i] obtain p' where
    "pool_remove M i (pool g) = Some (i \<in> dom (runtimes items g), p')" "\<not> poisoned p'"
    "pool_view items p' = (pool_view items (pool g))(i := None)" by auto
  then show ?thesis
    by (intro exI [of _ p']; cases "i \<in> dom (runtimes items g)") (simp_all add: destroy_sandbox_def runtimes_upd)
qed

lemma shell_unknown:
  "\<not> poisoned (pool g) \<Longrightarrow> i \<notin> dom (runtimes items g) \<Longrightarrow>
     shell_command E M i b g = Some (Err (SandboxNotFound i), g)"
  by (simp add: shell_command_def contains_spec)

lemma shell_known:
  "\<not> poisoned (pool g) \<Longrightarrow> i \<in> dom (runtimes items g) \<Longrightarrow>
     shell_command E M i b g =
       (let (r, t) = run_shell E (sb_command b) (trace g)
        in Some (case r of Inl e \<Rightarrow> Err e | Inr res \<Rightarrow> Ok (respond 200 (ShellResultBody res)), g\<lparr>trace := t\<rparr>))"
  by (auto simp: shell_command_def contains_spec split: sum.split prod.split)

lemma execute_unknown:
  "\<not> poisoned (pool g) \<Longrightarrow> i \<notin> dom (runtimes items g) \<Longrightarrow>
     execute_code E M i b g = Some (Err (SandboxNotFound i), g)"
  by (simp add: execute_code_def contains_spec)

lemma execute_known:
  "\<not> poisoned (pool g) \<Longrightarrow> i \<in> dom (runtimes items g) \<Longrightarrow>
     execute_code E M i b g =
       (let (r, t) = run_code E (eb_runtime b) (eb_code b) (trace g)
        in Some (case r of Inl e \<Rightarrow> Err e | Inr res \<Rightarrow> Ok (respond 200 (ShellResultBody res)), g\<lparr>trace := t\<rparr>))"
  by (auto simp: execute_code_def contains_spec split: sum.split prod.split)

lemma answer_refines:
  assumes "\<not> poisoned (pool g)"
  shows "\<exists>rsp g'. answer E M c g = Some (rsp, g') \<and> \<not> poisoned (pool g')
    \<and> (rsp_status rsp, runtimes items g')
      = spec_answer (gw_drawn E (trace g)) (process_starts E c (trace g)) c (runtimes items g)"
proof (cases c)
  case Health
  with assms show ?thesis by (simp add: health_def)
next
  case (Create b)
  show ?thesis
  proof (cases "supported (cb_runtime b)")
    case True
    with Create create_cases [OF assms True, of E] show ?thesis
      by (auto simp: render_def runtimes_upd)
  next
    case False
    with Create assms show ?thesis
      by (simp add: render_def create_sandbox_def into_response_def supported_def)
  qed
next
  case (Destroy i)
  with destroy_cases [OF assms, of i] show ?thesis
    by (cases "i \<in> dom (runtimes items g)")
      (auto simp: render_def into_response_def fun_upd_idem simp del: runtimes_dom)
next
  case (Shell i b)
  with assms show ?thesis
    by (cases "i \<in> dom (runtimes items g)")
      (simp_all add: render_def into_response_def shell_known shell_unknown run_shell_cases
        process_starts_def runtimes_upd split: sum.split del: runtimes_dom)
next
  case (Execute i b)
  with assms runtime_command_cases [of "eb_runtime b"] show ?thesis
    by (cases "i \<in> dom (runtimes items g)")
      (auto simp: render_def into_response_def execute_known execute_unknown run_code_cases
        process_starts_def runtimes_upd supported_def split: sum.split simp del: runtimes_dom)
qed

text \<open>
  What a call may add to the trace: a drawn identifier, or the one process it asks for,
  and that only if its sandbox is registered.
\<close>

lemma answer_trace:
  assumes "\<not> poisoned (pool g)" and "answer E M c g = Some (rsp, g')"
  shows "trace g' = trace g \<or> (\<exists>e. trace g' = e # trace g \<and>
    (process_event e \<noteq> None \<longrightarrow> process_event e = call_process c
       \<and> (\<exists>i. call_target c = Some i \<and> i \<in> dom (runtimes items g))))"
proof (cases c)
  case Health
  with assms show ?thesis by simp
next
  case (Create b)
  with assms(2) show ?thesis by (auto simp: handler_defs Let_def split: if_splits option.splits)
next
  case (Destroy i)
  with assms(2) show ?thesis by (auto simp: handler_defs split: if_splits option.splits)
next
  case (Shell i b)
  then show ?thesis
  proof (cases "i \<in> dom (runtimes items g)")
    case True
    with Shell assms have "trace g' = snd (run_shell E (sb_command b) (trace g))"
      by (auto simp: render_def shell_known case_prod_unfold Let_def simp del: runtimes_dom)
    with True Shell show ?thesis using run_shell_trace [of E "sb_command b" "trace g"] by auto
  qed (use assms in \<open>auto simp: render_def shell_unknown simp del: runtimes_dom\<close>)
next
  case (Execute i b)
  then show ?thesis
  proof (cases "i \<in> dom (runtimes items g)")
    case True
    with Execute assms have "trace g' = snd (run_code E (eb_runtime b) (eb_code b) (trace g))"
      by (auto simp: render_def execute_known case_prod_unfold Let_def simp del: runtimes_dom)
    with True Execute show ?thesis using run_code_trace [of E "eb_runtime b" "eb_code b" "trace g"] by auto
  qed (use assms in \<open>auto simp: render_def execute_unknown simp del: runtimes_dom\<close>)
qed

end

section \<open>Every run of the server\<close>

text \<open>The processes the gateway may start: three programs, one flag and one text each.\<close>

definition allowed_process :: "string \<times> string list \<Rightarrow> bool" where
  "allowed_process c = (\<exists>text. c = (''sh'', [''-c'', text]) \<or> c = (''node'', [''-e'', text])
     \<or> c = (''python3'', [''-c'', text]))"

lemma call_process_allowed: "call_process c = Some q \<Longrightarrow> allowed_process q"
  by (cases c) (auto simp: allowed_process_def runtime_command_def split: if_splits)

definition allowed_event :: "gw_event \<Rightarrow> bool" where
  "allowed_event e = (case process_event e of None \<Rightarrow> True | Some q \<Rightarrow> allowed_process q)"

text \<open>The invariant of the server: healthy, only supported runtimes, only allowed processes.\<close>

definition gateway_ok :: "('m \<Rightarrow> (uuid \<times> SandboxEntry) list) \<Rightarrow> 'm gateway \<Rightarrow> bool" where
  "gateway_ok items g = (\<not> poisoned (pool g) \<and> (\<forall>rt \<in> ran (runtimes items g). supported rt)
     \<and> list_all allowed_event (trace g))"

lemma spec_answer_ran:
  assumes "\<forall>rt \<in> ran m. supported rt"
  shows "\<forall>rt \<in> ran (snd (spec_answer drawn started c m)). supported rt"
  using assms by (cases c) (auto simp: ran_def)

context index_map
begin

lemma answer_ok:
  assumes "gateway_ok items g"
  shows "\<exists>rsp g'. answer E M c g = Some (rsp, g') \<and> gateway_ok items g'"
proof -
  have healthy: "\<not> poisoned (pool g)" using assms by (simp add: gateway_ok_def)
  from answer_refines [OF this, of E c] obtain rsp g' where
    ans: "answer E M c g = Some (rsp, g')" and g': "\<not> poisoned (pool g')"
    and spec: "(rsp_status rsp, runtimes items g')
      = spec_answer (gw_drawn E (trace g)) (process_starts E c (trace g)) c (runtimes items g)"
    by blast
  have "\<forall>rt \<in> ran (runtimes items g'). supported rt"
    using assms spec_answer_ran [of "runtimes items g" "gw_drawn E (trace g)" "process_starts E c (trace g)" c]
    by (simp add: gateway_ok_def spec [symmetric])
  moreover have "list_all allowed_event (trace g')"
    using answer_trace [OF healthy ans] assms
    by (auto simp: gateway_ok_def allowed_event_def split: option.split dest: call_process_allowed)
  ultimately show ?thesis using ans g' by (auto simp: gateway_ok_def)
qed

lemma serve_ok:
  "gateway_ok items g \<Longrightarrow> \<exists>rsp g'. serve E M rq g = Some (rsp, g') \<and> gateway_ok items g'"
  using answer_ok by (auto simp: serve_def split: sum.split)

lemma serve_all_ok:
  "gateway_ok items g \<Longrightarrow> \<exists>rsps g'. serve_all E M rqs g = Some (rsps, g')
     \<and> length rsps = length rqs \<and> gateway_ok items g'"
proof (induction rqs arbitrary: g)
  case (Cons rq rqs)
  then obtain rsp g' where "serve E M rq g = Some (rsp, g')" "gateway_ok items g'"
    using serve_ok by blast
  with Cons.IH [of g'] show ?case by auto
qed simp

lemma gateway_new_ok: "gateway_ok items (gateway_new M)"
  using new_spec by (simp add: gateway_ok_def gateway_new_def runtimes_def)

end

end
