(* ===== verification/Gateway_Serde.thy ===== *)
theory Gateway_Serde
  imports Forge_Serde Gateway
begin

text \<open>
  The JSON bodies of the gateway: the derived \<open>Deserialize\<close> of the three request bodies and
  \<open>Serialize\<close> of the replies of \<open>routes.rs\<close>, and the bodies the sources build with \<open>json!\<close>.
  \<open>with_json_bodies\<close> is a gateway environment with extractors of such bodies.
\<close>

section \<open>Request bodies\<close>

definition CreateSandboxBody_deserialize :: "json \<Rightarrow> CreateSandboxBody option" where
  "CreateSandboxBody_deserialize j =
     (case struct_args [''runtime''] j of
        Some [a] \<Rightarrow> Option.bind (field de_string a) (\<lambda>a. Some \<lparr>cb_runtime = a\<rparr>)
      | _ \<Rightarrow> None)"

definition ShellBody_deserialize :: "json \<Rightarrow> ShellBody option" where
  "ShellBody_deserialize j =
     (case struct_args [''command''] j of
        Some [a] \<Rightarrow> Option.bind (field de_string a) (\<lambda>a. Some \<lparr>sb_command = a\<rparr>)
      | _ \<Rightarrow> None)"

definition ExecuteBody_deserialize :: "json \<Rightarrow> ExecuteBody option" where
  "ExecuteBody_deserialize j =
     (case struct_args [''code'', ''runtime''] j of
        Some [a, b] \<Rightarrow>
          Option.bind (field de_string a) (\<lambda>a. Option.bind (field de_string b) (\<lambda>b.
          Some \<lparr>eb_code = a, eb_runtime = b\<rparr>))
      | _ \<Rightarrow> None)"

text \<open>
  A reference for axum's \<open>Json\<close> extractor, with what it takes from the crates below it: which content types
  are JSON, the limit on the size of a body, the documents \<open>serde_json\<close> reads, and the status
  for a body that is no document, which depends on whether an error of the data comes first.
\<close>

record json_input =
  json_type :: "string \<Rightarrow> bool"
  body_limit :: nat
  document :: "string \<Rightarrow> json option"
  malformed_status :: "u8 list \<Rightarrow> nat"

definition json_extractor :: "json_input \<Rightarrow> (json \<Rightarrow> 'a option) \<Rightarrow> string option \<Rightarrow> u8 list \<Rightarrow> nat + 'a" where
  "json_extractor J de content_type bytes =
     (if case content_type of None \<Rightarrow> True | Some t \<Rightarrow> \<not> json_type J t then Err 415
      else if body_limit J < length bytes then Err 413
      else case Option.bind (from_utf8 bytes) (document J) of
        None \<Rightarrow> Err (malformed_status J bytes)
      | Some j \<Rightarrow> (case de j of None \<Rightarrow> Err 422 | Some b \<Rightarrow> Ok b))"

definition with_json_bodies :: "json_input \<Rightarrow> gw_env \<Rightarrow> gw_env" where
  "with_json_bodies J E =
     E\<lparr>de_create := json_extractor J CreateSandboxBody_deserialize,
       de_shell := json_extractor J ShellBody_deserialize,
       de_execute := json_extractor J ExecuteBody_deserialize\<rparr>"

text \<open>An instance: one content type, axum's limit of two megabytes, the reader of \<open>Json\<close>.\<close>

definition axum_json :: json_input where
  "axum_json = \<lparr>json_type = (\<lambda>t. t = ''application/json''), body_limit = 2097152, document = json_read,
     malformed_status = (\<lambda>_. 400)\<rparr>"

lemma json_extractor_document:
  assumes "json_type J t" and "length bytes \<le> body_limit J" and "Option.bind (from_utf8 bytes) (document J) = Some j"
  shows "json_extractor J de (Some t) bytes = (case de j of None \<Rightarrow> Err 422 | Some b \<Rightarrow> Ok b)"
  using assms by (simp add: json_extractor_def)

section \<open>Replies\<close>

definition ShellResult_serialize :: "ShellResult \<Rightarrow> json" where
  "ShellResult_serialize r =
     JObj [(''success'', JBool (success r)), (''stdout'', JStr (sr_stdout r)), (''stderr'', JStr (sr_stderr r)),
           (''exit_code'', JNum (sint (sr_exit_code r))), (''execution_time_ms'', JNum (int (execution_time_ms r)))]"

fun reply_json :: "leaf_texts \<Rightarrow> reply_body \<Rightarrow> json option" where
  "reply_json L (ErrorBody msg) = Some (JObj [(''error'', JStr msg)])"
| "reply_json L (HealthBody st) = Some (JObj [(''status'', JStr st)])"
| "reply_json L (CreateSandboxResponse i) = Some (JObj [(''id'', ser_uuid L i)])"
| "reply_json L (ShellResultBody r) = Some (ShellResult_serialize r)"
| "reply_json L NoBody = None"
| "reply_json L RejectionBody = None"

section \<open>Which bodies are accepted\<close>

text \<open>The values an object gives a member.\<close>

definition members :: "string \<Rightarrow> (string \<times> json) list \<Rightarrow> json list" where
  "members n kvs = map snd (filter (\<lambda>(k, _). k = n) kvs)"

lemma members_map_of:
  "map_of kvs n = (case members n kvs of [] \<Rightarrow> None | j # _ \<Rightarrow> Some j)"
  by (induction kvs) (auto simp: members_def split: list.splits if_splits)

lemma field_once:
  assumes "length (members n kvs) \<le> 1"
  shows "field de_string (map_of kvs n) = Some s \<longleftrightarrow> members n kvs = [JStr s]"
proof (cases "members n kvs")
  case (Cons j js)
  with assms show ?thesis by (cases j) (auto simp: members_map_of)
qed (simp add: members_map_of)

lemma length_members: "length (filter (\<lambda>(k, _). k = n) kvs) = length (members n kvs)"
  by (simp add: members_def)

lemma de_string_Some: "de_string j = Some s \<longleftrightarrow> j = JStr s"
  by (cases j) simp_all

lemma one_string_struct:
  "(case struct_args [n] j of Some [a] \<Rightarrow> Option.bind (field de_string a) (\<lambda>a. Some (f a)) | _ \<Rightarrow> None) = Some b
     \<longleftrightarrow> (\<exists>s. b = f s \<and> ((\<exists>kvs. j = JObj kvs \<and> members n kvs = [JStr s]) \<or> j = JArr [JStr s]))"
proof (cases j)
  case (JObj kvs)
  then show ?thesis
    using field_once [of n kvs]
    by (auto simp: length_members not_less bind_eq_Some_conv split: option.splits)
next
  case (JArr js)
  then show ?thesis by (cases js) (auto simp: bind_eq_Some_conv de_string_Some)
qed simp_all

lemma two_string_struct:
  "(case struct_args [n, m] j of Some [a, b] \<Rightarrow>
      Option.bind (field de_string a) (\<lambda>a. Option.bind (field de_string b) (\<lambda>b. Some (f a b))) | _ \<Rightarrow> None) = Some r
     \<longleftrightarrow> (\<exists>s t. r = f s t \<and>
        ((\<exists>kvs. j = JObj kvs \<and> members n kvs = [JStr s] \<and> members m kvs = [JStr t]) \<or> j = JArr [JStr s, JStr t]))"
proof (cases j)
  case (JObj kvs)
  then show ?thesis
    using field_once [of n kvs] field_once [of m kvs]
    by (auto simp: length_members not_less bind_eq_Some_conv)
next
  case (JArr js)
  then show ?thesis
    by (cases js rule: remdups_adj.cases) (auto simp: bind_eq_Some_conv de_string_Some)
qed simp_all

end
