(* ===== verification/Serde_Properties.thy ===== *)
theory Serde_Properties
  imports Serde_Reference Gateway_Serde Executor_Properties
begin

text \<open>
  The properties of the derived serialisation: what is written is read back, what the
  reading of a trust score accepts, and which documents are request bodies.
\<close>


definition sim_record :: ExecutionRecord where
  "sim_record =
     \<lparr>rec_id = ExecutionId 1, rec_block_id = BlockId 5, user_id = UserId ''forge-runner'',
      input_hash = ContentHash (replicate 32 7), output_hash = ContentHash (replicate 32 255),
      started_at = - 1, rec_duration = 1500000000, vm_snapshot_id = Some (SnapshotId 2),
      status = Failed ''exit''\<rparr>"

lemma f64_finite_0_9: "f64_finite f64_0_9"
  by (simp add: f64_finite_def is_nan_def is_infinite_def f64_exponent_def f64_0_9_def)


definition f64_two :: f64 where
  "f64_two = 0x4000000000000000"

definition set_member :: "string \<Rightarrow> json \<Rightarrow> json \<Rightarrow> json" where
  "set_member n v j =
     (case j of JObj kvs \<Rightarrow> JObj (map (\<lambda>(k, w). (k, if k = n then v else w)) kvs) | _ \<Rightarrow> j)"

lemma f64_of_int_two: "f64_of_int 2 = f64_two"
  by (simp add: f64_of_int_def nearest_f64_def floor_log2.simps round_div_def f64_two_def)

lemma two_rejected: "TrustScore_new f64_two = Err (InvalidTrustScore f64_two)"
  by (simp add: TrustScore_new_def f64_le_def f64_eval_defs f64_two_def f64_one_def f64_zero_def)

text \<open>
  C22. Reading a block does not check its trust score: in the document of any block the score
  can be replaced by \<open>2\<close>, and the document is still accepted and gives that block with the
  score \<open>2.0\<close>, which \<open>TrustScore::new\<close> rejects. A score that was written is accepted again
  whatever number its text reads as.
\<close>

theorem deserialized_score_unchecked:
  assumes "leaf_formats L"
  shows "Block_deserialize L (set_member ''trust_score'' (JNum 2) (Block_serialize L b))
      = Some (b\<lparr>trust_score := TrustScore f64_two\<rparr>)
    \<and> TrustScore_new f64_two = Err (InvalidTrustScore f64_two)
    \<and> TrustScore_deserialize L (JFloat t) = Some (TrustScore (float_of_text L t))"
proof -
  note reads = leaf_formats.uuid_ids_read_back [OF assms] leaf_formats.de_ser_time [OF assms]
    leaf_formats.option_fields_read_back [OF assms]
  show ?thesis
    by (simp add: set_member_def Block_deserialize_def Block_serialize_def struct_args_object reads
        TrustScore_deserialize_def f64_of_int_two two_rejected)
qed

theorem deserialized_score_unchecked_witness:
  "Block_deserialize reference_leaves (set_member ''trust_score'' (JNum 2) (Block_serialize reference_leaves sim_block))
     = Some (sim_block\<lparr>trust_score := TrustScore f64_two\<rparr>)"
  using deserialized_score_unchecked [OF reference.leaf_formats_axioms, of sim_block] by blast

text \<open>
  The documents accepted as bodies of the three endpoints: an object that gives every field
  exactly once, as a string, with any other members, or an array of the fields in order;
  the fields of the body are those strings.
\<close>

lemma request_bodies_exact:
  "(CreateSandboxBody_deserialize j = Some cb \<longleftrightarrow>
      (\<exists>kvs. j = JObj kvs \<and> members ''runtime'' kvs = [JStr (cb_runtime cb)]) \<or> j = JArr [JStr (cb_runtime cb)])
   \<and> (ShellBody_deserialize j = Some sb \<longleftrightarrow>
      (\<exists>kvs. j = JObj kvs \<and> members ''command'' kvs = [JStr (sb_command sb)]) \<or> j = JArr [JStr (sb_command sb)])
   \<and> (ExecuteBody_deserialize j = Some eb \<longleftrightarrow>
      (\<exists>kvs. j = JObj kvs \<and> members ''code'' kvs = [JStr (eb_code eb)] \<and> members ''runtime'' kvs = [JStr (eb_runtime eb)])
      \<or> j = JArr [JStr (eb_code eb), JStr (eb_runtime eb)])"
proof (intro conjI)
  show "CreateSandboxBody_deserialize j = Some cb \<longleftrightarrow>
      (\<exists>kvs. j = JObj kvs \<and> members ''runtime'' kvs = [JStr (cb_runtime cb)]) \<or> j = JArr [JStr (cb_runtime cb)]"
    unfolding CreateSandboxBody_deserialize_def one_string_struct by (cases cb) auto
  show "ShellBody_deserialize j = Some sb \<longleftrightarrow>
      (\<exists>kvs. j = JObj kvs \<and> members ''command'' kvs = [JStr (sb_command sb)]) \<or> j = JArr [JStr (sb_command sb)]"
    unfolding ShellBody_deserialize_def one_string_struct by (cases sb) auto
  show "ExecuteBody_deserialize j = Some eb \<longleftrightarrow>
      (\<exists>kvs. j = JObj kvs \<and> members ''code'' kvs = [JStr (eb_code eb)] \<and> members ''runtime'' kvs = [JStr (eb_runtime eb)])
      \<or> j = JArr [JStr (eb_code eb), JStr (eb_runtime eb)]"
    unfolding ExecuteBody_deserialize_def two_string_struct by (cases eb) auto
qed

end
