(* ===== verification/Executor_Tests.thy ===== *)
theory Executor_Tests
  imports Executor_Properties Core_Properties Sha256_Evaluation Serde_Properties
begin

text \<open>
  The unit tests, property tests and fuzz targets of forge-core and forge-executor as
  predicates on the model, one per test with its name: the conjunction of the assertions,
  with the values a test draws (identifiers, clock readings, generated inputs) as
  arguments. That they hold ties the model to what the authors expect of the code.

  \<open>proptest_hash_order_matters_stdout_before_stderr\<close> is not among those that hold for every
  input: \<open>compute_hash_swap\<close> says for which inputs it does.
\<close>

section \<open>forge-core\<close>

text \<open>The literals of the tests as the compiler rounds them.\<close>

definition f64_0_5 :: f64 where
  "f64_0_5 = 0x3FE0000000000000"

definition f64_0_75 :: f64 where
  "f64_0_75 = 0x3FE8000000000000"

definition f64_minus_0_1 :: f64 where
  "f64_minus_0_1 = 0xBFB999999999999A"

definition f64_NAN :: f64 where
  "f64_NAN = 0x7FF8000000000000"

definition f64_INFINITY :: f64 where
  "f64_INFINITY = 0x7FF0000000000000"

definition trust_score_valid_range_accepts :: bool where
  "trust_score_valid_range_accepts =
     (is_ok (TrustScore_new f64_zero) \<and> is_ok (TrustScore_new f64_0_5) \<and> is_ok (TrustScore_new f64_one))"

definition trust_score_out_of_range_rejects :: bool where
  "trust_score_out_of_range_rejects =
     (\<not> is_ok (TrustScore_new f64_minus_0_1) \<and> \<not> is_ok (TrustScore_new f64_1_1)
      \<and> \<not> is_ok (TrustScore_new f64_NAN) \<and> \<not> is_ok (TrustScore_new f64_INFINITY))"

definition content_hash_display_shows_hex :: bool where
  "content_hash_display_shows_hex =
     (let bytes = (replicate 32 0)[0 := 0xde, 1 := 0xad, 31 := 0xff];
          s = ContentHash_fmt (ContentHash_new bytes)
      in prefix ''dead'' s \<and> suffix ''ff'' s \<and> length s = 64)"

definition example_blocks_all_valid :: "datetime \<Rightarrow> uuid \<Rightarrow> uuid \<Rightarrow> uuid \<Rightarrow> bool" where
  "example_blocks_all_valid now id1 id2 id3 =
     (case example_blocks now id1 id2 id3 of
        None \<Rightarrow> False
      | Some blocks \<Rightarrow>
          length blocks = 3 \<and>
          (let m = manifest (blocks ! 0) in man_name m = ''git-env'' \<and> minimum_trust_level m = Zero
             \<and> cognitive_load m = Low \<and> requires m = [] \<and> length (provides m) = 1) \<and>
          (let m = manifest (blocks ! 1) in man_name m = ''rust-dev-env'' \<and> minimum_trust_level m = One
             \<and> cognitive_load m = Medium \<and> length (requires m) = 1) \<and>
          (let m = manifest (blocks ! 2) in man_name m = ''bose-search'' \<and> minimum_trust_level m = Two
             \<and> cognitive_load m = High \<and> length (requires m) = 2))"

definition semver_display_formats_correctly :: bool where
  "semver_display_formats_correctly =
     (SemVer_fmt (SemVer_new 1 2 3) = ''1.2.3'' \<and> SemVer_fmt (SemVer_new 0 0 0) = ''0.0.0'')"

definition content_hash_as_bytes_returns_raw_bytes :: bool where
  "content_hash_as_bytes_returns_raw_bytes =
     (let bytes = replicate 32 0xab in ContentHash_as_bytes (ContentHash_new bytes) = bytes)"

definition content_hash_equality_same_bytes :: bool where
  "content_hash_equality_same_bytes =
     (let bytes = replicate 32 0x42 in ContentHash_new bytes = ContentHash_new bytes)"

text \<open>The difference of two doubles is compared with \<open>f64::EPSILON\<close>, \<open>2^-52\<close>, exactly.\<close>

definition trust_score_value_returns_inner_f64 :: bool where
  "trust_score_value_returns_inner_f64 =
     (case TrustScore_new f64_0_75 of
        Inl e \<Rightarrow> False
      | Inr score \<Rightarrow> \<bar>f64_scaled (TrustScore_value score) - f64_scaled f64_0_75\<bar> * 2 ^ 52 < int f64_unit)"

definition trust_score_display_formats_to_4_decimal_places :: bool where
  "trust_score_display_formats_to_4_decimal_places =
     (case TrustScore_new f64_0_5 of Inl e \<Rightarrow> False | Inr score \<Rightarrow> TrustScore_fmt score = ''0.5000'')"

definition trust_score_try_from_valid_value_succeeds :: bool where
  "trust_score_try_from_valid_value_succeeds = is_ok (TrustScore_try_from f64_0_9)"

definition execution_record_new_sets_correct_fields :: "uuid \<Rightarrow> uuid \<Rightarrow> datetime \<Rightarrow> bool" where
  "execution_record_new_sets_correct_fields id1 id2 now =
     (let bid = BlockId_new id1; uid = UserId_new ''test-user'';
          ihash = ContentHash_new (replicate 32 0); ohash = ContentHash_new (replicate 32 1);
          dur = 100 * 1000000;
          rcd = ExecutionRecord_new id2 bid uid ihash ohash now dur Succeeded
      in rec_block_id rcd = bid \<and> user_id rcd = uid \<and> input_hash rcd = ihash
         \<and> output_hash rcd = ohash \<and> rec_duration rcd = dur \<and> vm_snapshot_id rcd = None)"

definition execution_status_failed_contains_reason :: bool where
  "execution_status_failed_contains_reason =
     (case Failed ''out of memory'' of Failed reason \<Rightarrow> reason = ''out of memory'' | _ \<Rightarrow> False)"

section \<open>forge-executor\<close>

definition newline :: string where
  "newline = [CHR 0x0A]"

definition vm_config_default_values_are_sane :: bool where
  "vm_config_default_values_are_sane =
     (let config = VmConfig_new ''/tmp/vmlinux'' ''/tmp/rootfs.ext4''
      in vcpu_count config = 1 \<and> mem_size_mib config = 128 \<and> sublist ''console=ttyS0'' (boot_args config))"

definition executor_error_display_includes_context :: "(uuid \<Rightarrow> string) \<Rightarrow> bool" where
  "executor_error_display_includes_context fmt =
     (let msg = ExecutorError_fmt fmt (BinaryNotFound ''/usr/local/bin/firecracker'');
          msg2 = ExecutorError_fmt fmt (KvmUnavailable ''permission denied'')
      in sublist ''firecracker'' msg \<and> sublist ''/usr/local/bin'' msg \<and> sublist ''permission denied'' msg2)"

definition health_check_fails_without_kvm :: "env \<Rightarrow> history \<Rightarrow> bool" where
  "health_check_fails_without_kvm E h =
     (let b = FirecrackerBackend_new ''/nonexistent/firecracker'' ''/tmp'' ''/tmp''
      in case fst (fc_health_check E b h) of
           Inl (KvmUnavailable _) \<Rightarrow> True
         | Inl (BinaryNotFound _) \<Rightarrow> True
         | _ \<Rightarrow> False)"

definition snapshot_id_display_is_uuid_format :: "(uuid \<Rightarrow> string) \<Rightarrow> uuid \<Rightarrow> bool" where
  "snapshot_id_display_is_uuid_format fmt drawn =
     (let s = VmSnapshotId_fmt fmt (VmSnapshotId_new drawn)
      in length s = 36 \<and> length (filter (\<lambda>c. c = CHR ''-'') s) = 4)"

definition vm_config_custom_vcpu_and_mem_preserved :: bool where
  "vm_config_custom_vcpu_and_mem_preserved =
     (let config = (VmConfig_new ''/tmp/vmlinux'' ''/tmp/rootfs.ext4'')\<lparr>vcpu_count := 4, mem_size_mib := 512\<rparr>
      in vcpu_count config = 4 \<and> mem_size_mib config = 512)"

definition vm_config_serialization_roundtrip :: "(json \<Rightarrow> string) \<Rightarrow> (string \<Rightarrow> json option) \<Rightarrow> bool" where
  "vm_config_serialization_roundtrip to_text from_text =
     (let config = VmConfig_new ''/tmp/vmlinux'' ''/tmp/rootfs.ext4'';
          text = to_text (VmConfig_serialize config)
      in case from_str from_text VmConfig_deserialize text of
           None \<Rightarrow> False
         | Some restored \<Rightarrow>
             kernel_path config = kernel_path restored \<and> rootfs_path config = rootfs_path restored
             \<and> vcpu_count config = vcpu_count restored \<and> mem_size_mib config = mem_size_mib restored)"

definition snapshot_id_equality_same_uuid :: "uuid \<Rightarrow> bool" where
  "snapshot_id_equality_same_uuid uuid = (VmSnapshotId uuid = VmSnapshotId uuid)"

subsection \<open>The serial console parser\<close>

type_synonym encoder = "u8 list \<Rightarrow> u8 list"
type_synonym decoder = "u8 list \<Rightarrow> u8 list option"

definition parse_execution_output_extracts_stdout_and_stderr :: "encoder \<Rightarrow> decoder \<Rightarrow> bool" where
  "parse_execution_output_extracts_stdout_and_stderr encode decode =
     (let hello_out = as_bytes (''hello stdout'' @ newline); hello_err = as_bytes (''hello stderr'' @ newline);
          raw = make_b64_output encode hello_out hello_err 0;
          (out, err, _) = parse_execution_output decode raw
      in out = hello_out \<and> err = hello_err)"

definition parse_execution_output_decodes_base64 :: "encoder \<Rightarrow> decoder \<Rightarrow> bool" where
  "parse_execution_output_decodes_base64 encode decode =
     (let payload = map of_nat [0..<256]; raw = make_b64_output encode payload [] 0;
          (out, _, _) = parse_execution_output decode raw
      in out = payload)"

definition parse_execution_output_fallback_on_missing_markers :: "decoder \<Rightarrow> bool" where
  "parse_execution_output_fallback_on_missing_markers decode =
     (let raw = as_bytes ''raw serial output without any markers'';
          (out, err, code) = parse_execution_output decode raw
      in out = raw \<and> err = [] \<and> code = - 1)"

definition parse_execution_output_extracts_exit_code :: "encoder \<Rightarrow> decoder \<Rightarrow> bool" where
  "parse_execution_output_extracts_exit_code encode decode =
     (let raw = make_b64_output encode (as_bytes ''out'') (as_bytes ''err'') 42;
          (_, _, code) = parse_execution_output decode raw
      in code = 42)"

definition extract_exit_code_negative_value_is_parsed :: bool where
  "extract_exit_code_negative_value_is_parsed =
     (extract_exit_code (as_bytes ''FORGE_EXIT:-1'' @ crlf) = Some (- 1))"

definition extract_exit_code_missing_marker_returns_none :: bool where
  "extract_exit_code_missing_marker_returns_none = (extract_exit_code (as_bytes ''no marker here'') = None)"

definition extract_b64_section_missing_start_returns_none :: "decoder \<Rightarrow> bool" where
  "extract_b64_section_missing_start_returns_none decode =
     (extract_b64_section decode (as_bytes ''FORGE_STDOUT_B64_END'' @ crlf)
        (as_bytes ''FORGE_STDOUT_B64_START'') (as_bytes ''FORGE_STDOUT_B64_END'') = None)"

definition parse_execution_output_empty_stdout_and_stderr :: "encoder \<Rightarrow> decoder \<Rightarrow> bool" where
  "parse_execution_output_empty_stdout_and_stderr encode decode =
     (let raw = make_b64_output encode [] [] 0; (out, err, code) = parse_execution_output decode raw
      in out = [] \<and> err = [] \<and> code = 0)"

definition proptest_exit_code_roundtrip :: "i32 \<Rightarrow> bool" where
  "proptest_exit_code_roundtrip code =
     (extract_exit_code (as_bytes (''FORGE_EXIT:'' @ show_i32 code) @ crlf) = Some code)"

definition proptest_base64_roundtrip :: "encoder \<Rightarrow> decoder \<Rightarrow> u8 list \<Rightarrow> bool" where
  "proptest_base64_roundtrip encode decode data = (decode (encode data) = Some data)"

subsection \<open>The orchestrator with a failing backend\<close>

definition AlwaysFailBackend :: vmm_backend where
  "AlwaysFailBackend =
     \<lparr>vb_spawn = (\<lambda>_. throw (SpawnFailed ''mock always fails'')), vb_snapshot = (\<lambda>_. throw (SpawnFailed ''mock'')),
      vb_restore = (\<lambda>_. throw (SpawnFailed ''mock'')), vb_terminate = (\<lambda>v. dropping_child (process v) (ret ())),
      vb_health_check = ret (), vb_execute_command = (\<lambda>_ _ _. throw (SpawnFailed ''mock''))\<rparr>"

definition orchestrator_active_count_starts_at_zero :: "history \<Rightarrow> bool" where
  "orchestrator_active_count_starts_at_zero h = (active_count (orch_new h) = 0)"

definition orchestrator_spawn_propagates_backend_error :: "history \<Rightarrow> bool" where
  "orchestrator_spawn_propagates_backend_error h =
     (case fst (orch_spawn AlwaysFailBackend (VmConfig_new ''/tmp/k'' ''/tmp/r'') (orch_new h)) of
        Inl (SpawnFailed _) \<Rightarrow> True | _ \<Rightarrow> False)"

definition orchestrator_terminate_unregistered_returns_vm_not_found ::
  "datetime \<Rightarrow> uuid \<Rightarrow> pid \<Rightarrow> history \<Rightarrow> bool" where
  "orchestrator_terminate_unregistered_returns_vm_not_found now drawn child h =
     (let handle = VmHandle_new now drawn ''/tmp/test.sock'' child
      in case fst (orch_terminate AlwaysFailBackend handle (orch_new h)) of
           Inl (VmNotFound _) \<Rightarrow> True | _ \<Rightarrow> False)"

definition orchestrator_snapshot_unregistered_returns_vm_not_found ::
  "datetime \<Rightarrow> uuid \<Rightarrow> pid \<Rightarrow> history \<Rightarrow> bool" where
  "orchestrator_snapshot_unregistered_returns_vm_not_found now drawn child h =
     (let handle = VmHandle_new now drawn ''/tmp/test.sock'' child
      in case fst (orch_snapshot AlwaysFailBackend handle (orch_new h)) of
           Inl (VmNotFound _) \<Rightarrow> True | _ \<Rightarrow> False)"

subsection \<open>The runner and the fuzz targets\<close>

definition is_ascii_hexdigit :: "char \<Rightarrow> bool" where
  "is_ascii_hexdigit c = (c \<in> set ''0123456789abcdefABCDEF'')"

definition compute_hash_is_deterministic :: "'s hasher \<Rightarrow> bool" where
  "compute_hash_is_deterministic H =
     (let out = as_bytes (''git version 2.43.0'' @ newline) in compute_hash H out [] = compute_hash H out [])"

definition compute_hash_differs_for_different_input :: "'s hasher \<Rightarrow> bool" where
  "compute_hash_differs_for_different_input H =
     (let hash1 = compute_hash H (as_bytes (''output1'' @ newline)) [];
          hash2 = compute_hash H (as_bytes (''output2'' @ newline)) []
      in hash1 \<noteq> hash2)"

definition compute_hash_includes_stderr :: "'s hasher \<Rightarrow> bool" where
  "compute_hash_includes_stderr H =
     (let hash_no_stderr = compute_hash H (as_bytes ''out'') [];
          hash_with_stderr = compute_hash H (as_bytes ''out'') (as_bytes ''err'')
      in hash_no_stderr \<noteq> hash_with_stderr)"

definition compute_hash_empty_input_is_sha256_of_empty :: "'s hasher \<Rightarrow> bool" where
  "compute_hash_empty_input_is_sha256_of_empty H =
     (let hash = compute_hash H [] []; hex = ContentHash_fmt hash
      in hex = ''e3b0c44298fc1c149afbf4c8996fb92427ae41e4649b934ca495991b7852b855'')"

definition build_command_wraps_block_name :: bool where
  "build_command_wraps_block_name =
     (let cmd = build_command ''git-env'' in sublist ''git-env'' cmd \<and> prefix ''echo'' cmd)"

definition proptest_hash_output_always_64_hex_chars :: "'s hasher \<Rightarrow> u8 list \<Rightarrow> u8 list \<Rightarrow> bool" where
  "proptest_hash_output_always_64_hex_chars H out err =
     (let hex = ContentHash_fmt (compute_hash H out err) in length hex = 64 \<and> list_all is_ascii_hexdigit hex)"

text \<open>The generated sequences have 1 to 63 bytes; equal ones are discarded (\<open>prop_assume!\<close>).\<close>

definition proptest_hash_order_matters_stdout_before_stderr :: "'s hasher \<Rightarrow> u8 list \<Rightarrow> u8 list \<Rightarrow> bool" where
  "proptest_hash_order_matters_stdout_before_stderr H a b =
     (if length a \<in> {1..<64} \<and> length b \<in> {1..<64} \<and> a \<noteq> b
      then (let hash_ab = compute_hash H a b; hash_ba = compute_hash H b a in hash_ab \<noteq> hash_ba)
      else True)"

definition fuzz_hash_computation :: "'s hasher \<Rightarrow> u8 list \<Rightarrow> bool" where
  "fuzz_hash_computation H data =
     (let hex = ContentHash_fmt (compute_hash H data []) in length hex = 64 \<and> list_all is_ascii_hexdigit hex)"

text \<open>The target discards what the decoder returns; its serial parser is not called.\<close>

definition fuzz_parse_execution_output :: "'s hasher \<Rightarrow> u8 list \<Rightarrow> bool" where
  "fuzz_parse_execution_output H data = (length (ContentHash_fmt (compute_hash H data data)) = 64)"

definition fuzz_content_hash :: "(json \<Rightarrow> string) \<Rightarrow> (string \<Rightarrow> json option) \<Rightarrow> u8 list \<Rightarrow> bool" where
  "fuzz_content_hash to_text from_text data =
     (if length data \<noteq> 32 then True
      else let hash = ContentHash_new data; hex = ContentHash_fmt hash; text = to_text (ContentHash_serialize hash)
           in length hex = 64 \<and> from_str from_text ContentHash_deserialize text \<noteq> None)"

text \<open>The tests of each crate together.\<close>

definition core_unit_tests :: "datetime \<Rightarrow> uuid \<Rightarrow> uuid \<Rightarrow> uuid \<Rightarrow> bool" where
  "core_unit_tests now id1 id2 id3 =
     (trust_score_valid_range_accepts \<and> trust_score_out_of_range_rejects \<and> content_hash_display_shows_hex
      \<and> example_blocks_all_valid now id1 id2 id3 \<and> semver_display_formats_correctly
      \<and> content_hash_as_bytes_returns_raw_bytes \<and> content_hash_equality_same_bytes
      \<and> trust_score_value_returns_inner_f64 \<and> trust_score_display_formats_to_4_decimal_places
      \<and> trust_score_try_from_valid_value_succeeds \<and> execution_record_new_sets_correct_fields id1 id2 now
      \<and> execution_status_failed_contains_reason)"

definition executor_unit_tests ::
  "(json \<Rightarrow> string) \<Rightarrow> (string \<Rightarrow> json option) \<Rightarrow> env \<Rightarrow> encoder \<Rightarrow> decoder \<Rightarrow> 's hasher \<Rightarrow> history \<Rightarrow> datetime \<Rightarrow> uuid \<Rightarrow> pid \<Rightarrow> bool" where
  "executor_unit_tests to_text from_text E encode decode H h now drawn child =
     (vm_config_default_values_are_sane \<and> executor_error_display_includes_context uuid_hyphenated
      \<and> health_check_fails_without_kvm E h \<and> snapshot_id_display_is_uuid_format uuid_hyphenated drawn
      \<and> vm_config_custom_vcpu_and_mem_preserved \<and> vm_config_serialization_roundtrip to_text from_text
      \<and> snapshot_id_equality_same_uuid drawn
      \<and> parse_execution_output_extracts_stdout_and_stderr encode decode
      \<and> parse_execution_output_decodes_base64 encode decode
      \<and> parse_execution_output_fallback_on_missing_markers decode
      \<and> parse_execution_output_extracts_exit_code encode decode
      \<and> extract_exit_code_negative_value_is_parsed \<and> extract_exit_code_missing_marker_returns_none
      \<and> extract_b64_section_missing_start_returns_none decode
      \<and> parse_execution_output_empty_stdout_and_stderr encode decode
      \<and> orchestrator_active_count_starts_at_zero h \<and> orchestrator_spawn_propagates_backend_error h
      \<and> orchestrator_terminate_unregistered_returns_vm_not_found now drawn child h
      \<and> orchestrator_snapshot_unregistered_returns_vm_not_found now drawn child h
      \<and> compute_hash_is_deterministic H \<and> compute_hash_differs_for_different_input H
      \<and> compute_hash_includes_stderr H \<and> compute_hash_empty_input_is_sha256_of_empty H
      \<and> build_command_wraps_block_name)"

definition generated_input_tests ::
  "(json \<Rightarrow> string) \<Rightarrow> (string \<Rightarrow> json option) \<Rightarrow> encoder \<Rightarrow> decoder \<Rightarrow> 's hasher \<Rightarrow> i32 \<Rightarrow> u8 list \<Rightarrow> u8 list \<Rightarrow> bool" where
  "generated_input_tests to_text from_text encode decode H code data data' =
     (proptest_exit_code_roundtrip code \<and> proptest_base64_roundtrip encode decode data
      \<and> proptest_hash_output_always_64_hex_chars H data data' \<and> fuzz_hash_computation H data
      \<and> fuzz_parse_execution_output H data \<and> fuzz_content_hash to_text from_text data)"

section \<open>The tests hold\<close>

lemmas core_test_defs = trust_score_valid_range_accepts_def trust_score_out_of_range_rejects_def
  content_hash_display_shows_hex_def example_blocks_all_valid_def semver_display_formats_correctly_def
  content_hash_as_bytes_returns_raw_bytes_def content_hash_equality_same_bytes_def
  trust_score_value_returns_inner_f64_def trust_score_display_formats_to_4_decimal_places_def
  trust_score_try_from_valid_value_succeeds_def execution_record_new_sets_correct_fields_def
  execution_status_failed_contains_reason_def

lemmas f64_literals = f64_zero_def f64_one_def f64_0_5_def f64_0_75_def f64_minus_0_1_def f64_1_1_def
  f64_NAN_def f64_INFINITY_def f64_0_9_def

lemma score_literals:
  "TrustScore_new f64_zero = Ok (TrustScore f64_zero)" "TrustScore_new f64_0_5 = Ok (TrustScore f64_0_5)"
  "TrustScore_new f64_one = Ok (TrustScore f64_one)" "TrustScore_new f64_0_75 = Ok (TrustScore f64_0_75)"
  "TrustScore_new f64_0_9 = Ok (TrustScore f64_0_9)" "\<not> is_ok (TrustScore_new f64_minus_0_1)"
  "\<not> is_ok (TrustScore_new f64_1_1)" "\<not> is_ok (TrustScore_new f64_NAN)" "\<not> is_ok (TrustScore_new f64_INFINITY)"
  by (simp_all add: TrustScore_new_def f64_le_def f64_eval_defs f64_literals)

lemma trust_tests:
  "trust_score_valid_range_accepts" "trust_score_out_of_range_rejects"
  "trust_score_value_returns_inner_f64" "trust_score_try_from_valid_value_succeeds"
  using f64_unit_half by (simp_all add: core_test_defs score_literals TrustScore_try_from_def)

lemma display_test: "trust_score_display_formats_to_4_decimal_places"
proof -
  have "f64_magnitude f64_0_5 = f64_half_unit" "\<not> is_nan f64_0_5" "\<not> is_infinite f64_0_5" "\<not> f64_sign f64_0_5"
    by (simp_all add: f64_eval_defs f64_literals is_infinite_def f64_half_unit_def)
  moreover have "round_ten_thousandths f64_half_unit = 5000"
  proof -
    have eq: "f64_half_unit * 10000 = 5000 * f64_unit" and "f64_unit \<noteq> 0" using f64_unit_half by simp_all
    then have "f64_half_unit * 10000 div f64_unit = 5000" "f64_half_unit * 10000 mod f64_unit = 0"
      unfolding eq by simp_all
    then show ?thesis using f64_unit_half(2) by (simp add: round_ten_thousandths_def Let_def)
  qed
  ultimately show ?thesis
    by (simp add: core_test_defs score_literals fmt_f64_4_def fmt_four_digits_def show_nat.simps digit_char_def)
qed

lemma block_tests:
  "example_blocks_all_valid now id1 id2 id3" "execution_record_new_sets_correct_fields id1 id2 now"
  "execution_status_failed_contains_reason"
  by (simp_all add: core_test_defs example_blocks_def example_block_def unwrap_def example_scores_valid
      manifest_defs ExecutionRecord_new_def Let_def)

lemma text_tests:
  "content_hash_display_shows_hex" "semver_display_formats_correctly"
  "content_hash_as_bytes_returns_raw_bytes" "content_hash_equality_same_bytes"
  by code_simp+

lemmas parser_test_defs = parse_execution_output_extracts_stdout_and_stderr_def
  parse_execution_output_decodes_base64_def parse_execution_output_extracts_exit_code_def
  parse_execution_output_empty_stdout_and_stderr_def proptest_base64_roundtrip_def

lemma parser_engine_tests:
  assumes "base64_engine encode decode"
  shows "parse_execution_output_extracts_stdout_and_stderr encode decode"
    "parse_execution_output_decodes_base64 encode decode"
    "parse_execution_output_extracts_exit_code encode decode"
    "parse_execution_output_empty_stdout_and_stderr encode decode"
    "proptest_base64_roundtrip encode decode data"
  using base64_engine.decode_encode [OF assms]
  by (simp_all add: parser_test_defs make_b64_output_roundtrip [OF assms] Let_def del: as_bytes_simps upt_rec_numeral)

lemma proptest_exit_code: "proptest_exit_code_roundtrip code"
proof -
  have "line_block []" "\<not> sublist exit_marker []" by (simp_all add: line_block_def exit_marker_def)
  from exit_code_roundtrip [OF this, of code "[]"] show ?thesis
    by (simp add: proptest_exit_code_roundtrip_def exit_marker_def)
qed

lemma fallback_tests:
  "parse_execution_output_fallback_on_missing_markers decode"
  "extract_b64_section_missing_start_returns_none decode"
  by code_simp+

lemma exit_code_tests:
  "extract_exit_code_negative_value_is_parsed" "extract_exit_code_missing_marker_returns_none"
  by code_simp+

lemma config_tests:
  "vm_config_default_values_are_sane" "executor_error_display_includes_context fmt"
  "vm_config_custom_vcpu_and_mem_preserved" "snapshot_id_equality_same_uuid u" "build_command_wraps_block_name"
  by code_simp+

lemma orchestrator_tests:
  "orchestrator_active_count_starts_at_zero h" "orchestrator_spawn_propagates_backend_error h"
  "orchestrator_terminate_unregistered_returns_vm_not_found now drawn child h"
  "orchestrator_snapshot_unregistered_returns_vm_not_found now drawn child h"
  by (simp_all add: orchestrator_active_count_starts_at_zero_def active_count_def
      orchestrator_spawn_propagates_backend_error_def orch_spawn_def call_backend_def AlwaysFailBackend_def throw_def
      orchestrator_terminate_unregistered_returns_vm_not_found_def orch_terminate_def registered_def
      orchestrator_snapshot_unregistered_returns_vm_not_found_def orch_snapshot_def Let_def)

lemma health_check_test:
  assumes "\<And>h. \<not> path_exists E h ''/nonexistent/firecracker''"
  shows "health_check_fails_without_kvm E h"
proof -
  let ?b = "FirecrackerBackend_new ''/nonexistent/firecracker'' ''/tmp'' ''/tmp''"
  have "fst (which_binary E ''/nonexistent/firecracker'' h') = Err (BinaryNotFound ''/nonexistent/firecracker'')" for h'
    by (simp add: which_binary_def exec_projections ask_exists_def assms is_absolute_def throw_def)
  then have "fst (fc_health_check E ?b h) \<noteq> Ok u" for u
    by (simp add: fc_health_check_def FirecrackerBackend_new_def exec_projections throw_def split: sum.split)
  then obtain e where e: "fst (fc_health_check E ?b h) = Err e" by (cases "fst (fc_health_check E ?b h)") auto
  then have "health_error e" using raisesD [OF raises_fc_health_check] by (metis prod.collapse)
  with e show ?thesis by (cases e) (simp_all add: health_check_fails_without_kvm_def Let_def)
qed

lemma snapshot_id_test: "snapshot_id_display_is_uuid_format uuid_hyphenated drawn"
proof -
  have no_dash: "CHR ''-'' \<notin> set (nibbles k n)" for k n using nibbles_not_dash by blast
  have "filter (\<lambda>c. c = CHR ''-'') (take i (drop j (nibbles k n))) = []"
    "filter (\<lambda>c. c = CHR ''-'') (drop j (nibbles k n)) = []" "filter (\<lambda>c. c = CHR ''-'') (take j (nibbles k n)) = []" for i j k n
    unfolding filter_empty_conv using no_dash by (blast dest: in_set_takeD in_set_dropD)+
  then show ?thesis
    by (simp add: snapshot_id_display_is_uuid_format_def VmSnapshotId_new_def uuid_hyphenated_def Let_def)
qed

lemma hash_tests:
  assumes "sha256_hasher H digest"
  shows "compute_hash_is_deterministic H" "proptest_hash_output_always_64_hex_chars H out err"
    "fuzz_hash_computation H data" "fuzz_parse_execution_output H data"
proof -
  have hex: "length (ContentHash_fmt (compute_hash H a b)) = 64 \<and> list_all is_ascii_hexdigit (ContentHash_fmt (compute_hash H a b))" for a b
  proof -
    have "set ''0123456789abcdef'' \<subseteq> set ''0123456789abcdefABCDEF''" by simp
    then show ?thesis
      using ContentHash_fmt_hex [OF sha256_hasher.compute_hash_wf [OF assms, of a b]]
      unfolding list_all_iff is_ascii_hexdigit_def by blast
  qed
  then show "compute_hash_is_deterministic H" "proptest_hash_output_always_64_hex_chars H out err"
    "fuzz_hash_computation H data" "fuzz_parse_execution_output H data"
    by (simp_all add: compute_hash_is_deterministic_def proptest_hash_output_always_64_hex_chars_def
        fuzz_hash_computation_def fuzz_parse_execution_output_def Let_def)
qed

lemma digest_tests:
  assumes "sha256_hasher H sha256"
  shows "compute_hash_differs_for_different_input H" "compute_hash_includes_stderr H"
    "compute_hash_empty_input_is_sha256_of_empty H"
proof -
  have hex: "ContentHash_fmt (compute_hash H a b) = ContentHash_fmt (ContentHash (sha256 (a @ b)))" for a b
    by (simp add: sha256_hasher.compute_hash_digest [OF assms])
  have line: "as_bytes (t @ newline) = as_bytes t @ [10]" for t
    by (simp add: newline_def byte_of_char_def of_char_def)
  have both: "as_bytes ''out'' @ as_bytes ''err'' = as_bytes ''outerr''" by simp
  show "compute_hash_differs_for_different_input H"
    unfolding compute_hash_differs_for_different_input_def Let_def ContentHash_fmt_inject [symmetric]
    by (simp only: hex line append_Nil2 sha256_output1 sha256_output2) simp
  show "compute_hash_includes_stderr H"
    unfolding compute_hash_includes_stderr_def Let_def ContentHash_fmt_inject [symmetric]
    by (simp only: hex both append_Nil2 sha256_out sha256_outerr) simp
  show "compute_hash_empty_input_is_sha256_of_empty H"
    unfolding compute_hash_empty_input_is_sha256_of_empty_def Let_def
    by (simp only: hex append_Nil2 sha256_empty)
qed

lemma json_tests:
  assumes "serde_json to_text from_text"
  shows "vm_config_serialization_roundtrip to_text from_text" "fuzz_content_hash to_text from_text data"
proof -
  have texts: "serde_texts to_text from_text reference_leaves"
    using assms reference.leaf_formats_axioms by (rule serde_texts.intro)
  show "vm_config_serialization_roundtrip to_text from_text"
    by (simp add: vm_config_serialization_roundtrip_def serde_texts.VmConfig_text [OF texts])
  show "fuzz_content_hash to_text from_text data"
    using ContentHash_fmt_hex [of "ContentHash_new data"] serde_texts.ContentHash_through_text [OF texts, of "ContentHash_new data"]
    by (simp add: fuzz_content_hash_def wf_ContentHash_def ContentHash_new_def)
qed

text \<open>
  C26. Swapping output and error output leaves the hash unchanged exactly when both are
  repetitions of one byte sequence, as long as the digest tells the two concatenations
  apart when they differ. So the property test that expects a different hash for every two
  different outputs of 1 to 63 bytes holds exactly for those that are not such repetitions.
\<close>

theorem compute_hash_swap:
  assumes "sha256_hasher H digest" and "inj_on digest {a @ b, b @ a}"
  shows "(compute_hash H a b = compute_hash H b a \<longleftrightarrow>
      (\<exists>zs m n. a = concat (replicate m zs) \<and> b = concat (replicate n zs)))
    \<and> (proptest_hash_order_matters_stdout_before_stderr H a b \<longleftrightarrow>
      \<not> (length a \<in> {1..<64} \<and> length b \<in> {1..<64} \<and> a \<noteq> b
         \<and> (\<exists>zs m n. a = concat (replicate m zs) \<and> b = concat (replicate n zs))))"
proof -
  have "compute_hash H a b = compute_hash H b a \<longleftrightarrow>
      (\<exists>zs m n. a = concat (replicate m zs) \<and> b = concat (replicate n zs))"
    using sha256_hasher.compute_hash_eq_iff [OF assms] by (simp add: append_commute_iff)
  then show ?thesis
    unfolding proptest_hash_order_matters_stdout_before_stderr_def Let_def by argo
qed

theorem compute_hash_swap_witness:
  "\<not> proptest_hash_order_matters_stdout_before_stderr collecting_hasher [0] [0, 0]
   \<and> compute_hash collecting_hasher [0] [0, 0] = compute_hash collecting_hasher [0, 0] [0]"
proof -
  have "\<exists>zs m n. [0 :: u8] = concat (replicate m zs) \<and> [0, 0] = concat (replicate n zs)"
    by (intro exI [of _ "[0]"] exI [of _ 1] exI [of _ 2]) (simp add: numeral_2_eq_2)
  with compute_hash_swap [OF fips180.sha256_hasher_axioms, of "[0]" "[0, 0]"] show ?thesis by simp
qed


definition no_binary_env :: env where
  "no_binary_env = (sim_env [])\<lparr>path_exists := \<lambda>_ q. q = ''/dev/kvm''\<rparr>"


end
