(* ===== verification/Gateway_Properties.thy ===== *)
theory Gateway_Properties
  imports Gateway
begin

text \<open>
  The properties of the gateway crate: routing, the lifecycle of sandboxes, the processes
  requests start, and the responses. The pool's map is any implementation of the
  \<open>index_map\<close> contract; the instances use the association list.
\<close>

text \<open>
  A world for the instances: every process prints \<open>hi\<close> and exits with 0, identifiers and
  clock readings count the events so far.
\<close>

definition demo_output :: process_output where
  "demo_output = \<lparr>status_code = Some 0, proc_stdout = [104, 105], proc_stderr = []\<rparr>"

definition demo_env :: gw_env where
  "demo_env =
     \<lparr>gw_drawn = (\<lambda>t. of_nat (length t)), gw_instant = (\<lambda>t. length t),
      process_result = (\<lambda>_ _ _. Inr demo_output), gw_fmt_uuid = (\<lambda>u. show_nat (unat u)),
      parse_uuid = (\<lambda>s. if list_all is_digit s then Inr (of_int (dec_value 0 s)) else Inl 400),
      de_create = (\<lambda>_ bs. Inr \<lparr>cb_runtime = str_of_bytes bs\<rparr>),
      de_shell = (\<lambda>_ bs. Inr \<lparr>sb_command = str_of_bytes bs\<rparr>),
      de_execute = (\<lambda>_ bs. Inl 422)\<rparr>"

definition demo_entry :: "string \<Rightarrow> SandboxEntry" where
  "demo_entry rt = \<lparr>entry_runtime = rt, entry_created_at = 0\<rparr>"

definition demo_gateway :: "(uuid \<times> SandboxEntry) list gateway" where
  "demo_gateway =
     \<lparr>pool = \<lparr>entries = [(1, demo_entry ''node''), (2, demo_entry ''python'')], poisoned = False\<rparr>, trace = []\<rparr>"

lemma demo_gateway_facts:
  "\<not> poisoned (pool demo_gateway)" "1 \<in> dom (runtimes id demo_gateway)"
  "2 \<in> dom (runtimes id demo_gateway)" "3 \<notin> dom (runtimes id demo_gateway)"
  by (simp_all add: demo_gateway_def pool_view_def)

lemma demo_trace: "trace demo_gateway = []"
  by (simp add: demo_gateway_def)

lemma alist_map_index_map: "index_map alist_map id"
  by unfold_locales

section \<open>The API\<close>

text \<open>
  C6. The gateway implements its specification: on a healthy pool every call is answered
  (no panic), and status and registered sandboxes afterwards are those of the abstract
  API, a map from identifiers to runtimes: 201 for a supported runtime, 204 for a
  destroyed sandbox, 404 for an unknown one, 200 for a process that ran, 400 otherwise.
\<close>

theorem gateway_refines_spec:
  assumes "index_map M items" and "\<not> poisoned (pool g)"
  shows "\<exists>rsp g'. answer E M c g = Some (rsp, g') \<and> \<not> poisoned (pool g')
    \<and> (rsp_status rsp, runtimes items g')
      = spec_answer (gw_drawn E (trace g)) (process_starts E c (trace g)) c (runtimes items g)"
  by (rule index_map.answer_refines [OF assms])

theorem gateway_refines_spec_witness:
  "\<exists>rsp g'. answer demo_env alist_map (Destroy 1) demo_gateway = Some (rsp, g') \<and> rsp_status rsp = 204
     \<and> runtimes id g' = (runtimes id demo_gateway)(1 := None)"
  using gateway_refines_spec [OF alist_map_index_map demo_gateway_facts(1), of demo_env "Destroy 1"]
    demo_gateway_facts(2) by auto

text \<open>
  C8. Whatever requests a fresh gateway receives, it answers each of them and never panics
  (its lock is never poisoned), every registered sandbox has a supported runtime, and every
  process it started is \<open>sh -c\<close>, \<open>node -e\<close> or \<open>python3 -c\<close> with one text.
\<close>

theorem gateway_every_run:
  assumes "index_map M items"
  shows "\<exists>rsps g. serve_all E M rqs (gateway_new M) = Some (rsps, g) \<and> length rsps = length rqs
    \<and> \<not> poisoned (pool g) \<and> (\<forall>rt \<in> ran (runtimes items g). supported rt) \<and> list_all allowed_event (trace g)"
  using index_map.serve_all_ok [OF assms index_map.gateway_new_ok [OF assms], of E rqs]
  by (auto simp: gateway_ok_def)

theorem gateway_every_run_witness:
  "\<exists>rsps g. serve_all demo_env alist_map
       [\<lparr>rq_method = Post, rq_path = [''v1'', ''sandbox''], rq_content_type = None, rq_body = as_bytes ''node''\<rparr>,
        \<lparr>rq_method = Post, rq_path = [''v1'', ''sandbox'', ''0'', ''shell''], rq_content_type = None, rq_body = as_bytes ''ls''\<rparr>]
       (gateway_new alist_map) = Some (rsps, g) \<and> length rsps = 2"
  using gateway_every_run [OF alist_map_index_map, of demo_env
      "[\<lparr>rq_method = Post, rq_path = [''v1'', ''sandbox''], rq_content_type = None, rq_body = as_bytes ''node''\<rparr>,
        \<lparr>rq_method = Post, rq_path = [''v1'', ''sandbox'', ''0'', ''shell''], rq_content_type = None, rq_body = as_bytes ''ls''\<rparr>]"]
  by auto

text \<open>
  A call on an unknown sandbox has no effect: it is answered 404 with the identifier in
  the message, no process is started, and the registered sandboxes stay the same.
\<close>

lemma unknown_sandbox_no_effect:
  assumes "index_map M items" and "\<not> poisoned (pool g)" and "i \<notin> dom (runtimes items g)"
    and "call_target c = Some i"
  shows "\<exists>g'. answer E M c g = Some (respond 404 (ErrorBody (''sandbox not found: '' @ gw_fmt_uuid E i)), g')
    \<and> trace g' = trace g \<and> runtimes items g' = runtimes items g"
proof (cases c)
  case (Destroy j)
  with assms(4) have "j = i" by simp
  with Destroy index_map.destroy_cases [OF assms(1,2), of i] assms(3) show ?thesis
    by (auto simp: render_def into_response_def fun_upd_idem simp del: runtimes_dom)
next
  case (Shell j b)
  with assms(4) have "j = i" by simp
  with Shell show ?thesis
    by (simp add: index_map.shell_unknown [OF assms(1-3)] render_def into_response_def)
next
  case (Execute j b)
  with assms(4) have "j = i" by simp
  with Execute show ?thesis
    by (simp add: index_map.execute_unknown [OF assms(1-3)] render_def into_response_def)
qed (use assms(4) in simp_all)

text \<open>
  The life of a sandbox: creating one with a supported runtime returns the drawn
  identifier with 201; destroying it returns 204; after that its identifier is unknown (404)
  and every other sandbox is as it was before.
\<close>

lemma sandbox_lifecycle:
  assumes "index_map M items" and "\<not> poisoned (pool g)" and "supported (cb_runtime b)"
    and "i = gw_drawn E (trace g)"
  shows "\<exists>g1 g2. answer E M (Create b) g = Some (respond 201 (CreateSandboxResponse i), g1)
    \<and> answer E M (Destroy i) g1 = Some (respond 204 NoBody, g2)
    \<and> (\<exists>g3. answer E M (Shell i sb) g2 = Some (respond 404 (ErrorBody (''sandbox not found: '' @ gw_fmt_uuid E i)), g3))
    \<and> (\<forall>j. j \<noteq> i \<longrightarrow> runtimes items g2 j = runtimes items g j)"
proof -
  note L = assms(1)
  obtain g1 where c: "create_sandbox E M b g = Some (Ok (respond 201 (CreateSandboxResponse i)), g1)"
    "\<not> poisoned (pool g1)" "runtimes items g1 = (runtimes items g)(i \<mapsto> cb_runtime b)"
    using index_map.create_cases [OF L assms(2,3), of E] assms(4) by (auto simp: runtimes_upd)
  obtain g2 where d: "destroy_sandbox M i g1 = Some (Ok (respond 204 NoBody), g2)"
    "\<not> poisoned (pool g2)" "runtimes items g2 = (runtimes items g1)(i := None)"
    using index_map.destroy_cases [OF L c(2), of i] c(3) by (auto simp del: runtimes_dom)
  have "i \<notin> dom (runtimes items g2)" using d(3) by (simp add: dom_def del: runtimes_dom)
  then have s: "shell_command E M i sb g2 = Some (Err (SandboxNotFound i), g2)"
    by (rule index_map.shell_unknown [OF L d(2)])
  show ?thesis
    by (rule exI [of _ g1], rule exI [of _ g2])
      (simp add: render_def c d s into_response_def)
qed

text \<open>
  C32. The runtime a sandbox was created with plays no role when code is executed: any two
  registered sandboxes give the same response to the same body, and the program started
  is chosen by the body's runtime.
\<close>

theorem execute_ignores_sandbox_runtime:
  assumes "index_map M items" and "\<not> poisoned (pool g)"
    and "i \<in> dom (runtimes items g)" and "j \<in> dom (runtimes items g)"
  shows "answer E M (Execute i b) g = answer E M (Execute j b) g"
  by (simp add: index_map.execute_known [OF assms(1-3)] index_map.execute_known [OF assms(1,2,4)])

theorem execute_ignores_sandbox_runtime_witness:
  "runtimes id demo_gateway 1 \<noteq> runtimes id demo_gateway 2
   \<and> answer demo_env alist_map (Execute 1 \<lparr>eb_code = ''1'', eb_runtime = ''node''\<rparr>) demo_gateway
     = answer demo_env alist_map (Execute 2 \<lparr>eb_code = ''1'', eb_runtime = ''node''\<rparr>) demo_gateway"
proof
  show "runtimes id demo_gateway 1 \<noteq> runtimes id demo_gateway 2"
    by (simp add: runtimes_def demo_gateway_def pool_view_def demo_entry_def)
qed (rule execute_ignores_sandbox_runtime [OF alist_map_index_map demo_gateway_facts(1-3)])

section \<open>Responses and routes\<close>

text \<open>
  The result of a process: \<open>success\<close> holds exactly when the reported exit code is 0 (a
  process killed by a signal has no code and reports \<open>-1\<close>), and both output texts are
  valid UTF-8 whatever bytes the process wrote.
\<close>

lemma shell_result_consistent:
  "(success (shell_result E start t output) \<longleftrightarrow> sr_exit_code (shell_result E start t output) = 0)
   \<and> valid_utf8 (as_bytes (sr_stdout (shell_result E start t output)))
   \<and> valid_utf8 (as_bytes (sr_stderr (shell_result E start t output)))"
  by (auto simp: shell_result_def from_utf8_lossy_def valid_utf8_lossy split: option.split)

text \<open>
  Routing: the router sends a request to an endpoint exactly for the five documented
  routes, and a captured identifier is the one non-empty path segment in its place.
\<close>

lemma routes_exact:
  "find_route m path = Routed ep caps \<longleftrightarrow>
     (ep = HealthEndpoint \<and> m = Get \<and> path = [''health''] \<and> caps = [])
   \<or> (ep = CreateEndpoint \<and> m = Post \<and> path = [''v1'', ''sandbox''] \<and> caps = [])
   \<or> (\<exists>i. i \<noteq> [] \<and> caps = [i] \<and>
        (ep = DestroyEndpoint \<and> m = Delete \<and> path = [''v1'', ''sandbox'', i]
         \<or> ep = ShellEndpoint \<and> m = Post \<and> path = [''v1'', ''sandbox'', i, ''shell'']
         \<or> ep = ExecuteEndpoint \<and> m = Post \<and> path = [''v1'', ''sandbox'', i, ''execute'']))"
proof -
  consider (short) "path = []" | (one) a where "path = [a]" | (two) a c where "path = [a, c]"
    | (three) a c i where "path = [a, c, i]" | (four) a c i d where "path = [a, c, i, d]"
    | (long) a c i d e rest where "path = a # c # i # d # e # rest"
    by (metis list.exhaust)
  then show ?thesis
    by cases (auto simp: find_route_def route_table_def Let_def split: if_splits)
qed

text \<open>
  Executor errors are answered 500 with the error's full text: for a missing binary the
  response contains the path on the host.
\<close>

lemma executor_error_reveals_path:
  "\<exists>msg. into_response fmt (Executor (BinaryNotFound p)) = respond 500 (ErrorBody msg) \<and> sublist p msg"
proof (intro exI conjI)
  let ?text = "''executor error: firecracker binary not found at ''"
  show "into_response fmt (Executor (BinaryNotFound p)) = respond 500 (ErrorBody (?text @ p))"
    by (simp add: into_response_def)
  show "sublist p (?text @ p)" by (rule sublist_append_leftI)
qed

end
