(* ===== verification/Gateway_Concurrency.thy ===== *)
theory Gateway_Concurrency
  imports Gateway_Properties
begin

text \<open>
  Requests of the gateway that interleave. The handlers of \<open>routes.rs\<close> hold the pool's
  lock only inside \<open>pool.create\<close>, \<open>pool.remove\<close> and \<open>pool.contains\<close>; \<open>shell_command\<close> and
  \<open>execute_code\<close> release it before they start their process, and wait for the process
  without it. A request in flight is therefore \<open>Arrived\<close>, before its access to the pool,
  \<open>Checked\<close>, between the check and the process, or \<open>Running\<close>, waiting for its process since
  the instant it read. Any number of requests may be in flight and move in any order, so
  processes overlap, and a client may hang up, which drops its handler where it awaits.
  \<open>output()\<close> spawns the process before it is awaited and without \<open>kill_on_drop\<close>, so no
  handler is dropped between the check and the start, and the process runs on when its
  handler is dropped.
\<close>

section \<open>The parts of a handler\<close>

text \<open>
  What remains of \<open>shell_command\<close> and \<open>execute_code\<close> once the sandbox was found and the
  instant \<open>start\<close> read.
\<close>

fun await_call :: "gw_env \<Rightarrow> duration \<Rightarrow> api_call \<Rightarrow> gw_trace \<Rightarrow> (GatewayError + ShellResult) \<times> gw_trace" where
  "await_call E start (Shell i b) t = await_shell E start (sb_command b) t"
| "await_call E start (Execute i b) t =
     (case runtime_command (eb_runtime b) of
        Inl e \<Rightarrow> (Err e, t)
      | Inr (bin, flag) \<Rightarrow> await_code E start bin flag (eb_code b) t)"
| "await_call E start c t = (Err (InvalidRequest []), t)"

definition finish_call :: "gw_env \<Rightarrow> duration \<Rightarrow> api_call \<Rightarrow> 'm gateway \<Rightarrow> response \<times> 'm gateway" where
  "finish_call E start c g =
     (let (r, t) = await_call E start c (trace g)
      in (case r of Inl e \<Rightarrow> into_response (gw_fmt_uuid E) e
          | Inr res \<Rightarrow> respond 200 (ShellResultBody res), g\<lparr>trace := t\<rparr>))"

definition instant_now_of :: "gw_env \<Rightarrow> 'm gateway \<Rightarrow> duration" where
  "instant_now_of E g = gw_instant E (trace g)"

fun two_phase :: "api_call \<Rightarrow> bool" where
  "two_phase (Shell i b) = True"
| "two_phase (Execute i b) = True"
| "two_phase _ = False"

definition not_found_response :: "gw_env \<Rightarrow> uuid \<Rightarrow> response" where
  "not_found_response E i = into_response (gw_fmt_uuid E) (SandboxNotFound i)"

text \<open>A call answered without interruption is its check followed by the rest.\<close>

lemma answer_two_phase:
  assumes "two_phase c" and "call_target c = Some i"
  shows "answer E M c g =
    (case pool_contains M i (pool g) of
       None \<Rightarrow> None
     | Some there \<Rightarrow> Some (if there then finish_call E (instant_now_of E g) c g else (not_found_response E i, g)))"
  using assms
  by (cases c) (auto simp: shell_command_def execute_code_def run_shell_def run_code_def render_def finish_call_def
      instant_now_of_def not_found_response_def Let_def split: option.split sum.split prod.split)

section \<open>Requests in flight\<close>

datatype flight = Arrived api_call | Checked api_call | Running duration api_call

text \<open>
  The server: the gateway's state and the requests in flight. \<open>answered\<close>, \<open>accepted\<close>,
  \<open>hung_up\<close>, \<open>created\<close> and \<open>started\<close> record for the properties the responses sent, the
  number of requests accepted and of those whose client hung up, the identifiers ever
  registered and the processes asked for.
\<close>

record 'm server =
  gw :: "'m gateway"
  inflight :: "flight multiset"
  answered :: "response list"
  accepted :: nat
  hung_up :: nat
  created :: "uuid set"
  started :: "(uuid \<times> string \<times> string list) list"

definition server_new :: "'m index_map_ops \<Rightarrow> 'm server" where
  "server_new M = \<lparr>gw = gateway_new M, inflight = {#}, answered = [], accepted = 0, hung_up = 0, created = {}, started = []\<rparr>"

text \<open>The identifier a response says was created.\<close>

definition created_id :: "response \<Rightarrow> uuid set" where
  "created_id rsp = (case rsp_body rsp of CreateSandboxResponse i \<Rightarrow> {i} | _ \<Rightarrow> {})"

text \<open>The process of a call, logged with the sandbox it was checked for.\<close>

definition log_start :: "api_call \<Rightarrow> (uuid \<times> string \<times> string list) list \<Rightarrow> (uuid \<times> string \<times> string list) list" where
  "log_start c ps = (case (call_target c, call_process c) of (Some i, Some q) \<Rightarrow> (i, q) # ps | _ \<Rightarrow> ps)"

inductive serve_step :: "gw_env \<Rightarrow> 'm index_map_ops \<Rightarrow> 'm server \<Rightarrow> 'm server \<Rightarrow> bool" for E M where
  direct: "Arrived c \<in># inflight s \<Longrightarrow> \<not> two_phase c \<Longrightarrow> answer E M c (gw s) = Some (rsp, g) \<Longrightarrow>
    serve_step E M s (s\<lparr>gw := g, inflight := inflight s - {#Arrived c#}, answered := rsp # answered s,
      created := created_id rsp \<union> created s\<rparr>)"
| check_known: "Arrived c \<in># inflight s \<Longrightarrow> two_phase c \<Longrightarrow> call_target c = Some i \<Longrightarrow>
    pool_contains M i (pool (gw s)) = Some True \<Longrightarrow>
    serve_step E M s (s\<lparr>inflight := add_mset (Checked c) (inflight s - {#Arrived c#})\<rparr>)"
| check_unknown: "Arrived c \<in># inflight s \<Longrightarrow> two_phase c \<Longrightarrow> call_target c = Some i \<Longrightarrow>
    pool_contains M i (pool (gw s)) = Some False \<Longrightarrow>
    serve_step E M s (s\<lparr>inflight := inflight s - {#Arrived c#}, answered := not_found_response E i # answered s\<rparr>)"
| refuse: "Checked c \<in># inflight s \<Longrightarrow> call_process c = None \<Longrightarrow>
    finish_call E (instant_now_of E (gw s)) c (gw s) = (rsp, g) \<Longrightarrow>
    serve_step E M s (s\<lparr>gw := g, inflight := inflight s - {#Checked c#}, answered := rsp # answered s\<rparr>)"
| spawn: "Checked c \<in># inflight s \<Longrightarrow> call_process c = Some q \<Longrightarrow>
    serve_step E M s (s\<lparr>inflight := add_mset (Running (instant_now_of E (gw s)) c) (inflight s - {#Checked c#}),
      started := log_start c (started s)\<rparr>)"
| finish: "Running start c \<in># inflight s \<Longrightarrow> finish_call E start c (gw s) = (rsp, g) \<Longrightarrow>
    serve_step E M s (s\<lparr>gw := g, inflight := inflight s - {#Running start c#}, answered := rsp # answered s\<rparr>)"

inductive server_step :: "gw_env \<Rightarrow> 'm index_map_ops \<Rightarrow> 'm server \<Rightarrow> 'm server \<Rightarrow> bool" for E M where
  accept: "server_step E M s (s\<lparr>inflight := add_mset (Arrived c) (inflight s), accepted := Suc (accepted s)\<rparr>)"
| serve: "serve_step E M s t \<Longrightarrow> server_step E M s t"
| hang_up_early: "Arrived c \<in># inflight s \<Longrightarrow>
    server_step E M s (s\<lparr>inflight := inflight s - {#Arrived c#}, hung_up := Suc (hung_up s)\<rparr>)"
| hang_up_running: "Running start c \<in># inflight s \<Longrightarrow> finish_call E start c (gw s) = (rsp, g) \<Longrightarrow>
    server_step E M s (s\<lparr>gw := g, inflight := inflight s - {#Running start c#}, hung_up := Suc (hung_up s)\<rparr>)"

abbreviation server_run :: "gw_env \<Rightarrow> 'm index_map_ops \<Rightarrow> 'm server \<Rightarrow> 'm server \<Rightarrow> bool" where
  "server_run E M \<equiv> (server_step E M)\<^sup>*\<^sup>*"

inductive_cases serve_stepE: "serve_step E M s t"
inductive_cases server_stepE: "server_step E M s t"

section \<open>The invariant\<close>

definition call_ok :: "uuid set \<Rightarrow> flight \<Rightarrow> bool" where
  "call_ok ids f = (case f of Arrived c \<Rightarrow> True
     | Checked c \<Rightarrow> two_phase c \<and> (\<exists>i. call_target c = Some i \<and> i \<in> ids)
     | Running start c \<Rightarrow> two_phase c \<and> (\<exists>i. call_target c = Some i \<and> i \<in> ids))"

definition server_ok :: "('m \<Rightarrow> (uuid \<times> SandboxEntry) list) \<Rightarrow> 'm server \<Rightarrow> bool" where
  "server_ok items s =
     (\<not> poisoned (pool (gw s)) \<and> dom (runtimes items (gw s)) \<subseteq> created s
      \<and> (\<forall>rt \<in> ran (runtimes items (gw s)). supported rt)
      \<and> (\<forall>f \<in># inflight s. call_ok (created s) f)
      \<and> (\<forall>(i, q) \<in> set (started s). i \<in> created s \<and> allowed_process q)
      \<and> size (inflight s) + length (answered s) + hung_up s = accepted s)"

lemma call_ok_mono: "call_ok ids f \<Longrightarrow> ids \<subseteq> ids' \<Longrightarrow> call_ok ids' f"
  by (auto simp: call_ok_def split: flight.splits)

lemma finish_call_pool: "pool (snd (finish_call E start c g)) = pool g"
  by (simp add: finish_call_def case_prod_unfold Let_def)

lemma finish_call_runtimes: "runtimes items (snd (finish_call E start c g)) = runtimes items g"
  by (simp add: runtimes_def finish_call_pool)

context index_map
begin

text \<open>A call answered in one piece registers at most the identifier its response names.\<close>

lemma direct_registers:
  assumes "\<not> poisoned (pool g)" and "\<not> two_phase c" and "answer E M c g = Some (rsp, g')"
  shows "dom (runtimes items g') \<subseteq> created_id rsp \<union> dom (runtimes items g)"
proof (cases c)
  case (Create b)
  show ?thesis
  proof (cases "supported (cb_runtime b)")
    case True
    with create_cases [OF assms(1) True, of E] Create assms(3) show ?thesis
      by (auto simp: render_def created_id_def runtimes_upd simp del: runtimes_dom)
  next
    case False
    with Create assms(3) have "g' = g"
      by (simp add: render_def create_sandbox_def supported_def)
    then show ?thesis by simp
  qed
next
  case (Destroy i)
  with destroy_cases [OF assms(1), of i] assms(3) have "runtimes items g' = (runtimes items g)(i := None)"
    by (auto simp: render_def simp del: runtimes_dom)
  then show ?thesis by (auto simp del: runtimes_dom split: if_splits)
qed (use assms in auto)

lemma direct_ok:
  assumes "\<not> poisoned (pool g)" and "answer E M c g = Some (rsp, g')"
    and "\<forall>rt \<in> ran (runtimes items g). supported rt"
  shows "\<not> poisoned (pool g') \<and> (\<forall>rt \<in> ran (runtimes items g'). supported rt)"
proof -
  let ?spec = "spec_answer (gw_drawn E (trace g)) (process_starts E c (trace g)) c (runtimes items g)"
  have "\<not> poisoned (pool g')" and "(rsp_status rsp, runtimes items g') = ?spec"
    using answer_refines [OF assms(1), of E c] assms(2) by auto
  then show ?thesis using spec_answer_ran [OF assms(3)] by (metis snd_conv)
qed

text \<open>The end of a call, whoever is told about it.\<close>

lemma finish_ok:
  assumes "server_ok items s" and "f \<in># inflight s" and "finish_call E start c (gw s) = (rsp, g)"
  shows "server_ok items (s\<lparr>gw := g, inflight := inflight s - {#f#}, hung_up := Suc (hung_up s)\<rparr>)"
    and "server_ok items (s\<lparr>gw := g, inflight := inflight s - {#f#}, answered := rsp # answered s\<rparr>)"
proof -
  from assms(2) obtain N where N: "inflight s = add_mset f N" by (blast dest: mset_pick)
  have "pool g = pool (gw s)" "runtimes items g = runtimes items (gw s)"
    using finish_call_pool [of E start c "gw s"] finish_call_runtimes [of items E start c "gw s"] assms(3) by simp_all
  with N assms(1) show "server_ok items (s\<lparr>gw := g, inflight := inflight s - {#f#}, hung_up := Suc (hung_up s)\<rparr>)"
    "server_ok items (s\<lparr>gw := g, inflight := inflight s - {#f#}, answered := rsp # answered s\<rparr>)"
    by (auto simp: server_ok_def simp del: runtimes_dom)
qed

lemma serve_step_ok:
  assumes "serve_step E M s t" and "server_ok items s"
  shows "server_ok items t"
  using assms(1)
proof cases
  case (direct c rsp g)
  then obtain N where N: "inflight s = add_mset (Arrived c) N" by (blast dest: mset_pick)
  have g: "\<not> poisoned (pool g) \<and> (\<forall>rt \<in> ran (runtimes items g). supported rt)"
    using direct_ok [OF _ direct(4)] assms(2) by (simp add: server_ok_def)
  have "dom (runtimes items g) \<subseteq> created_id rsp \<union> created s"
    using direct_registers [OF _ direct(3,4)] assms(2) by (auto simp: server_ok_def simp del: runtimes_dom)
  with g N direct(1) assms(2) show ?thesis
    by (auto simp: server_ok_def intro: call_ok_mono simp del: runtimes_dom)
next
  case (check_known c i)
  then obtain N where N: "inflight s = add_mset (Arrived c) N" by (blast dest: mset_pick)
  have "i \<in> dom (runtimes items (gw s))"
    using contains_spec [of "pool (gw s)" i] check_known(5) assms(2) by (simp add: server_ok_def)
  then have "i \<in> created s" using assms(2) unfolding server_ok_def by blast
  with N check_known assms(2) show ?thesis
    by (auto simp: server_ok_def call_ok_def simp del: runtimes_dom)
next
  case (check_unknown c i)
  then obtain N where "inflight s = add_mset (Arrived c) N" by (blast dest: mset_pick)
  with check_unknown(1) assms(2) show ?thesis
    by (auto simp: server_ok_def simp del: runtimes_dom)
next
  case (refuse c rsp g)
  then show ?thesis using finish_ok(2) [OF assms(2) refuse(2,4)] by simp
next
  case (spawn c q)
  then obtain N where N: "inflight s = add_mset (Checked c) N" by (blast dest: mset_pick)
  then have "call_ok (created s) (Checked c)" using assms(2) by (simp add: server_ok_def)
  with N spawn assms(2) show ?thesis
    by (auto simp: server_ok_def call_ok_def log_start_def split: option.splits
        dest: call_process_allowed simp del: runtimes_dom)
next
  case (finish start c rsp g)
  then show ?thesis using finish_ok(2) [OF assms(2) finish(2,3)] by simp
qed

lemma server_run_ok:
  "server_run E M s t \<Longrightarrow> server_ok items s \<Longrightarrow> server_ok items t"
proof (induction rule: rtranclp_induct)
  case (step t u)
  from step(2) show ?case
  proof cases
    case (accept c)
    with step show ?thesis by (auto simp: server_ok_def call_ok_def simp del: runtimes_dom)
  next
    case serve
    with step show ?thesis by (blast intro: serve_step_ok)
  next
    case (hang_up_early c)
    then obtain N where "inflight t = add_mset (Arrived c) N" by (blast dest: mset_pick)
    with hang_up_early(1) step show ?thesis by (auto simp: server_ok_def simp del: runtimes_dom)
  next
    case (hang_up_running start c rsp g)
    then show ?thesis using finish_ok(1) [OF step.IH [OF step.prems]] by simp
  qed
qed

lemma server_new_ok: "server_ok items (server_new M)"
  using gateway_new_ok new_spec
  by (simp add: server_ok_def server_new_def gateway_ok_def gateway_new_def)

end

section \<open>Every request is answered\<close>

text \<open>The steps a request still has to make.\<close>

fun flight_weight :: "flight \<Rightarrow> nat" where
  "flight_weight (Arrived c) = 3"
| "flight_weight (Checked c) = 2"
| "flight_weight (Running start c) = 1"

definition server_work :: "'m server \<Rightarrow> nat" where
  "server_work s = sum_mset (image_mset flight_weight (inflight s))"

lemma server_work_zero: "server_work s = 0 \<longleftrightarrow> inflight s = {#}"
proof -
  have "0 < flight_weight f" for f by (cases f) simp_all
  then show ?thesis by (cases "inflight s") (auto simp: server_work_def)
qed

lemma server_work_bound: "server_work s \<le> 3 * size (inflight s)"
proof -
  have "sum_mset (image_mset flight_weight N) \<le> 3 * size N" for N
  proof (induction N)
    case (add f N)
    then show ?case by (cases f) simp_all
  qed simp
  then show ?thesis by (simp add: server_work_def)
qed

lemma serve_step_work: "serve_step E M s t \<Longrightarrow> server_work t < server_work s"
  by (erule serve_stepE) (auto simp: server_work_def dest!: mset_pick)

lemma serve_run_accepted: "(serve_step E M)\<^sup>*\<^sup>* s t \<Longrightarrow> accepted t = accepted s \<and> hung_up t = hung_up s"
  by (induction rule: rtranclp_induct) (auto elim: serve_stepE)

lemma server_run_accept:
  "server_run E M s t \<Longrightarrow>
     server_run E M s (t\<lparr>inflight := add_mset (Arrived c) (inflight t), accepted := Suc (accepted t)\<rparr>)"
  by (erule rtranclp.rtrancl_into_rtrancl) (rule server_step.accept)

lemma server_run_serve: "server_run E M s t \<Longrightarrow> serve_step E M t u \<Longrightarrow> server_run E M s u"
  by (erule rtranclp.rtrancl_into_rtrancl) (rule server_step.serve)

lemma two_phase_target: "two_phase c \<Longrightarrow> \<exists>i. call_target c = Some i"
  by (cases c) simp_all

context index_map
begin

lemma flight_moves:
  assumes "server_ok items s" and "f \<in># inflight s"
  shows "\<exists>t. serve_step E M s t"
proof (cases f)
  case (Running start c)
  obtain rsp g where "finish_call E start c (gw s) = (rsp, g)" by fastforce
  with assms(2) Running show ?thesis by (blast intro: serve_step.finish)
next
  case (Checked c)
  obtain rsp g where "finish_call E (instant_now_of E (gw s)) c (gw s) = (rsp, g)" by fastforce
  with assms(2) Checked show ?thesis
    by (cases "call_process c") (blast intro: serve_step.refuse, blast intro: serve_step.spawn)
next
  case (Arrived c)
  have healthy: "\<not> poisoned (pool (gw s))" using assms(1) by (simp add: server_ok_def)
  show ?thesis
  proof (cases "two_phase c")
    case True
    then obtain i where i: "call_target c = Some i" using two_phase_target by blast
    have "pool_contains M i (pool (gw s)) = Some (i \<in> dom (runtimes items (gw s)))"
      using contains_spec [OF healthy] by simp
    with True i Arrived assms(2) show ?thesis
      by (cases "i \<in> dom (runtimes items (gw s))")
        (metis serve_step.check_known, metis serve_step.check_unknown)
  next
    case False
    obtain rsp g where "answer E M c (gw s) = Some (rsp, g)"
      using answer_refines [OF healthy] by blast
    with False Arrived assms(2) show ?thesis by (blast intro: serve_step.direct)
  qed
qed

end

sublocale index_map \<subseteq> serving: draining "serve_step E M" "server_ok items" server_work for E
proof
  show "server_ok items t" if "server_ok items s" "serve_step E M s t" for s t
    using that by (blast intro: serve_step_ok)
  show "server_work t < server_work s" if "serve_step E M s t" for s t
    using that by (rule serve_step_work)
  show "\<exists>t. serve_step E M s t" if "server_ok items s" "0 < server_work s" for s
    using that server_work_zero [of s] by (auto intro: flight_moves)
qed

context index_map
begin

lemma requests_served:
  assumes "server_ok items s"
  shows "(\<exists>t. (serve_step E M)\<^sup>*\<^sup>* s t \<and> inflight t = {#})
   \<and> (\<forall>n t. (serve_step E M ^^ n) s t \<longrightarrow> n \<le> 3 * size (inflight s))
   \<and> (\<forall>t. (serve_step E M)\<^sup>*\<^sup>* s t \<and> (\<nexists>u. serve_step E M t u) \<longrightarrow>
        inflight t = {#} \<and> length (answered t) + hung_up s = accepted s)"
proof (intro conjI allI impI)
  show "\<exists>t. (serve_step E M)\<^sup>*\<^sup>* s t \<and> inflight t = {#}"
    using serving.run_done [OF assms] by (auto simp: server_work_zero)
  show "n \<le> 3 * size (inflight s)" if "(serve_step E M ^^ n) s t" for n t
    using serving.run_bounded [OF that assms] server_work_bound [of s] by simp
next
  fix t assume t: "(serve_step E M)\<^sup>*\<^sup>* s t \<and> (\<nexists>u. serve_step E M t u)"
  then show none: "inflight t = {#}"
    using serving.stuck_done [of E s t] assms by (auto simp: server_work_zero)
  have "server_ok items t" using t serving.run_good [of E s t] assms by blast
  then show "length (answered t) + hung_up s = accepted s"
    using none t serve_run_accepted [of E M s t] by (simp add: server_ok_def)
qed

end

text \<open>
  The sequential model is one of the interleavings: a request answered at once is accepted
  and served to its end before anything else moves.
\<close>

lemma answer_is_run:
  assumes "answer E M c (gw s) = Some (rsp, g)"
  shows "\<exists>t. server_run E M s t \<and> gw t = g \<and> inflight t = inflight s
    \<and> answered t = rsp # answered s \<and> accepted t = Suc (accepted s)"
proof -
  let ?a = "s\<lparr>inflight := add_mset (Arrived c) (inflight s), accepted := Suc (accepted s)\<rparr>"
  have a: "server_run E M s ?a" by (rule server_run_accept) simp
  show ?thesis
  proof (cases "two_phase c")
    case False
    have "serve_step E M ?a (?a\<lparr>gw := g, inflight := inflight ?a - {#Arrived c#},
        answered := rsp # answered ?a, created := created_id rsp \<union> created ?a\<rparr>)"
      by (rule serve_step.direct) (use False assms in simp_all)
    from server_run_serve [OF a this] show ?thesis by (intro exI conjI, assumption) simp_all
  next
    case True
    then obtain i where i: "call_target c = Some i" using two_phase_target by blast
    with answer_two_phase [OF True i, of E M "gw s"] assms obtain there where
      there: "pool_contains M i (pool (gw s)) = Some there"
      and rsp: "(rsp, g) = (if there then finish_call E (instant_now_of E (gw s)) c (gw s) else (not_found_response E i, gw s))"
      by (auto split: option.splits)
    show ?thesis
    proof (cases there)
      case False
      have no: "serve_step E M ?a (?a\<lparr>inflight := inflight ?a - {#Arrived c#},
          answered := not_found_response E i # answered ?a\<rparr>)"
        by (rule serve_step.check_unknown) (use False True i there in simp_all)
      show ?thesis by (intro exI conjI, rule server_run_serve [OF a no]) (use rsp False in simp_all)
    next
      case True
      let ?b = "?a\<lparr>inflight := add_mset (Checked c) (inflight ?a - {#Arrived c#})\<rparr>"
      have b: "serve_step E M ?a ?b"
        by (rule serve_step.check_known) (use True \<open>two_phase c\<close> i there in simp_all)
      have fin: "Checked c \<in># inflight ?b" "finish_call E (instant_now_of E (gw ?b)) c (gw ?b) = (rsp, g)"
        using rsp True by simp_all
      show ?thesis
      proof (cases "call_process c")
        case None
        note d = serve_step.refuse [OF fin(1) None fin(2), of M]
        show ?thesis by (intro exI conjI, rule server_run_serve [OF server_run_serve [OF a b] d]) simp_all
      next
        case (Some q)
        let ?d = "?b\<lparr>inflight := add_mset (Running (instant_now_of E (gw ?b)) c) (inflight ?b - {#Checked c#}),
          started := log_start c (started ?b)\<rparr>"
        have d: "serve_step E M ?b ?d" by (rule serve_step.spawn [OF fin(1) Some])
        have "Running (instant_now_of E (gw ?b)) c \<in># inflight ?d"
          "finish_call E (instant_now_of E (gw ?b)) c (gw ?d) = (rsp, g)" using fin(2) by simp_all
        note e = serve_step.finish [OF this, of M]
        show ?thesis
          by (intro exI conjI, rule server_run_serve [OF server_run_serve [OF server_run_serve [OF a b] d] e]) simp_all
      qed
    qed
  qed
qed

section \<open>Properties of every interleaving\<close>

text \<open>A request to start with: one sandbox was asked for.\<close>

definition demo_create :: api_call where
  "demo_create = Create \<lparr>cb_runtime = ''node''\<rparr>"

definition demo_arrived :: "(uuid \<times> SandboxEntry) list server" where
  "demo_arrived = (server_new alist_map)\<lparr>inflight := {#Arrived demo_create#}, accepted := 1\<rparr>"

lemma demo_arrived_run: "server_run demo_env alist_map (server_new alist_map) demo_arrived"
  using server_run_accept [of demo_env alist_map "server_new alist_map" "server_new alist_map" demo_create]
  by (simp add: demo_arrived_def server_new_def)

text \<open>
  C14. The gateway under concurrency. However requests interleave between the check of the
  pool, the start of a process and its end, and whenever clients hang up, the lock is never poisoned, every registered sandbox was
  created by a request and has a supported runtime, every process that was started was
  started for a sandbox that had been created and is \<open>sh -c\<close>, \<open>node -e\<close> or \<open>python3 -c\<close>
  with one text, and no request is lost: each is in flight, was answered, or its client
  hung up.
\<close>

theorem gateway_concurrent_safety:
  assumes "index_map M items" and "server_run E M (server_new M) s"
  shows "\<not> poisoned (pool (gw s))
    \<and> dom (runtimes items (gw s)) \<subseteq> created s \<and> (\<forall>rt \<in> ran (runtimes items (gw s)). supported rt)
    \<and> (\<forall>(i, q) \<in> set (started s). i \<in> created s \<and> allowed_process q)
    \<and> size (inflight s) + length (answered s) + hung_up s = accepted s"
  using index_map.server_run_ok [OF assms index_map.server_new_ok [OF assms(1)]]
  unfolding server_ok_def by blast

theorem gateway_concurrent_safety_witness:
  "server_run demo_env alist_map (server_new alist_map) demo_arrived
   \<and> size (inflight demo_arrived) + length (answered demo_arrived) + hung_up demo_arrived = accepted demo_arrived"
  using gateway_concurrent_safety [OF alist_map_index_map demo_arrived_run] demo_arrived_run by blast



text \<open>The three requests of the race below, one after the other, each on its own.\<close>

definition demo_shell :: api_call where
  "demo_shell = Shell 0 \<lparr>sb_command = ''ls''\<rparr>"

definition demo_created :: "(uuid \<times> SandboxEntry) list gateway" where
  "demo_created = \<lparr>pool = \<lparr>entries = [(0, \<lparr>entry_runtime = ''node'', entry_created_at = 1\<rparr>)], poisoned = False\<rparr>,
     trace = [DrewUuid]\<rparr>"

definition demo_destroyed :: "(uuid \<times> SandboxEntry) list gateway" where
  "demo_destroyed = \<lparr>pool = \<lparr>entries = [], poisoned = False\<rparr>, trace = [DrewUuid]\<rparr>"

lemma demo_answers:
  "answer demo_env alist_map demo_create (gateway_new alist_map) = Some (respond 201 (CreateSandboxResponse 0), demo_created)"
  "pool_contains alist_map 0 (pool demo_created) = Some True"
  "answer demo_env alist_map (Destroy 0) demo_created = Some (respond 204 NoBody, demo_destroyed)"
  by code_simp+

text \<open>
  C17. The check of the sandbox and the start of its process are not one step: a request can
  start its process, and then be answered 200, for a sandbox that another request destroyed
  (and was answered 204 for) after the check.
\<close>

theorem destroyed_sandbox_still_runs:
  "\<exists>s t u. server_run demo_env alist_map (server_new alist_map) s
     \<and> serve_step demo_env alist_map s t \<and> serve_step demo_env alist_map t u
     \<and> 0 \<notin> dom (runtimes id (gw s)) \<and> hd (answered s) = respond 204 NoBody
     \<and> started t = (0, ''sh'', [''-c'', ''ls'']) # started s \<and> rsp_status (hd (answered u)) = 200"
proof -
  have start: "gw (server_new alist_map) = gateway_new alist_map" "inflight (server_new alist_map) = {#}"
    by (simp_all add: server_new_def)
  obtain a where a: "server_run demo_env alist_map (server_new alist_map) a" "gw a = demo_created" "inflight a = {#}"
    using answer_is_run [of demo_env alist_map demo_create "server_new alist_map"] demo_answers(1) start by metis
  let ?b = "a\<lparr>inflight := add_mset (Arrived demo_shell) (inflight a), accepted := Suc (accepted a)\<rparr>"
  let ?c = "?b\<lparr>inflight := add_mset (Checked demo_shell) (inflight ?b - {#Arrived demo_shell#})\<rparr>"
  have "serve_step demo_env alist_map ?b ?c"
    by (rule serve_step.check_known [where i = 0]) (use a demo_answers(2) in \<open>simp_all add: demo_shell_def\<close>)
  then have c: "server_run demo_env alist_map (server_new alist_map) ?c"
    by (rule server_run_serve [OF server_run_accept [OF a(1)]])
  obtain d where d: "server_run demo_env alist_map ?c d" "gw d = demo_destroyed"
    "inflight d = {#Checked demo_shell#}" "hd (answered d) = respond 204 NoBody"
    using answer_is_run [of demo_env alist_map "Destroy 0" ?c] demo_answers(3) a by auto
  have "Checked demo_shell \<in># inflight d" "call_process demo_shell = Some (''sh'', [''-c'', ''ls''])"
    using d(3) by (simp_all add: demo_shell_def)
  note spawn = serve_step.spawn [OF this, of demo_env alist_map]
  let ?start = "instant_now_of demo_env (gw d)"
  let ?e = "d\<lparr>inflight := add_mset (Running ?start demo_shell) (inflight d - {#Checked demo_shell#}),
    started := log_start demo_shell (started d)\<rparr>"
  obtain rsp g where f: "finish_call demo_env ?start demo_shell (gw ?e) = (rsp, g)" by fastforce
  have "Running ?start demo_shell \<in># inflight ?e" by simp
  note finish = serve_step.finish [OF this f, of alist_map]
  have "rsp_status (fst (finish_call demo_env ?start demo_shell demo_destroyed)) = 200"
    by (simp add: finish_call_def demo_shell_def await_shell_def run_process_def demo_env_def Let_def)
  with d(2) f have code: "rsp_status rsp = 200" by simp
  have gone: "0 \<notin> dom (runtimes id (gw d))" by (simp add: d(2) demo_destroyed_def pool_view_def)
  have reach: "server_run demo_env alist_map (server_new alist_map) d" using c d(1) by (rule rtranclp_trans)
  show ?thesis
    by (rule exI [of _ d], rule exI, rule exI, intro conjI, rule reach, rule spawn, rule finish)
      (use gone code in \<open>simp_all add: d(4) demo_shell_def log_start_def\<close>)
qed

section \<open>The server process\<close>

text \<open>
  \<open>forge-gateway/src/main.rs\<close>. The listening address is \<open>FORGE_LISTEN_ADDR\<close> (\<open>None\<close> when
  it is not set or not Unicode) or a default. Binding the address and the end of
  \<open>axum::serve\<close> are answered by the record \<open>main_env\<close>: \<open>serve_end\<close> is \<open>None\<close> while the
  server runs. Logging is left out.
\<close>

record 'm main_env =
  listen_var :: "string option"
  bind_result :: "string \<Rightarrow> string + unit"
  serve_end :: "'m server \<Rightarrow> (string + unit) option"

definition listen_addr :: "'m main_env \<Rightarrow> string" where
  "listen_addr N = (case listen_var N of Some a \<Rightarrow> a | None \<Rightarrow> ''127.0.0.1:3456'')"

datatype 'm main_state = Serving string "'m server" | Exited nat

inductive main_reaches :: "'m main_env \<Rightarrow> gw_env \<Rightarrow> 'm index_map_ops \<Rightarrow> 'm main_state \<Rightarrow> bool" for N E M where
  bind_failed: "bind_result N (listen_addr N) = Err e \<Longrightarrow> main_reaches N E M (Exited 1)"
| listening: "bind_result N (listen_addr N) = Ok u \<Longrightarrow> main_reaches N E M (Serving (listen_addr N) (server_new M))"
| moves: "main_reaches N E M (Serving a s) \<Longrightarrow> serve_end N s = None \<Longrightarrow> server_step E M s t \<Longrightarrow>
    main_reaches N E M (Serving a t)"
| serve_failed: "main_reaches N E M (Serving a s) \<Longrightarrow> serve_end N s = Some (Err e) \<Longrightarrow> main_reaches N E M (Exited 1)"
| finished: "main_reaches N E M (Serving a s) \<Longrightarrow> serve_end N s = Some (Ok u) \<Longrightarrow> main_reaches N E M (Exited 0)"

text \<open>The server serves only on the configured address, and its states are those of \<open>server_run\<close>.\<close>

lemma main_serving:
  "main_reaches N E M st \<Longrightarrow> (case st of
     Serving a s \<Rightarrow> a = listen_addr N \<and> is_ok (bind_result N a) \<and> server_run E M (server_new M) s
   | Exited code \<Rightarrow> code \<le> 1 \<and> (code = 0 \<longrightarrow> is_ok (bind_result N (listen_addr N))))"
  by (induction rule: main_reaches.induct) (auto intro: rtranclp.rtrancl_into_rtrancl)

text \<open>
  The server process. If the address cannot be bound it exits with code 1 and never
  serves. Otherwise it serves on the configured address (\<open>127.0.0.1:3456\<close> unless
  \<open>FORGE_LISTEN_ADDR\<close> says otherwise), in every state it reaches the pool's lock is healthy
  and all requests accepted are in flight, answered or given up by their client, and it ends with code 1 exactly when
  the server reports an error.
\<close>

lemma main_outcomes:
  assumes "index_map M items" and "main_reaches N E M st"
  shows "case st of
     Serving a s \<Rightarrow> a = (case listen_var N of Some v \<Rightarrow> v | None \<Rightarrow> ''127.0.0.1:3456'')
       \<and> is_ok (bind_result N a) \<and> \<not> poisoned (pool (gw s))
       \<and> size (inflight s) + length (answered s) + hung_up s = accepted s
   | Exited code \<Rightarrow>
       (code = 1 \<and> (\<not> is_ok (bind_result N (listen_addr N))
          \<or> (\<exists>s e. server_run E M (server_new M) s \<and> serve_end N s = Some (Err e))))
       \<or> (code = 0 \<and> is_ok (bind_result N (listen_addr N))
          \<and> (\<exists>s. server_run E M (server_new M) s \<and> serve_end N s = Some (Ok ())))"
proof -
  have ok: "server_ok items s" if "server_run E M (server_new M) s" for s
    by (rule index_map.server_run_ok [OF assms(1) that index_map.server_new_ok [OF assms(1)]])
  have serving: ?thesis if "st = Serving a s" for a s
    using main_serving [OF assms(2)] ok [of s] that by (auto simp: listen_addr_def server_ok_def)
  from assms(2) show ?thesis
  proof cases
    case (moves a s t)
    then show ?thesis by (intro serving)
  next
    case listening
    then show ?thesis by (intro serving)
  next
    case (serve_failed a s e)
    with main_serving [OF serve_failed(2)] show ?thesis by auto
  next
    case (finished a s u)
    with main_serving [OF finished(2)] show ?thesis by auto
  qed simp
qed

end
