(* ===== verification/Gateway_Tests.thy ===== *)
theory Gateway_Tests
  imports Gateway_Concurrency Gateway_Serde
begin

text \<open>
  The unit tests of forge-gateway as predicates on the model, one per test with its name;
  the identifiers and clock readings a test draws are arguments. The requests of the route
  tests go through the router. The test of the JSON text of a \<open>ShellResult\<close> is stated for the
  compact format.
\<close>

section \<open>Errors\<close>

definition gateway_error_status_codes_map_correctly :: "(uuid \<Rightarrow> string) \<Rightarrow> bool" where
  "gateway_error_status_codes_map_correctly fmt =
     (rsp_status (into_response fmt (SandboxNotFound 0)) = 404
      \<and> rsp_status (into_response fmt (InvalidRequest ''missing field'')) = 400)"

definition gateway_error_executor_variant_returns_500 :: "(uuid \<Rightarrow> string) \<Rightarrow> bool" where
  "gateway_error_executor_variant_returns_500 fmt =
     (rsp_status (into_response fmt (Executor (SpawnFailed ''vm died''))) = 500)"

definition gateway_error_display_includes_message :: "(uuid \<Rightarrow> string) \<Rightarrow> bool" where
  "gateway_error_display_includes_message fmt =
     sublist ''bad runtime'' (GatewayError_fmt fmt (InvalidRequest ''bad runtime''))"

section \<open>The pool\<close>

text \<open>An assertion about the result of an operation fails when the operation panics.\<close>

definition holds_after :: "('a \<times> 'p) option \<Rightarrow> ('a \<Rightarrow> 'p \<Rightarrow> bool) \<Rightarrow> bool" where
  "holds_after r f = (case r of None \<Rightarrow> False | Some (a, p) \<Rightarrow> f a p)"

definition sandbox_pool_create_and_remove_lifecycle :: "'m index_map_ops \<Rightarrow> uuid \<Rightarrow> duration \<Rightarrow> bool" where
  "sandbox_pool_create_and_remove_lifecycle M drawn now =
     holds_after (pool_create M drawn now ''node'' (pool_new M)) (\<lambda>i p.
       pool_contains M i p = Some True \<and>
       holds_after (pool_remove M i p) (\<lambda>removed q. removed \<and> pool_contains M i q = Some False))"

definition sandbox_pool_not_found_returns_false :: "'m index_map_ops \<Rightarrow> uuid \<Rightarrow> bool" where
  "sandbox_pool_not_found_returns_false M unknown =
     (pool_contains M unknown (pool_new M) = Some False \<and>
      holds_after (pool_remove M unknown (pool_new M)) (\<lambda>removed p. \<not> removed))"

definition sandbox_pool_multiple_sandboxes_are_independent ::
  "'m index_map_ops \<Rightarrow> uuid \<Rightarrow> uuid \<Rightarrow> duration \<Rightarrow> duration \<Rightarrow> bool" where
  "sandbox_pool_multiple_sandboxes_are_independent M drawn_a drawn_b now_a now_b =
     holds_after (pool_create M drawn_a now_a ''node'' (pool_new M)) (\<lambda>a p.
     holds_after (pool_create M drawn_b now_b ''python'' p) (\<lambda>b q.
       pool_contains M a q = Some True \<and> pool_contains M b q = Some True \<and>
       holds_after (pool_remove M a q) (\<lambda>removed r.
         removed \<and> pool_contains M a r = Some False \<and> pool_contains M b r = Some True)))"

text \<open>
  The tasks of the concurrent test take the lock one after the other, in some order; each
  returns the identifier it drew.
\<close>

fun create_tasks :: "'m index_map_ops \<Rightarrow> (uuid \<times> duration) list \<Rightarrow> 'm SandboxPool \<Rightarrow> (uuid list \<times> 'm SandboxPool) option" where
  "create_tasks M [] p = Some ([], p)"
| "create_tasks M ((drawn, now) # ts) p =
     (case pool_create M drawn now ''node'' p of
        None \<Rightarrow> None
      | Some (i, q) \<Rightarrow> map_option (\<lambda>(is, r). (i # is, r)) (create_tasks M ts q))"

definition sandbox_pool_concurrent_create_all_unique :: "'m index_map_ops \<Rightarrow> (uuid \<times> duration) list \<Rightarrow> bool" where
  "sandbox_pool_concurrent_create_all_unique M tasks =
     holds_after (create_tasks M tasks (pool_new M)) (\<lambda>ids p. distinct ids \<and> card (set ids) = 16)"

section \<open>Routes\<close>

definition status_of :: "(response \<times> 'm gateway) option \<Rightarrow> nat option" where
  "status_of r = map_option (\<lambda>(rsp, g). rsp_status rsp) r"

definition health_response_format_returns_ok_with_status_field :: "gw_env \<Rightarrow> 'm index_map_ops \<Rightarrow> bool" where
  "health_response_format_returns_ok_with_status_field E M =
     holds_after (serve E M \<lparr>rq_method = Get, rq_path = [''health''], rq_content_type = None, rq_body = []\<rparr> (gateway_new M))
       (\<lambda>rsp g. rsp_status rsp = 200 \<and> rsp_body rsp = HealthBody ''ok'')"

definition ruby_body :: "u8 list" where
  \<open>ruby_body = as_bytes ''{"runtime":"ruby"}''\<close>

definition node_body :: "u8 list" where
  \<open>node_body = as_bytes ''{"runtime":"node"}''\<close>

definition create_sandbox_invalid_runtime_returns_400 :: "gw_env \<Rightarrow> 'm index_map_ops \<Rightarrow> bool" where
  "create_sandbox_invalid_runtime_returns_400 E M =
     (status_of (serve E M \<lparr>rq_method = Post, rq_path = [''v1'', ''sandbox''],
        rq_content_type = Some ''application/json'', rq_body = ruby_body\<rparr> (gateway_new M))
      = Some 400)"

definition create_sandbox_valid_runtime_returns_201 :: "gw_env \<Rightarrow> 'm index_map_ops \<Rightarrow> bool" where
  "create_sandbox_valid_runtime_returns_201 E M =
     (status_of (serve E M \<lparr>rq_method = Post, rq_path = [''v1'', ''sandbox''],
        rq_content_type = Some ''application/json'', rq_body = node_body\<rparr> (gateway_new M))
      = Some 201)"

definition destroy_sandbox_not_found_returns_404 :: "gw_env \<Rightarrow> 'm index_map_ops \<Rightarrow> uuid \<Rightarrow> bool" where
  "destroy_sandbox_not_found_returns_404 E M unknown =
     (status_of (serve E M \<lparr>rq_method = Delete, rq_path = [''v1'', ''sandbox'', gw_fmt_uuid E unknown], rq_content_type = None, rq_body = []\<rparr>
        (gateway_new M)) = Some 404)"

section \<open>The text of a result\<close>

definition shell_result_serialization_includes_all_fields :: "(json \<Rightarrow> string) \<Rightarrow> bool" where
  "shell_result_serialization_includes_all_fields to_text =
     (let result = \<lparr>success = True, sr_stdout = ''hello'' @ [CHR 0x0A], sr_stderr = [], sr_exit_code = 0,
                    execution_time_ms = 42\<rparr>;
          text = to_text (ShellResult_serialize result)
      in sublist ([quote_char] @ ''success'' @ [quote_char] @ '':true'') text
         \<and> sublist ([quote_char] @ ''stdout'' @ [quote_char]) text
         \<and> sublist ([quote_char] @ ''exit_code'' @ [quote_char] @ '':0'') text
         \<and> sublist ([quote_char] @ ''execution_time_ms'' @ [quote_char] @ '':42'') text)"

section \<open>The tests hold\<close>

lemma gateway_error_tests:
  "gateway_error_status_codes_map_correctly fmt" "gateway_error_executor_variant_returns_500 fmt"
  "gateway_error_display_includes_message fmt"
  by (simp_all add: gateway_error_status_codes_map_correctly_def gateway_error_executor_variant_returns_500_def
      into_response_def) code_simp

text \<open>Assertions after an operation of a healthy pool, on its view.\<close>

context sandbox_registry
begin

lemma holds_create:
  assumes "healthy p"
    and "\<And>q. healthy q \<Longrightarrow> view q = (view p)(i \<mapsto> \<lparr>entry_runtime = rt, entry_created_at = now\<rparr>) \<Longrightarrow> f i q"
  shows "holds_after (create i now rt p) f"
  using create_spec [OF assms(1), of i now rt] assms(2) by (auto simp: holds_after_def)

lemma holds_remove:
  assumes "healthy p" and "\<And>q. healthy q \<Longrightarrow> view q = (view p)(i := None) \<Longrightarrow> f (i \<in> dom (view p)) q"
  shows "holds_after (remove i p) f"
  using remove_spec [OF assms(1), of i] assms(2) by (auto simp: holds_after_def)

end

context index_map
begin

lemma pool_lifecycle_test: "sandbox_pool_create_and_remove_lifecycle M drawn now"
  unfolding sandbox_pool_create_and_remove_lifecycle_def
  by (intro holds_create holds_remove conjI) (simp_all add: new_spec contains_spec)

lemma pool_not_found_test: "sandbox_pool_not_found_returns_false M unknown"
  unfolding sandbox_pool_not_found_returns_false_def
  by (intro holds_remove conjI) (simp_all add: new_spec contains_spec)

lemma pool_independent_test:
  "a \<noteq> b \<Longrightarrow> sandbox_pool_multiple_sandboxes_are_independent M a b now now'"
  unfolding sandbox_pool_multiple_sandboxes_are_independent_def
  by (intro holds_create holds_remove conjI) (simp_all add: new_spec contains_spec)

lemma create_tasks_ids: "\<not> poisoned p \<Longrightarrow> \<exists>q. create_tasks M ts p = Some (map fst ts, q)"
proof (induction ts arbitrary: p)
  case (Cons t ts)
  obtain drawn now where t: "t = (drawn, now)" by (cases t)
  from create_spec [OF Cons.prems, of drawn now "''node''"] obtain q where
    "pool_create M drawn now ''node'' p = Some (drawn, q)" "\<not> poisoned q" by blast
  with Cons.IH [of q] t show ?case by auto
qed simp

lemma pool_concurrent_test:
  assumes "distinct (map fst tasks)" and "length tasks = 16"
  shows "sandbox_pool_concurrent_create_all_unique M tasks"
  using create_tasks_ids [of "pool_new M" tasks] new_spec assms distinct_card [OF assms(1)]
  by (auto simp: sandbox_pool_concurrent_create_all_unique_def holds_after_def)

lemma status_of_serve:
  assumes "extract_call E rq = Inr c"
  shows "status_of (serve E M rq (gateway_new M)) =
    Some (fst (spec_answer (gw_drawn E []) (process_starts E c []) c Map.empty))"
proof -
  have new: "\<not> poisoned (pool (gateway_new M))" "runtimes items (gateway_new M) = Map.empty" "trace (gateway_new M) = []"
    using new_spec by (simp_all add: gateway_new_def runtimes_def)
  from answer_refines [OF new(1), of E c] assms new(2,3) show ?thesis
    by (auto simp: serve_def status_of_def prod_eq_iff)
qed

end

lemmas routing_simps = extract_call_def find_route_def route_table_def Let_def

lemma test_requests:
  "extract_call E \<lparr>rq_method = Get, rq_path = [''health''], rq_content_type = None, rq_body = []\<rparr> = Inr Health"
  "de_create E ct bs = Inr b \<Longrightarrow>
     extract_call E \<lparr>rq_method = Post, rq_path = [''v1'', ''sandbox''], rq_content_type = ct, rq_body = bs\<rparr> = Inr (Create b)"
  "s \<noteq> [] \<Longrightarrow> parse_uuid E s = Inr i \<Longrightarrow>
     extract_call E \<lparr>rq_method = Delete, rq_path = [''v1'', ''sandbox'', s], rq_content_type = None, rq_body = []\<rparr> = Inr (Destroy i)"
  by (simp_all add: routing_simps)

text \<open>
  What the tests rely on of serde and of the text of a UUID: the two JSON bodies are read
  as written, and the path segment a UUID is printed to is not empty and read back.
\<close>

definition test_parsers :: "gw_env \<Rightarrow> uuid \<Rightarrow> bool" where
  "test_parsers E unknown =
     (de_create E (Some ''application/json'') ruby_body = Inr \<lparr>cb_runtime = ''ruby''\<rparr>
      \<and> de_create E (Some ''application/json'') node_body = Inr \<lparr>cb_runtime = ''node''\<rparr>
      \<and> gw_fmt_uuid E unknown \<noteq> [] \<and> parse_uuid E (gw_fmt_uuid E unknown) = Inr unknown)"

context index_map
begin

lemma route_tests:
  assumes "test_parsers E unknown"
  shows "create_sandbox_invalid_runtime_returns_400 E M" "create_sandbox_valid_runtime_returns_201 E M"
    "destroy_sandbox_not_found_returns_404 E M unknown"
  using assms
  by (simp_all add: test_parsers_def create_sandbox_invalid_runtime_returns_400_def
      create_sandbox_valid_runtime_returns_201_def destroy_sandbox_not_found_returns_404_def
      status_of_serve test_requests supported_def)

end

lemma shell_result_test: "shell_result_serialization_includes_all_fields json_text"
  by code_simp

lemma health_test: "health_response_format_returns_ok_with_status_field E M"
  by (simp add: health_response_format_returns_ok_with_status_field_def test_requests serve_def
      holds_after_def health_def)

text \<open>
  C39. The model passes the unit tests of forge-gateway: the status codes and texts of the
  errors, the life of one and of several sandboxes in the pool, sixteen concurrent
  creations, the four requests sent through the router to a fresh gateway, and the text of
  a result, for every
  map that behaves like \<open>IndexMap\<close>, provided that the identifiers drawn are distinct and
  that serde and the \<open>uuid\<close> crate read what the tests wrote.
\<close>

theorem gateway_tests_hold:
  assumes "index_map M items" and "test_parsers E unknown"
    and "distinct (map fst tasks)" and "length tasks = 16" and "drawn_a \<noteq> drawn_b"
  shows "gateway_error_status_codes_map_correctly (gw_fmt_uuid E)
   \<and> gateway_error_executor_variant_returns_500 (gw_fmt_uuid E) \<and> gateway_error_display_includes_message (gw_fmt_uuid E)
   \<and> sandbox_pool_create_and_remove_lifecycle M drawn_a now \<and> sandbox_pool_not_found_returns_false M unknown
   \<and> sandbox_pool_multiple_sandboxes_are_independent M drawn_a drawn_b now now'
   \<and> sandbox_pool_concurrent_create_all_unique M tasks
   \<and> health_response_format_returns_ok_with_status_field E M \<and> create_sandbox_invalid_runtime_returns_400 E M
   \<and> create_sandbox_valid_runtime_returns_201 E M \<and> destroy_sandbox_not_found_returns_404 E M unknown
   \<and> shell_result_serialization_includes_all_fields json_text"
  using assms(3-5)
  by (intro conjI gateway_error_tests health_test shell_result_test index_map.pool_lifecycle_test [OF assms(1)]
      index_map.pool_not_found_test [OF assms(1)] index_map.pool_independent_test [OF assms(1)]
      index_map.pool_concurrent_test [OF assms(1)] index_map.route_tests [OF assms(1,2)])

definition test_env :: gw_env where
  "test_env = with_json_bodies axum_json demo_env"

lemma test_documents:
  "Option.bind (from_utf8 ruby_body) json_read = Some (JObj [(''runtime'', JStr ''ruby'')])"
  "Option.bind (from_utf8 node_body) json_read = Some (JObj [(''runtime'', JStr ''node'')])"
  "length ruby_body = 18" "length node_body = 18"
  by code_simp+

lemma test_bodies:
  "json_extractor axum_json CreateSandboxBody_deserialize (Some ''application/json'') ruby_body = Inr \<lparr>cb_runtime = ''ruby''\<rparr>"
  "json_extractor axum_json CreateSandboxBody_deserialize (Some ''application/json'') node_body = Inr \<lparr>cb_runtime = ''node''\<rparr>"
  by (simp_all add: json_extractor_def axum_json_def test_documents CreateSandboxBody_deserialize_def)

lemma test_env_parsers: "test_parsers test_env u"
  using show_nat_digits [of "unat u"]
  by (simp add: test_parsers_def test_env_def with_json_bodies_def test_bodies demo_env_def dec_value_show_nat)

theorem gateway_tests_hold_witness:
  "sandbox_pool_concurrent_create_all_unique alist_map (map (\<lambda>n. (of_nat n, 0)) [0..<16])
   \<and> destroy_sandbox_not_found_returns_404 test_env alist_map 3"
proof -
  have "distinct (map fst (map (\<lambda>n. (of_nat n :: uuid, 0 :: duration)) [0..<16]))" by code_simp
  from gateway_tests_hold [OF alist_map_index_map test_env_parsers [of 3] this _ zero_neq_one] show ?thesis by simp
qed

end
