(* ===== verification/Integration_Tests.thy ===== *)
theory Integration_Tests
  imports Executor_Properties Core_Properties Sha256_Evaluation
begin

text \<open>
  The integration tests of forge-executor as programs of the model, in the order of their
  steps: \<open>expect\<close> on an error is an error, a failed assertion is the value \<open>False\<close>. They need KVM and a
  Firecracker binary; the locale \<open>reliable_host\<close> says what they need of the machine: the
  files asked for are there, processes start, sockets answer with success.
\<close>

section \<open>The tests\<close>

definition passes :: "bool exec \<Rightarrow> history \<Rightarrow> bool" where
  "passes t h = (fst (t h) = Ok True)"

definition check :: "bool \<Rightarrow> bool exec \<Rightarrow> bool exec" where
  "check c t = (if c then t else ret False)"

definition test_backend :: FirecrackerBackend where
  "test_backend = FirecrackerBackend_new ''firecracker'' ''/tmp/forge-test-sockets'' ''/tmp/forge-test-snapshots''"

definition test_config :: VmConfig where
  "test_config = VmConfig_new ''/home/eouzoe/src/active/forge/test-assets/vmlinux.bin''
     ''/home/eouzoe/src/active/forge/test-assets/rootfs.ext4''"

definition spawn_vm_starts_and_responds :: "env \<Rightarrow> bool exec" where
  "spawn_vm_starts_and_responds E =
     try_bind (fc_spawn E test_backend test_config) (\<lambda>handle.
     try_bind (ask_exists E (socket_path handle)) (\<lambda>there.
     check there (
     try_bind (fc_terminate E test_backend handle) (\<lambda>_. ret True))))"

definition snapshot_creates_recoverable_state :: "env \<Rightarrow> bool exec" where
  "snapshot_creates_recoverable_state E =
     try_bind (fc_spawn E test_backend test_config) (\<lambda>handle.
     try_bind (sleep_ms 1000) (\<lambda>_.
     try_bind (fc_snapshot E test_backend handle) (\<lambda>snapshot_id.
     (let stem = ''/tmp/forge-test-snapshots/'' @ VmSnapshotId_fmt (fmt_uuid E) snapshot_id in
      try_bind (ask_exists E (stem @ ''.mem'')) (\<lambda>mem_there. check mem_there (
      try_bind (ask_exists E (stem @ ''.state'')) (\<lambda>state_there. check state_there (
      try_bind (fc_terminate E test_backend handle) (\<lambda>_. ret True)))))))))"

definition restore_from_snapshot_succeeds :: "env \<Rightarrow> bool exec" where
  "restore_from_snapshot_succeeds E =
     try_bind (fc_spawn E test_backend test_config) (\<lambda>handle.
     (let original_id = vm_id handle in
      try_bind (sleep_ms 1000) (\<lambda>_.
      try_bind (fc_snapshot E test_backend handle) (\<lambda>snapshot_id.
      try_bind (fc_terminate E test_backend handle) (\<lambda>_.
      try_bind (fc_restore E test_backend snapshot_id) (\<lambda>restored.
      try_bind (ask_exists E (socket_path restored)) (\<lambda>there. check there (
      check (vm_id restored \<noteq> original_id) (
      try_bind (fc_terminate E test_backend restored) (\<lambda>_. ret True))))))))))"

definition make_backend :: FirecrackerBackend where
  "make_backend = FirecrackerBackend_new ''/usr/local/bin/firecracker'' ''/tmp/forge-sockets'' ''/tmp/forge-snapshots''"

definition make_vm_config :: "path \<Rightarrow> VmConfig" where
  "make_vm_config workspace =
     VmConfig_new (path_join workspace ''test-assets/vmlinux.bin'') (path_join workspace ''test-assets/rootfs.ext4'')"

definition make_runner :: "env \<Rightarrow> path \<Rightarrow> BlockRunner" where
  "make_runner E workspace =
     BlockRunner_with_timeout (firecracker_vmm E make_backend) (make_vm_config workspace) (from_secs 30)"

text \<open>The output hashes of \<open>n\<close> runs of a block on an empty input.\<close>

fun run_hashes :: "env \<Rightarrow> 's hasher \<Rightarrow> BlockRunner \<Rightarrow> Block \<Rightarrow> nat \<Rightarrow> ContentHash list exec" where
  "run_hashes E H r block 0 = ret []"
| "run_hashes E H r block (Suc n) =
     try_bind (runner_execute E H r block []) (\<lambda>rcd.
     try_bind (run_hashes E H r block n) (\<lambda>hashes. ret (output_hash rcd # hashes)))"

fun all_identical :: "'a list \<Rightarrow> bool" where
  "all_identical (x # y # xs) = (x = y \<and> all_identical (y # xs))"
| "all_identical _ = True"

definition git_block_five_runs_produce_identical_hash ::
  "env \<Rightarrow> 's hasher \<Rightarrow> path \<Rightarrow> datetime \<Rightarrow> uuid \<Rightarrow> uuid \<Rightarrow> uuid \<Rightarrow> bool exec" where
  "git_block_five_runs_produce_identical_hash E H workspace now id1 id2 id3 =
     (case example_blocks now id1 id2 id3 of
        None \<Rightarrow> ret False
      | Some blocks \<Rightarrow>
          (let git_block = blocks ! 0 in
           check (man_name (manifest git_block) = ''git-env'') (
           try_bind (run_hashes E H (make_runner E workspace) git_block 5) (\<lambda>hashes.
           check (all_identical hashes) (ret True)))))"

definition single_vm_execution_completes ::
  "env \<Rightarrow> 's hasher \<Rightarrow> path \<Rightarrow> datetime \<Rightarrow> uuid \<Rightarrow> uuid \<Rightarrow> uuid \<Rightarrow> bool exec" where
  "single_vm_execution_completes E H workspace now id1 id2 id3 =
     (case example_blocks now id1 id2 id3 of
        None \<Rightarrow> ret False
      | Some blocks \<Rightarrow>
          try_bind (runner_execute E H (make_runner E workspace) (blocks ! 0) []) (\<lambda>rcd.
          check (rec_block_id rcd = block_id (blocks ! 0)) (
          check (ContentHash_as_bytes (output_hash rcd) \<noteq> replicate 32 0) (ret True))))"

section \<open>A machine on which the tests can run\<close>

locale reliable_host =
  fixes E :: env
  assumes present [simp]: "path_exists E h q"
    and made [simp]: "mkdir_error E h q = None"
    and starts: "\<exists>p. spawn_result E h c = Inr p"
    and killed [simp]: "kill_error E h p = None"
    and connected [simp]: "connect_error E h q = None" "handshake_error E h q = None"
    and built [simp]: "uri_error E u = None" "build_error E req = None"
    and answered: "\<exists>resp bytes. send_result E h q req = Inr resp \<and> is_success (resp_status resp) \<and> resp_body resp = Inr bytes"

fun draws :: "history \<Rightarrow> nat" where
  "draws [] = 0"
| "draws (DrawUuid # h) = Suc (draws h)"
| "draws (_ # h) = draws h"

context reliable_host
begin

lemma put_json_Ok: "\<exists>a. put_json E q m u j h = (Ok a, Requested q (api_http_request m u (Some (json_to_string E j))) # Connected q # h)"
  using answered [of "Connected q # h" q "api_http_request m u (Some (json_to_string E j))"]
  by (auto simp: put_json_def api_request_defs check_response_def)

text \<open>The text Firecracker answers with.\<close>

definition reply :: "history \<Rightarrow> path \<Rightarrow> http_method \<Rightarrow> string \<Rightarrow> json \<Rightarrow> string" where
  "reply h q m u j = projr (fst (put_json E q m u j h))"

lemma put_json_reply:
  "put_json E q m u j h = (Ok (reply h q m u j), Requested q (api_http_request m u (Some (json_to_string E j))) # Connected q # h)"
  using put_json_Ok [of q m u j h] by (auto simp: reply_def)

definition started :: "history \<Rightarrow> command \<Rightarrow> pid" where
  "started h c = projr (spawn_result E h c)"

lemma spawn_result_started [simp]: "spawn_result E h c = Inr (started h c)"
  using starts [of h c] by (auto simp: started_def)

lemma wait_for_socket_Ok: "wait_for_socket E q h = (Ok (), Exists q # h)"
  by (simp add: wait_for_socket_def numeral_eq_Suc try_bind_def ask_exists_def ret_def)

lemma which_binary_Ok: "\<exists>q'. which_binary E q h = (Ok (), Exists q' # h)"
proof -
  have "split_colon t \<noteq> []" for t by (induction t) (simp_all split: list.split)
  then obtain d ds where "split_colon (case path_var E of Some v \<Rightarrow> v | None \<Rightarrow> []) = d # ds"
    by (meson neq_Nil_conv)
  then show ?thesis by (simp add: which_binary_def try_bind_def ask_exists_def ret_def)
qed

lemmas run_simps = wait_for_socket_Ok put_json_reply try_bind_def with_err_def capture_def
  owning_child_def dropping_child_def ask_exists_def ask_metadata_def create_dir_all_def new_v4_def
  utc_now_def instant_now_def spawn_child_def kill_child_def sleep_ms_def remove_file_def
  read_with_timeout_def require_kvm_def configure_and_boot_def exec_ret exec_throw exec_emit
  exec_from_result

lemma spawn_Ok:
  "\<exists>v h'. fc_spawn E b cfg h = (Ok v, h') \<and> draws h' = Suc (draws h)
     \<and> (\<exists>hd. draws hd = draws h \<and> vm_id v = drawn_uuid E hd)"
  by (simp add: fc_spawn_def run_simps Let_def VmHandle_new_def)
    (rule exI [of _ "Exists (binary_path b) # Exists ''/dev/kvm'' # h"], simp)

lemma snapshot_Ok: "\<exists>sid h'. fc_snapshot E b v h = (Ok sid, h') \<and> draws h' = Suc (draws h)"
  by (simp add: fc_snapshot_def run_simps Let_def)

lemma restore_Ok:
  "\<exists>v h'. fc_restore E b sid h = (Ok v, h') \<and> (\<exists>hd. draws hd = draws h \<and> vm_id v = drawn_uuid E hd)"
  by (simp add: fc_restore_def run_simps Let_def VmHandle_new_def)
    (rule exI [of _ "Exists (snapshot_state_path E b sid) # Exists (snapshot_mem_path E b sid) # h"], simp)

lemma terminate_Ok: "\<exists>h'. fc_terminate E b v h = (Ok (), h') \<and> draws h' = draws h"
  by (simp add: fc_terminate_def run_simps Let_def)

text \<open>The three tests of a VM's life.\<close>

lemma lifecycle_tests:
  assumes "\<And>g g'. draws g = draws h \<Longrightarrow> draws g' = draws h + 2 \<Longrightarrow> drawn_uuid E g \<noteq> drawn_uuid E g'"
  shows "passes (spawn_vm_starts_and_responds E) h" "passes (snapshot_creates_recoverable_state E) h"
    "passes (restore_from_snapshot_succeeds E) h"
proof -
  obtain v h1 hd where v: "fc_spawn E test_backend test_config h = (Ok v, h1)" "draws h1 = Suc (draws h)"
    "draws hd = draws h" "vm_id v = drawn_uuid E hd"
    using spawn_Ok by blast
  obtain sid h2 where sid: "fc_snapshot E test_backend v (Slept 1000 # h1) = (Ok sid, h2)" "draws h2 = Suc (Suc (draws h))"
    using snapshot_Ok [of test_backend v "Slept 1000 # h1"] v(2) by auto
  obtain h3 where h3: "fc_terminate E test_backend v h2 = (Ok (), h3)" "draws h3 = draws h2"
    using terminate_Ok by blast
  obtain v2 h4 hd2 where v2: "fc_restore E test_backend sid h3 = (Ok v2, h4)" "draws hd2 = draws h3" "vm_id v2 = drawn_uuid E hd2"
    using restore_Ok by blast
  have fresh: "vm_id v2 \<noteq> vm_id v" using assms [of hd hd2] v(3,4) v2(2,3) h3(2) sid(2) by auto
  have ends: "\<exists>g'. fc_terminate E test_backend u g = (Ok (), g')" for u g using terminate_Ok by blast
  note run = passes_def check_def try_bind_def ask_exists_def sleep_ms_def exec_emit exec_ret Let_def
  show "passes (spawn_vm_starts_and_responds E) h"
    using ends [of v "Exists (socket_path v) # h1"] by (auto simp: spawn_vm_starts_and_responds_def run v(1))
  let ?stem = "''/tmp/forge-test-snapshots/'' @ VmSnapshotId_fmt (fmt_uuid E) sid"
  show "passes (snapshot_creates_recoverable_state E) h"
    using ends [of v "Exists (?stem @ ''.state'') # Exists (?stem @ ''.mem'') # h2"]
    by (auto simp: snapshot_creates_recoverable_state_def run v(1) sid(1))
  show "passes (restore_from_snapshot_succeeds E) h"
    using ends [of v2 "Exists (socket_path v2) # h4"] fresh
    by (auto simp: restore_from_snapshot_succeeds_def run v(1) sid(1) h3(1) v2(1))
qed

end

text \<open>A machine whose guests frame the same output at every run, with noise and exit code of their own.\<close>

locale framing_guest = reliable_host E for E :: env +
  fixes encode :: "u8 list \<Rightarrow> u8 list" and out err :: "u8 list"
  assumes engine: "base64_engine encode (base64_decode E)"
    and frames: "\<exists>noise body1 body2 code rest. quiet_noise noise \<and> wraps body1 (encode out) \<and> wraps body2 (encode err)
      \<and> read_result E h p t = ReadOk (guest_serial noise body1 body2 code rest)"
begin

lemma execute_Ok:
  "\<exists>output h'. fc_execute_command E b cfg cmd t h = (Ok output, h') \<and> out_stdout output = out \<and> out_stderr output = err"
proof -
  have parsed: "\<exists>raw code. read_result E g p t = ReadOk raw \<and> parse_execution_output (base64_decode E) raw = (out, err, code)" for g p
    using frames [of g p t] base64_engine.parse_guest_serial [OF engine] by metis
  define raw where "raw g p = (case read_result E g p t of ReadOk x \<Rightarrow> x | _ \<Rightarrow> [])" for g p
  have read: "read_result E g p t = ReadOk (raw g p)" "\<exists>code. parse_execution_output (base64_decode E) (raw g p) = (out, err, code)" for g p
    using parsed [of g p] by (auto simp: raw_def)
  obtain q where q: "which_binary E (binary_path b) (Exists ''/dev/kvm'' # h) = (Ok (), Exists q # Exists ''/dev/kvm'' # h)"
    using which_binary_Ok by blast
  have serial: "read_serial E c p t g = (Ok (raw g p), ReadStdout p t # g)" if "stdout_piped c" for c p g
    using that by (simp add: read_serial_def run_simps read)
  have code: "fst (parse_execution_output (base64_decode E) (raw g p)) = out"
    "fst (snd (parse_execution_output (base64_decode E) (raw g p))) = err" for g p
    using read(2) [of g p] by auto
  show ?thesis
    by (simp add: fc_execute_command_def run_simps q serial firecracker_cmd_def Let_def case_prod_unfold code)
qed

lemma runner_Ok:
  assumes "backend r = firecracker_vmm E b"
  shows "\<exists>rcd h'. runner_execute E H r block input h = (Ok rcd, h') \<and> output_hash rcd = compute_hash H out err
    \<and> rec_block_id rcd = block_id block"
  using execute_Ok [of b "vm_config r" "build_command (man_name (manifest block))" "run_timeout r" h] assms
  by (auto simp: runner_execute_cases run_record_def firecracker_vmm_def)

lemma run_hashes_Ok:
  assumes "backend r = firecracker_vmm E b"
  shows "\<exists>h'. run_hashes E H r block n h = (Ok (replicate n (compute_hash H out err)), h')"
proof (induction n arbitrary: h)
  case (Suc n)
  obtain rcd h1 where "runner_execute E H r block [] h = (Ok rcd, h1)" "output_hash rcd = compute_hash H out err"
    using runner_Ok [OF assms] by blast
  with Suc.IH [of h1] show ?case by (auto simp: try_bind_def exec_ret)
qed (simp add: exec_ret)

lemma all_identical_replicate: "all_identical (replicate n x)"
proof (induction n)
  case (Suc n)
  then show ?case by (cases n) simp_all
qed simp

lemma execution_tests:
  assumes "ContentHash_as_bytes (compute_hash H out err) \<noteq> replicate 32 0"
  shows "passes (git_block_five_runs_produce_identical_hash E H workspace now id1 id2 id3) h"
    "passes (single_vm_execution_completes E H workspace now id1 id2 id3) h"
proof -
  have r: "backend (make_runner E workspace) = firecracker_vmm E make_backend"
    by (simp add: make_runner_def BlockRunner_with_timeout_def)
  obtain b1 bs where blocks: "example_blocks now id1 id2 id3 = Some (b1 # bs)" "man_name (manifest b1) = ''git-env''"
    by (simp add: example_blocks_def example_block_def unwrap_def example_scores_valid manifest_defs)
  note run = passes_def check_def try_bind_def exec_ret Let_def blocks
  show "passes (git_block_five_runs_produce_identical_hash E H workspace now id1 id2 id3) h"
    using run_hashes_Ok [OF r, of H b1 5 h]
    by (auto simp: git_block_five_runs_produce_identical_hash_def run all_identical_replicate simp del: run_hashes.simps replicate_Suc)
  show "passes (single_vm_execution_completes E H workspace now id1 id2 id3) h"
    using runner_Ok [OF r, of H b1 "[]" h] assms by (auto simp: single_vm_execution_completes_def run)
qed

end

section \<open>The tests pass\<close>


definition git_console :: "u8 list" where
  "git_console = guest_serial [] (b64_encode (as_bytes ''git-env'' @ [10]) @ crlf) (b64_encode [] @ crlf) 0 []"

definition git_env :: env where
  "git_env = (sim_env git_console)\<lparr>drawn_uuid := \<lambda>h. of_nat (draws h), monotonic := \<lambda>_. 0\<rparr>"

interpretation git_host: reliable_host git_env
  by unfold_locales (simp_all add: git_env_def is_success_def)

lemma git_framing_guest: "framing_guest git_env b64_encode (as_bytes ''git-env'' @ [10]) []"
proof (rule framing_guest.intro [OF git_host.reliable_host_axioms framing_guest_axioms.intro])
  show "base64_engine b64_encode (base64_decode git_env)"
    using rfc4648.base64_engine_axioms by (simp add: git_env_def)
  have body: "wraps (b64_encode (as_bytes ''git-env'' @ [10]) @ crlf) (b64_encode (as_bytes ''git-env'' @ [10]))"
    "wraps (b64_encode [] @ crlf) (b64_encode [])"
    by (rule wraps_crlf, code_simp)+
  fix h p t
  have "read_result git_env h p t = ReadOk git_console" by (simp add: git_env_def)
  with body show "\<exists>noise body1 body2 code rest. quiet_noise noise \<and> wraps body1 (b64_encode (as_bytes ''git-env'' @ [10]))
      \<and> wraps body2 (b64_encode []) \<and> read_result git_env h p t = ReadOk (guest_serial noise body1 body2 code rest)"
    using quiet_noise_Nil unfolding git_console_def by blast
qed

interpretation git_guest: framing_guest git_env b64_encode "as_bytes ''git-env'' @ [10]" "[]"
  by (rule git_framing_guest)


end
