(* ===== verification/Backend_Bounds.thy ===== *)
theory Backend_Bounds
  imports Simulation
begin

text \<open>
  What the backend does while a call is under way. A call only adds events to the history,
  so the moments of a call are the histories between the one it starts from and the one it
  ends with; they include every \<open>await\<close> at which it can be cancelled. The locale
  \<open>event_cost\<close> bounds a weight of the events of each method, whatever the weight counts; it
  is interpreted for the processes started, the requests sent and the time slept.
\<close>

section \<open>The cost of a computation\<close>

definition costs :: "(event \<Rightarrow> nat) \<Rightarrow> nat \<Rightarrow> 'a exec \<Rightarrow> bool" where
  "costs w k m = (\<forall>h. \<exists>new. snd (m h) = new @ h \<and> sum_list (map w new) \<le> k)"

lemma costsI: "(\<And>h. \<exists>new. snd (m h) = new @ h \<and> sum_list (map w new) \<le> k) \<Longrightarrow> costs w k m"
  by (simp add: costs_def)

lemma costs_mono: "costs w j m \<Longrightarrow> j \<le> k \<Longrightarrow> costs w k m"
  unfolding costs_def by (meson order_trans)

lemma costs_nothing:
  "costs w 0 (ret a)" "costs w 0 (throw e)" "costs w 0 (from_result r)" "costs w 0 (utc_now E)" "costs w 0 (instant_now E)"
  by (simp_all add: costs_def exec_simps utc_now_def instant_now_def)

lemma costs_event: "w ev \<le> k \<Longrightarrow> (\<And>h. snd (m h) = ev # h) \<Longrightarrow> costs w k m"
  by (intro costsI exI [of _ "[ev]"]) simp

lemma costs_bind:
  assumes "costs w j m" and "\<And>a. costs w k (f a)"
  shows "costs w (j + k) (try_bind m f)"
proof (rule costsI)
  fix h
  obtain new where m: "snd (m h) = new @ h" "sum_list (map w new) \<le> j" using assms(1) by (auto simp: costs_def)
  show "\<exists>new. snd (try_bind m f h) = new @ h \<and> sum_list (map w new) \<le> j + k"
  proof (cases "fst (m h)")
    case (Inl e)
    with m show ?thesis by (intro exI [of _ new]) (simp add: exec_projections)
  next
    case (Inr a)
    obtain new' where "snd (f a (new @ h)) = new' @ new @ h" "sum_list (map w new') \<le> k"
      using assms(2) [of a] unfolding costs_def by blast
    with Inr m show ?thesis by (intro exI [of _ "new' @ new"]) (simp add: exec_projections add.commute add_mono)
  qed
qed

lemma costs_if: "costs w j m \<Longrightarrow> costs w k n \<Longrightarrow> costs w (j + k) (if c then m else n)"
  by (cases c) (auto intro: costs_mono)

lemma costs_wrapped:
  assumes "costs w k m"
  shows "costs w k (with_err g m)" "costs w k (capture m)"
  using assms by (simp_all add: costs_def exec_projections)

lemma costs_dropped:
  assumes "costs w k m" and "w (Dropped p) = 0"
  shows "costs w k (owning_child p m)" "costs w k (dropping_child p m)"
proof -
  have dropped: "\<exists>new. Dropped p # snd (m h) = new @ h \<and> sum_list (map w new) \<le> k"
    and kept: "\<exists>new. snd (m h) = new @ h \<and> sum_list (map w new) \<le> k" for h
  proof -
    obtain new where "snd (m h) = new @ h" "sum_list (map w new) \<le> k" using assms(1) by (auto simp: costs_def)
    with assms(2) show "\<exists>new. Dropped p # snd (m h) = new @ h \<and> sum_list (map w new) \<le> k"
      by (intro exI [of _ "Dropped p # new"]) simp
  qed (use assms(1) in \<open>simp add: costs_def\<close>)
  then show "costs w k (owning_child p m)"
    by (intro costsI) (simp add: exec_projections split: sum.split)
  show "costs w k (dropping_child p m)"
    using dropped by (intro costsI) (simp add: dropping_child_def case_prod_unfold Let_def)
qed

section \<open>The methods of the backend\<close>

locale event_cost =
  fixes w :: "event \<Rightarrow> nat" and s r z :: nat
  assumes w_spawned: "w (Spawned c p) \<le> s" and w_requested: "w (Requested sock req) \<le> r"
    and w_slept: "w (Slept 100) \<le> z"
    and w_other: "w (Exists q) = 0" "w (Metadata q) = 0" "w (CreateDirAll q) = 0" "w DrawUuid = 0"
      "w (SpawnError c) = 0" "w (Connected q) = 0" "w (Killed p) = 0" "w (KillError p) = 0"
      "w (Dropped p) = 0" "w (Waited p) = 0" "w (RemovedFile q) = 0" "w (ReadStdout p d) = 0"
begin

lemma costs_queries:
  "costs w 0 (ask_exists E q)" "costs w 0 (ask_metadata E q)" "costs w 0 (create_dir_all E q)"
  "costs w 0 (new_v4 E)" "costs w 0 (remove_file q)" "costs w 0 (read_with_timeout E p d)"
  "costs w 0 (emit (Waited p))"
  by (rule costs_event, rule w_other [THEN eq_imp_le],
      simp add: ask_exists_def ask_metadata_def create_dir_all_def new_v4_def remove_file_def emit_def read_with_timeout_def)+

lemma costs_sleep: "costs w z (sleep_ms 100)"
  by (rule costs_event [where ev = "Slept 100"], rule w_slept) (simp add: sleep_ms_def emit_def)

lemma costs_kill: "costs w 0 (kill_child E p)"
proof (rule costsI)
  show "\<exists>new. snd (kill_child E p h) = new @ h \<and> sum_list (map w new) \<le> 0" for h
    by (cases "kill_error E h p") (simp_all add: kill_child_def w_other)
qed

lemma costs_spawn: "costs w s (spawn_child E c on_error)"
proof (rule costsI)
  show "\<exists>new. snd (spawn_child E c on_error h) = new @ h \<and> sum_list (map w new) \<le> s" for h
    by (cases "spawn_result E h c") (simp_all add: spawn_child_def w_other w_spawned)
qed

lemma costs_api_steps:
  "costs w 0 (connect_stream E sock)" "costs w 0 (handshake E sock)" "costs w r (send_request E sock req)"
proof -
  have "\<exists>new. snd (connect_stream E sock h) = new @ h \<and> sum_list (map w new) \<le> 0" for h
    by (cases "connect_error E h sock") (simp_all add: connect_stream_def w_other)
  then show "costs w 0 (connect_stream E sock)" by (rule costsI)
  show "costs w 0 (handshake E sock)" by (simp add: costs_def handshake_def split: option.split)
  show "costs w r (send_request E sock req)"
    by (rule costs_event [where ev = "Requested sock req"], rule w_requested) (simp add: send_request_def)
qed

lemma costs_option:
  "costs w k n \<Longrightarrow> (\<And>e. costs w k (m e)) \<Longrightarrow> costs w k (case x of None \<Rightarrow> n | Some e \<Rightarrow> m e)"
  by (cases x) simp_all

lemma costs_throw: "costs w k (throw e)"
  by (rule costs_mono [OF costs_nothing(2)]) simp

lemma costs_api_request: "costs w r (api_request E sock m u b)"
  unfolding api_request_def Let_def
  by (rule costs_mono) (rule costs_bind costs_api_steps costs_option costs_throw costs_nothing | simp)+

lemma costs_put_json: "costs w r (put_json E sock m u j)"
  unfolding put_json_def by (rule costs_api_request)

lemma costs_child:
  assumes "costs w k m"
  shows "costs w k (owning_child p m)" "costs w k (dropping_child p m)"
  using costs_dropped [of w k m p] assms w_other by simp_all

lemmas cost_rules = costs_bind costs_nothing costs_queries costs_kill costs_spawn costs_put_json costs_wrapped costs_if
  costs_child

lemma costs_poll: "costs w (n * z) (poll_socket E sock n)"
proof (induction n)
  case (Suc n)
  have "costs w (0 + (0 + (z + n * z))) (poll_socket E sock (Suc n))"
    unfolding poll_socket.simps by (intro costs_bind costs_if costs_queries costs_nothing costs_sleep Suc)
  then show ?case by simp
qed (simp add: costs_nothing)

lemma costs_wait: "costs w (50 * z) (wait_for_socket E sock)"
  unfolding wait_for_socket_def by (rule costs_poll)

lemma costs_boot: "costs w (4 * r) (configure_and_boot E sock cfg)"
  unfolding configure_and_boot_def by (rule costs_mono) (rule cost_rules | simp)+

lemma costs_any_exists: "costs w 0 (any_exists E ps)"
proof (induction ps)
  case (Cons q ps)
  have "costs w (0 + (0 + 0)) (any_exists E (q # ps))"
    unfolding any_exists.simps by (intro costs_bind costs_if costs_queries costs_nothing Cons)
  then show ?case by simp
qed (simp add: costs_nothing)

lemma costs_checks: "costs w 0 (require_kvm E)" "costs w 0 (which_binary E q)"
proof -
  show "costs w 0 (require_kvm E)"
    unfolding require_kvm_def by (rule costs_mono) (rule cost_rules | simp)+
  show "costs w 0 (which_binary E q)"
    unfolding which_binary_def by (rule costs_mono) (rule cost_rules costs_any_exists | simp)+
qed

lemma costs_read_serial: "costs w 0 (read_serial E c p t)"
proof -
  have "costs w 0 (case a of TimedOut \<Rightarrow> throw e | ReadError e \<Rightarrow> throw (Io e) | ReadOk raw \<Rightarrow> ret raw)" for a e
    by (cases a) (simp_all add: costs_nothing)
  then have "costs w (0 + (0 + 0)) (read_serial E c p t)"
    unfolding read_serial_def by (intro costs_if costs_bind costs_queries costs_nothing)
  then show ?thesis by simp
qed

lemma costs_fc_spawn: "costs w (s + 4 * r + 50 * z) (fc_spawn E b cfg)"
  unfolding fc_spawn_def Let_def
  by (rule costs_mono) (rule cost_rules costs_checks costs_wait costs_boot | simp)+

lemma costs_fc_restore: "costs w (s + 4 * r + 50 * z) (fc_restore E b sid)"
  unfolding fc_restore_def Let_def
  by (rule costs_mono) (rule cost_rules costs_wait | simp)+

lemma costs_fc_execute_command: "costs w (s + 4 * r + 50 * z) (fc_execute_command E b cfg cmd t)"
  unfolding fc_execute_command_def Let_def case_prod_unfold
  by (rule costs_mono) (rule cost_rules costs_checks costs_wait costs_boot costs_read_serial | simp)+

lemma costs_fc_others:
  "costs w (3 * r) (fc_snapshot E b v)" "costs w 0 (fc_terminate E b v)" "costs w 0 (fc_health_check E b)"
proof -
  show "costs w (3 * r) (fc_snapshot E b v)"
    unfolding fc_snapshot_def Let_def by (rule costs_mono) (rule cost_rules | simp)+
  show "costs w 0 (fc_terminate E b v)"
    unfolding fc_terminate_def by (rule costs_mono) (rule cost_rules | simp)+
  show "costs w 0 (fc_health_check E b)"
    unfolding fc_health_check_def by (rule costs_mono) (rule cost_rules costs_checks | simp)+
qed

end

section \<open>Processes, requests and time\<close>

definition spawn_weight :: "event \<Rightarrow> nat" where
  "spawn_weight e = length (spawned_pids [e])"

definition request_weight :: "event \<Rightarrow> nat" where
  "request_weight e = length (requests [e])"

definition sleep_weight :: "event \<Rightarrow> nat" where
  "sleep_weight e = slept [e]"

interpretation processes: event_cost spawn_weight 1 0 0
  by unfold_locales (simp_all add: spawn_weight_def)

interpretation messages: event_cost request_weight 0 1 0
  by unfold_locales (simp_all add: request_weight_def)

interpretation time_slept: event_cost sleep_weight 0 0 100
  by unfold_locales (simp_all add: sleep_weight_def)

lemma weights:
  "length (spawned_pids g) = sum_list (map spawn_weight g)"
  "length (requests (g @ h)) = sum_list (map request_weight g) + length (requests h)"
  "slept (g @ h) = sum_list (map sleep_weight g) + slept h"
proof -
  show "length (spawned_pids g) = sum_list (map spawn_weight g)"
    by (induction g rule: spawned_pids.induct) (simp_all add: spawn_weight_def)
  show "length (requests (g @ h)) = sum_list (map request_weight g) + length (requests h)"
    by (induction g rule: requests.induct) (simp_all add: request_weight_def)
  show "slept (g @ h) = sum_list (map sleep_weight g) + slept h"
    by (induction g rule: slept.induct) (simp_all add: sleep_weight_def)
qed

section \<open>Calls, their moments and their cancellation\<close>

datatype backend_call =
    SpawnCall VmConfig
  | SnapshotCall VmHandle
  | RestoreCall VmSnapshotId
  | TerminateCall VmHandle
  | HealthCall
  | ExecuteCall VmConfig string duration

fun backend_run :: "env \<Rightarrow> FirecrackerBackend \<Rightarrow> backend_call \<Rightarrow> history \<Rightarrow> history" where
  "backend_run E b (SpawnCall cfg) h = snd (fc_spawn E b cfg h)"
| "backend_run E b (SnapshotCall v) h = snd (fc_snapshot E b v h)"
| "backend_run E b (RestoreCall sid) h = snd (fc_restore E b sid h)"
| "backend_run E b (TerminateCall v) h = snd (fc_terminate E b v h)"
| "backend_run E b HealthCall h = snd (fc_health_check E b h)"
| "backend_run E b (ExecuteCall cfg cmd t) h = snd (fc_execute_command E b cfg cmd t h)"

text \<open>
  A call that is cancelled drops what it owns: the child it has started, and the handle
  that was moved into it.
\<close>

fun owned_process :: "backend_call \<Rightarrow> pid list" where
  "owned_process (TerminateCall v) = [process v]"
| "owned_process _ = []"

definition cancelled :: "backend_call \<Rightarrow> history \<Rightarrow> history \<Rightarrow> history" where
  "cancelled c h hm = map Dropped (owned_process c @ spawned_pids (take (length hm - length h) hm)) @ hm"

context event_cost
begin

lemma backend_run_cost: "\<exists>new. backend_run E b c h = new @ h \<and> sum_list (map w new) \<le> s + 4 * r + 50 * z"
proof -
  have "costs w (s + 4 * r + 50 * z) (fc_snapshot E b v)" "costs w (s + 4 * r + 50 * z) (fc_terminate E b v)"
    "costs w (s + 4 * r + 50 * z) (fc_health_check E b)" for v
    by (rule costs_mono [OF costs_fc_others(1)] costs_mono [OF costs_fc_others(2)] costs_mono [OF costs_fc_others(3)], simp)+
  then show ?thesis
    using costs_fc_spawn costs_fc_restore costs_fc_execute_command by (cases c) (simp_all add: costs_def)
qed

text \<open>At every moment of a call the bound of the whole call holds.\<close>

lemma moment_cost:
  assumes "suffix h hm" and "suffix hm (backend_run E b c h)"
  shows "\<exists>new. hm = new @ h \<and> sum_list (map w new) \<le> s + 4 * r + 50 * z"
proof -
  obtain new where run: "backend_run E b c h = new @ h" "sum_list (map w new) \<le> s + 4 * r + 50 * z"
    using backend_run_cost by blast
  obtain new1 new2 where "hm = new2 @ h" "new = new1 @ new2"
    using assms run(1) by (auto elim!: suffixE)
  with run(2) show ?thesis by (intro exI [of _ new2]) simp
qed

end



end
