(* ===== verification/Backend_Interleaving.thy ===== *)
theory Backend_Interleaving
  imports Backend_Bounds
begin

text \<open>
  Calls of the backend that interleave event by event. A call meets the other calls only
  through the answers of the outside world, and the world of a call is any \<open>env\<close>; so calls
  that run at the same time are runs, each in a world of its own, whose events are merged in
  any order. The children a call starts are its own: no other call kills, drops or
  reaps them, so each call ends as if it were alone.
\<close>

section \<open>The children an event concerns\<close>

fun touched :: "event \<Rightarrow> pid set" where
  "touched (Spawned c p) = {p}"
| "touched (Killed p) = {p}"
| "touched (Dropped p) = {p}"
| "touched (Waited p) = {p}"
| "touched _ = {}"

definition child_events :: "history \<Rightarrow> history" where
  "child_events h = filter (\<lambda>e. touched e \<noteq> {}) h"

lemma child_events_simps [simp]:
  "child_events [] = []" "child_events (g @ h) = child_events g @ child_events h"
  "child_events (e # h) = (if touched e = {} then child_events h else e # child_events h)"
  by (simp_all add: child_events_def)

interpretation children: history_view child_events
proof
  show "child_events (e # h) = child_events h" if "quiet_event e" for e h
    using that by (cases e) simp_all
qed

lemma spawned_pids_child_events: "spawned_pids (child_events h) = spawned_pids h"
  by (induction h rule: spawned_pids.induct) simp_all

lemma put_json_preserves_children [intro!]: "preserves child_events (put_json E s m u j)"
  by (simp add: preserves_def put_json_def api_request_defs Let_def split: sum.split option.split)

section \<open>The children of each method\<close>

lemma children_spawn_bind:
  assumes "\<And>e h. child_events h = C \<Longrightarrow> X (on_error e) h"
    and "\<And>p. triple (\<lambda>h. child_events h = Spawned c p # C) (f p) X Q"
  shows "triple (\<lambda>h. child_events h = C) (try_bind (spawn_child E c on_error) f) X Q"
proof (rule triple_bind)
  show "triple (\<lambda>h. child_events h = C) (spawn_child E c on_error) X (\<lambda>p h. child_events h = Spawned c p # C)"
    using assms(1) by (auto simp: triple_def spawn_child_def split: sum.split)
qed (rule assms(2))

lemmas children_skips = children.triple_skip children.preserves_if children.preserves_require_kvm
  children.preserves_queries children.preserves_which_binary children.preserves_wait_for_socket
  children.preserves_with_err children.preserves_capture children.preserves_bind children.preserves_ret
  children.preserves_read_serial put_json_preserves_children

text \<open>A failed start leaves nothing, or a child that was started and dropped.\<close>

definition started_nothing :: "history \<Rightarrow> history \<Rightarrow> bool" where
  "started_nothing C h =
     (child_events h = C \<or> (\<exists>c p. child_events h = Dropped p # Spawned c p # C
        \<or> child_events h = Dropped p # Waited p # Spawned c p # C))"

lemma children_fc_spawn:
  "triple (\<lambda>h. child_events h = C) (fc_spawn E b cfg) (\<lambda>e. started_nothing C)
     (\<lambda>v h. \<exists>c. child_events h = Spawned c (process v) # C)"
  unfolding fc_spawn_def Let_def configure_and_boot_def
  by (intro children_skips children_spawn_bind triple_owning_child triple_ret)
    (auto simp: VmHandle_new_def started_nothing_def)

lemma children_fc_restore:
  "triple (\<lambda>h. child_events h = C) (fc_restore E b sid) (\<lambda>e. started_nothing C)
     (\<lambda>v h. \<exists>c. child_events h = Spawned c (process v) # C)"
  unfolding fc_restore_def Let_def
  by (intro children_skips children_spawn_bind triple_owning_child triple_ret triple_if triple_throw)
    (auto simp: VmHandle_new_def started_nothing_def)

lemma children_reap_bind:
  assumes "\<And>u. triple (\<lambda>h. child_events h = Waited p # C) (f u) X Q"
  shows "triple (\<lambda>h. child_events h = C) (try_bind (emit (Waited p)) f) X Q"
  using assms by (intro triple_bind [OF triple_emit [where Q = "\<lambda>_ h. child_events h = Waited p # C"]]) simp_all

lemma children_fc_execute_command:
  "triple (\<lambda>h. child_events h = C) (fc_execute_command E b cfg cmd t) (\<lambda>e. started_nothing C)
     (\<lambda>_. started_nothing C)"
  unfolding fc_execute_command_def Let_def configure_and_boot_def case_prod_unfold
  by (intro children_skips children_spawn_bind children_reap_bind triple_dropping_child triple_ret)
    (auto simp: started_nothing_def)

lemma children_fc_terminate:
  "child_events (snd (fc_terminate E b v h)) = Dropped (process v) # child_events h
   \<or> child_events (snd (fc_terminate E b v h)) = Dropped (process v) # Killed (process v) # child_events h"
  by (simp add: fc_terminate_def dropping_child_def exec_projections kill_child_def remove_file_def exec_simps
      case_prod_unfold Let_def split: option.split sum.split)

lemma children_others:
  "child_events (snd (fc_snapshot E b v h)) = child_events h" "child_events (snd (fc_health_check E b h)) = child_events h"
proof -
  have "preserves child_events (fc_snapshot E b v)" unfolding fc_snapshot_def Let_def by auto
  then show "child_events (snd (fc_snapshot E b v h)) = child_events h" by (simp add: preserves_def)
  show "child_events (snd (fc_health_check E b h)) = child_events h"
    using children.preserves_health_check by (simp add: preserves_def)
qed

text \<open>The process a call leaves behind.\<close>

fun left_running :: "env \<Rightarrow> FirecrackerBackend \<Rightarrow> backend_call \<Rightarrow> history \<Rightarrow> pid set" where
  "left_running E b (SpawnCall cfg) h = (case fst (fc_spawn E b cfg h) of Inl e \<Rightarrow> {} | Inr v \<Rightarrow> {process v})"
| "left_running E b (RestoreCall sid) h = (case fst (fc_restore E b sid h) of Inl e \<Rightarrow> {} | Inr v \<Rightarrow> {process v})"
| "left_running E b _ h = {}"

text \<open>All a call does to children.\<close>

lemma backend_run_children:
  "\<exists>new. child_events (backend_run E b c h) = new @ child_events h \<and>
     (owned_process c = [] \<and>
        (new = [] \<and> left_running E b c h = {}
         \<or> (\<exists>cm p. new = [Spawned cm p] \<and> left_running E b c h = {p})
         \<or> (\<exists>cm p. (new = [Dropped p, Spawned cm p] \<or> new = [Dropped p, Waited p, Spawned cm p]) \<and> left_running E b c h = {}))
      \<or> (\<exists>p. owned_process c = [p] \<and> left_running E b c h = {} \<and> (new = [Dropped p] \<or> new = [Dropped p, Killed p])))"
proof (cases c)
  case (SpawnCall cfg)
  with children_fc_spawn [of "child_events h" E b cfg] show ?thesis
    by (cases "fst (fc_spawn E b cfg h)") (auto simp: triple_iff started_nothing_def dest!: spec [of _ h])
next
  case (RestoreCall sid)
  with children_fc_restore [of "child_events h" E b sid] show ?thesis
    by (cases "fst (fc_restore E b sid h)") (auto simp: triple_iff started_nothing_def dest!: spec [of _ h])
next
  case (ExecuteCall cfg cmd t)
  with tripleD_snd [OF children_fc_execute_command [of "child_events h" E b cfg cmd t], of h "started_nothing (child_events h)"]
  show ?thesis by (auto simp: started_nothing_def)
next
  case (TerminateCall v)
  with children_fc_terminate [of E b v h] show ?thesis by auto
qed (simp_all add: children_others)

section \<open>One call\<close>

definition own_pids :: "backend_call \<Rightarrow> history \<Rightarrow> pid set" where
  "own_pids c seg = set (owned_process c) \<union> set (spawned_pids seg)"

lemma live_child_events: "live (child_events g @ h) = live (g @ h)"
  by (induction g rule: live.induct) simp_all

lemma set_child_events: "e \<in> set h \<Longrightarrow> touched e \<noteq> {} \<Longrightarrow> e \<in> set (child_events h)"
  by (simp add: child_events_def)

text \<open>At every moment a call has concerned only its own children.\<close>

lemma moment_confined:
  assumes "suffix (seg @ h) (backend_run E b c h)" and "e \<in> set seg"
  shows "touched e \<subseteq> own_pids c seg"
proof (cases "touched e = {}")
  case False
  obtain new where new: "child_events (backend_run E b c h) = new @ child_events h"
    and shape: "owned_process c = [] \<and> (new = [] \<or> (\<exists>cm p. new = [Spawned cm p] \<or> new = [Dropped p, Spawned cm p]
         \<or> new = [Dropped p, Waited p, Spawned cm p]))
      \<or> (\<exists>p. owned_process c = [p] \<and> (new = [Dropped p] \<or> new = [Dropped p, Killed p]))"
    using backend_run_children [of E b c h] by blast
  obtain rest where "backend_run E b c h = rest @ seg @ h" using assms(1) by (auto elim: suffixE)
  with new have "new = child_events rest @ child_events seg" by simp
  moreover have "e \<in> set (child_events seg)" using assms(2) False by (rule set_child_events)
  ultimately show ?thesis
    using shape spawned_pids_child_events [of seg, symmetric]
    by (auto simp: own_pids_def append_eq_Cons_conv Cons_eq_append_conv)
qed simp

text \<open>A call that has ended has left its process, and none of the others it concerned.\<close>

lemma complete_live:
  assumes "backend_run E b c h = seg @ h" and "set (spawned_pids seg) \<inter> live h0 = {}"
  shows "live (seg @ h0) \<inter> own_pids c seg = left_running E b c h"
proof -
  obtain new where new: "child_events (backend_run E b c h) = new @ child_events h"
    and shape: "owned_process c = [] \<and>
        (new = [] \<and> left_running E b c h = {}
         \<or> (\<exists>cm p. new = [Spawned cm p] \<and> left_running E b c h = {p})
         \<or> (\<exists>cm p. (new = [Dropped p, Spawned cm p] \<or> new = [Dropped p, Waited p, Spawned cm p]) \<and> left_running E b c h = {}))
      \<or> (\<exists>p. owned_process c = [p] \<and> left_running E b c h = {} \<and> (new = [Dropped p] \<or> new = [Dropped p, Killed p]))"
    using backend_run_children [of E b c h] by blast
  from new assms(1) have seg: "child_events seg = new" by simp
  have "live (seg @ h0) = live (new @ h0)" using live_child_events [of seg h0] seg by simp
  moreover have "spawned_pids seg = spawned_pids new" using spawned_pids_child_events [of seg] seg by simp
  ultimately show ?thesis using shape assms(2) by (auto simp: own_pids_def)
qed

section \<open>Merged calls\<close>

text \<open>The events of call \<open>k\<close> in a list of events marked with the call they belong to.\<close>

definition of_call :: "nat \<Rightarrow> (nat \<times> event) list \<Rightarrow> history" where
  "of_call k T = map snd (filter (\<lambda>(j, e). j = k) T)"

lemma of_call_simps [simp]:
  "of_call k [] = []" "of_call k ((j, e) # T) = (if j = k then e # of_call k T else of_call k T)"
  by (simp_all add: of_call_def)

lemma live_merged:
  assumes "\<forall>(j, e) \<in> set T. j \<noteq> k \<longrightarrow> touched e \<inter> P = {}"
  shows "live (map snd T @ h) \<inter> P = live (of_call k T @ h) \<inter> P"
  using assms
proof (induction T)
  case (Cons t T)
  obtain j e where t: "t = (j, e)" by (cases t)
  with Cons have IH: "live (map snd T @ h) \<inter> P = live (of_call k T @ h) \<inter> P" by simp
  from Cons.prems t show ?case using IH by (cases e) auto
qed simp

lemma live_untouched:
  assumes "\<forall>(j, e) \<in> set T. touched e \<inter> P = {}"
  shows "live (map snd T @ h) \<inter> P = live h \<inter> P"
  using assms
proof (induction T)
  case (Cons t T)
  obtain j e where "t = (j, e)" by (cases t)
  with Cons show ?case by (cases e) auto
qed simp

text \<open>
  Calls, each with its world and the history it started from, that have come as far as \<open>T\<close>
  says; their children are told apart by their process ids.
\<close>

type_synonym started_call = "env \<times> backend_call \<times> history"

fun own_of :: "started_call list \<Rightarrow> (nat \<times> event) list \<Rightarrow> nat \<Rightarrow> pid set" where
  "own_of cs T k = (case cs ! k of (E, c, h) \<Rightarrow> own_pids c (of_call k T))"

definition under_way :: "FirecrackerBackend \<Rightarrow> started_call list \<Rightarrow> (nat \<times> event) list \<Rightarrow> bool" where
  "under_way b cs T =
     ((\<forall>(k, e) \<in> set T. k < length cs)
      \<and> (\<forall>k < length cs. case cs ! k of (E, c, h) \<Rightarrow> suffix (of_call k T @ h) (backend_run E b c h)))"

definition distinct_children :: "history \<Rightarrow> started_call list \<Rightarrow> (nat \<times> event) list \<Rightarrow> bool" where
  "distinct_children h0 cs T =
     ((\<forall>j < length cs. \<forall>k < length cs. j \<noteq> k \<longrightarrow> own_of cs T j \<inter> own_of cs T k = {})
      \<and> (\<forall>k < length cs. set (spawned_pids (of_call k T)) \<inter> live h0 = {}))"

definition complete :: "FirecrackerBackend \<Rightarrow> started_call list \<Rightarrow> (nat \<times> event) list \<Rightarrow> bool" where
  "complete b cs T = (\<forall>k < length cs. case cs ! k of (E, c, h) \<Rightarrow> backend_run E b c h = of_call k T @ h)"

lemma in_of_call: "(k, e) \<in> set T \<Longrightarrow> e \<in> set (of_call k T)"
  by (force simp: of_call_def)

lemma under_way_confined:
  assumes "under_way b cs T" and "(k, e) \<in> set T"
  shows "touched e \<subseteq> own_of cs T k"
  using assms moment_confined in_of_call [OF assms(2)] by (fastforce simp: under_way_def split: prod.splits)

lemma merged_own:
  assumes "under_way b cs T" and "distinct_children h0 cs T" and "k < length cs"
  shows "live (map snd T @ h0) \<inter> own_of cs T k = live (of_call k T @ h0) \<inter> own_of cs T k"
proof (rule live_merged, clarify)
  fix j e assume e: "(j, e) \<in> set T" "j \<noteq> k"
  then have "j < length cs" using assms(1) by (auto simp: under_way_def)
  with e assms(2,3) under_way_confined [OF assms(1) e(1)] show "touched e \<inter> own_of cs T k = {}"
    unfolding distinct_children_def by blast
qed

lemma merged_others:
  assumes "under_way b cs T"
  shows "live (map snd T @ h0) - (\<Union>k < length cs. own_of cs T k) = live h0 - (\<Union>k < length cs. own_of cs T k)"
proof -
  have "touched e \<inter> - (\<Union>k < length cs. own_of cs T k) = {}" if e: "(k, e) \<in> set T" for k e
  proof -
    have "k < length cs" using assms e by (auto simp: under_way_def)
    with under_way_confined [OF assms e] show ?thesis by blast
  qed
  then have "live (map snd T @ h0) \<inter> - (\<Union>k < length cs. own_of cs T k) = live h0 \<inter> - (\<Union>k < length cs. own_of cs T k)"
    by (intro live_untouched) blast
  then show ?thesis by (simp add: Diff_eq)
qed

lemma under_way_one_child:
  assumes "under_way b cs T" and "k < length cs"
  shows "length (spawned_pids (of_call k T)) \<le> 1"
proof -
  obtain E c h where k: "cs ! k = (E, c, h)" by (cases "cs ! k")
  with assms have "suffix (of_call k T @ h) (backend_run E b c h)" by (auto simp: under_way_def)
  from processes.moment_cost [OF _ this] show ?thesis by (auto simp: weights suffix_def)
qed

lemma spawned_pids_iff: "p \<in> set (spawned_pids h) \<longleftrightarrow> (\<exists>cm. Spawned cm p \<in> set h)"
  by (induction h rule: spawned_pids.induct) auto

lemma under_way_live:
  assumes "under_way b cs T"
  shows "live (map snd T @ h0) \<subseteq> live h0 \<union> (\<Union>k < length cs. set (spawned_pids (of_call k T)))"
proof
  fix p assume "p \<in> live (map snd T @ h0)"
  then consider "p \<in> live h0" | "p \<in> set (spawned_pids (map snd T))" using live_append by blast
  then show "p \<in> live h0 \<union> (\<Union>k < length cs. set (spawned_pids (of_call k T)))"
  proof cases
    case 2
    then obtain k cm where e: "(k, Spawned cm p) \<in> set T" by (auto simp: spawned_pids_iff)
    then have "k < length cs" using assms by (auto simp: under_way_def)
    with in_of_call [OF e] show ?thesis by (auto simp: spawned_pids_iff)
  qed simp
qed

lemma merged_complete:
  assumes "under_way b cs T" and "distinct_children h0 cs T" and "complete b cs T"
  shows "live (map snd T @ h0) =
    (live h0 - (\<Union>(E, c, h) \<in> set cs. set (owned_process c))) \<union> (\<Union>(E, c, h) \<in> set cs. left_running E b c h)"
proof -
  let ?own = "own_of cs T" and ?G = "live (map snd T @ h0)"
  define owned where "owned k = (case cs ! k of (E, c, h) \<Rightarrow> set (owned_process c))" for k
  define left where "left k = (case cs ! k of (E, c, h) \<Rightarrow> left_running E b c h)" for k
  have part: "?G \<inter> ?own k = left k" if "k < length cs" for k
    using merged_own [OF assms(1,2) that] complete_live assms(2,3) that
    by (auto simp: left_def complete_def distinct_children_def split: prod.splits)
  have own: "?own k = owned k \<union> set (spawned_pids (of_call k T))" for k
    by (simp add: owned_def own_pids_def split: prod.split)
  have fresh: "set (spawned_pids (of_call k T)) \<inter> live h0 = {}" if "k < length cs" for k
    using assms(2) that by (simp add: distinct_children_def)
  have "?G = (\<Union>k < length cs. ?G \<inter> ?own k) \<union> (?G - (\<Union>k < length cs. ?own k))" by blast
  also have "\<dots> = (\<Union>k < length cs. left k) \<union> (live h0 - (\<Union>k < length cs. ?own k))"
    using part merged_others [OF assms(1), of h0] by simp
  also have "live h0 - (\<Union>k < length cs. ?own k) = live h0 - (\<Union>k < length cs. owned k)"
    using fresh unfolding own by blast
  finally have "?G = (live h0 - (\<Union>k < length cs. owned k)) \<union> (\<Union>k < length cs. left k)" by blast
  moreover have "(\<Union>k < length cs. f (cs ! k)) = \<Union> (f ` set cs)" for f :: "started_call \<Rightarrow> pid set"
    by (auto simp: set_conv_nth)
  ultimately show ?thesis by (simp add: owned_def left_def)
qed


text \<open>A start that is interrupted by a whole termination of another VM.\<close>

definition demo_spawn :: "started_call" where
  "demo_spawn = (sim_env [], SpawnCall (VmConfig_new ''/k'' ''/r''), [])"

definition demo_terminate :: "started_call" where
  "demo_terminate = (sim_env [], TerminateCall (VmHandle_new 0 1 ''/tmp/vm.sock'' 7), [])"

definition demo_merge :: "(nat \<times> event) list" where
  "demo_merge =
     (let start = backend_run (sim_env []) with_defaults (SpawnCall (VmConfig_new ''/k'' ''/r'')) [];
          stop = backend_run (sim_env []) with_defaults (TerminateCall (VmHandle_new 0 1 ''/tmp/vm.sock'' 7)) []
      in map (Pair 0) (take 5 start) @ map (Pair 1) stop @ map (Pair 0) (drop 5 start))"

lemma of_call_merge:
  "of_call k (T @ U) = of_call k T @ of_call k U" "of_call k (map (Pair j) h) = (if j = k then h else [])"
  by (simp_all add: of_call_def filter_map o_def)

lemma demo_parts:
  "of_call 0 demo_merge = backend_run (sim_env []) with_defaults (SpawnCall (VmConfig_new ''/k'' ''/r'')) []"
  "of_call 1 demo_merge = backend_run (sim_env []) with_defaults (TerminateCall (VmHandle_new 0 1 ''/tmp/vm.sock'' 7)) []"
  by (simp_all add: demo_merge_def of_call_merge Let_def del: backend_run.simps)

lemma demo_pids: "spawned_pids (of_call 0 demo_merge) = [4]" "spawned_pids (of_call 1 demo_merge) = []"
  unfolding demo_parts
  by (simp_all add: fc_spawn_def fc_terminate_def sim_run Let_def)

lemma demo_left: "left_running (sim_env []) with_defaults (SpawnCall (VmConfig_new ''/k'' ''/r'')) [] = {4}"
  using sim_spawn [of "[]" with_defaults "VmConfig_new ''/k'' ''/r''" "[]"] by (auto simp: VmHandle_new_def)


end
