(* ===== verification/Gateway_Linearization.thy ===== *)
theory Gateway_Linearization
  imports Gateway_Concurrency
begin

text \<open>
  The concurrent gateway behaves like the sequential one. A \<open>history\<close> is a server whose
  requests are numbered in the order they are accepted, with the calls made so far, the
  order in which the requests accessed the pool, and the replies. The calls, run through the
  abstract API one after the other in that order, give every reply its status and the
  registered sandboxes of the server; and a request that was answered before another one
  was accepted comes before it in the order.
\<close>

section \<open>Numbered requests\<close>

record 'm history =
  srv :: "'m server"
  invoked :: "api_call list"
  requests :: "nat \<rightharpoonup> flight"
  order :: "(nat \<times> api_call \<times> uuid) list"
  replies :: "(nat \<times> response \<times> nat) list"

definition history_new :: "'m index_map_ops \<Rightarrow> 'm history" where
  "history_new M = \<lparr>srv = server_new M, invoked = [], requests = Map.empty, order = [], replies = []\<rparr>"

text \<open>
  An entry of \<open>order\<close> carries the identifier a creation would draw at that moment, a reply
  the number of requests accepted before it was sent.
\<close>

definition entry_now :: "gw_env \<Rightarrow> nat \<Rightarrow> api_call \<Rightarrow> 'm server \<Rightarrow> nat \<times> api_call \<times> uuid" where
  "entry_now E k c s = (k, c, gw_drawn E (trace (gw s)))"

inductive history_step :: "gw_env \<Rightarrow> 'm index_map_ops \<Rightarrow> 'm history \<Rightarrow> 'm history \<Rightarrow> bool" for E M where
  accept: "history_step E M h (h\<lparr>
    srv := (srv h)\<lparr>inflight := add_mset (Arrived c) (inflight (srv h)), accepted := Suc (accepted (srv h))\<rparr>,
    invoked := invoked h @ [c], requests := (requests h)(accepted (srv h) \<mapsto> Arrived c)\<rparr>)"
| direct: "requests h k = Some (Arrived c) \<Longrightarrow> \<not> two_phase c \<Longrightarrow> answer E M c (gw (srv h)) = Some (rsp, g) \<Longrightarrow>
    history_step E M h (h\<lparr>
      srv := (srv h)\<lparr>gw := g, inflight := inflight (srv h) - {#Arrived c#}, answered := rsp # answered (srv h),
        created := created_id rsp \<union> created (srv h)\<rparr>,
      requests := (requests h)(k := None), order := order h @ [entry_now E k c (srv h)],
      replies := (k, rsp, accepted (srv h)) # replies h\<rparr>)"
| check_known: "requests h k = Some (Arrived c) \<Longrightarrow> two_phase c \<Longrightarrow> call_target c = Some i \<Longrightarrow>
    pool_contains M i (pool (gw (srv h))) = Some True \<Longrightarrow>
    history_step E M h (h\<lparr>
      srv := (srv h)\<lparr>inflight := add_mset (Checked c) (inflight (srv h) - {#Arrived c#})\<rparr>,
      requests := (requests h)(k \<mapsto> Checked c), order := order h @ [entry_now E k c (srv h)]\<rparr>)"
| check_unknown: "requests h k = Some (Arrived c) \<Longrightarrow> two_phase c \<Longrightarrow> call_target c = Some i \<Longrightarrow>
    pool_contains M i (pool (gw (srv h))) = Some False \<Longrightarrow>
    history_step E M h (h\<lparr>
      srv := (srv h)\<lparr>inflight := inflight (srv h) - {#Arrived c#}, answered := not_found_response E i # answered (srv h)\<rparr>,
      requests := (requests h)(k := None), order := order h @ [entry_now E k c (srv h)],
      replies := (k, not_found_response E i, accepted (srv h)) # replies h\<rparr>)"
| refuse: "requests h k = Some (Checked c) \<Longrightarrow> call_process c = None \<Longrightarrow>
    finish_call E (instant_now_of E (gw (srv h))) c (gw (srv h)) = (rsp, g) \<Longrightarrow>
    history_step E M h (h\<lparr>
      srv := (srv h)\<lparr>gw := g, inflight := inflight (srv h) - {#Checked c#}, answered := rsp # answered (srv h)\<rparr>,
      requests := (requests h)(k := None), replies := (k, rsp, accepted (srv h)) # replies h\<rparr>)"
| spawn: "requests h k = Some (Checked c) \<Longrightarrow> call_process c = Some q \<Longrightarrow>
    history_step E M h (h\<lparr>
      srv := (srv h)\<lparr>inflight := add_mset (Running (instant_now_of E (gw (srv h))) c) (inflight (srv h) - {#Checked c#}),
        started := log_start c (started (srv h))\<rparr>,
      requests := (requests h)(k \<mapsto> Running (instant_now_of E (gw (srv h))) c)\<rparr>)"
| finish: "requests h k = Some (Running start c) \<Longrightarrow> finish_call E start c (gw (srv h)) = (rsp, g) \<Longrightarrow>
    history_step E M h (h\<lparr>
      srv := (srv h)\<lparr>gw := g, inflight := inflight (srv h) - {#Running start c#}, answered := rsp # answered (srv h)\<rparr>,
      requests := (requests h)(k := None), replies := (k, rsp, accepted (srv h)) # replies h\<rparr>)"
| hang_up_early: "requests h k = Some (Arrived c) \<Longrightarrow>
    history_step E M h (h\<lparr>
      srv := (srv h)\<lparr>inflight := inflight (srv h) - {#Arrived c#}, hung_up := Suc (hung_up (srv h))\<rparr>,
      requests := (requests h)(k := None)\<rparr>)"
| hang_up_running: "requests h k = Some (Running start c) \<Longrightarrow> finish_call E start c (gw (srv h)) = (rsp, g) \<Longrightarrow>
    history_step E M h (h\<lparr>
      srv := (srv h)\<lparr>gw := g, inflight := inflight (srv h) - {#Running start c#}, hung_up := Suc (hung_up (srv h))\<rparr>,
      requests := (requests h)(k := None)\<rparr>)"

abbreviation history_run :: "gw_env \<Rightarrow> 'm index_map_ops \<Rightarrow> 'm history \<Rightarrow> 'm history \<Rightarrow> bool" where
  "history_run E M \<equiv> (history_step E M)\<^sup>*\<^sup>*"

section \<open>Histories are the runs of the server\<close>

definition flights :: "(nat \<rightharpoonup> flight) \<Rightarrow> flight multiset" where
  "flights R = image_mset (\<lambda>k. the (R k)) (mset_set (dom R))"

lemma flights_empty [simp]: "flights Map.empty = {#}"
  by (simp add: flights_def)

lemma flights_remove:
  assumes "finite (dom R)" and "R k = Some f"
  shows "flights R = add_mset f (flights (R(k := None)))"
proof -
  have "k \<in> dom R" using assms(2) by blast
  then have "mset_set (dom R) = add_mset k (mset_set (dom R - {k}))"
    using assms(1) by (metis mset_set.remove)
  moreover have "image_mset (\<lambda>j. the (R j)) (mset_set (dom R - {k}))
      = image_mset (\<lambda>j. the ((R(k := None)) j)) (mset_set (dom R - {k}))"
    using assms(1) by (intro image_mset_cong) auto
  ultimately show ?thesis using assms(2) by (simp add: flights_def)
qed

lemma flights_insert:
  assumes "finite (dom R)" and "k \<notin> dom R"
  shows "flights (R(k \<mapsto> f)) = add_mset f (flights R)"
proof -
  have "(R(k \<mapsto> f))(k := None) = R" using assms(2) by (auto simp: fun_eq_iff domIff)
  with flights_remove [of "R(k \<mapsto> f)" k f] assms(1) show ?thesis by simp
qed

lemma flights_replace:
  assumes "finite (dom R)" and "R k = Some f"
  shows "flights (R(k \<mapsto> f')) = add_mset f' (flights (R(k := None)))"
  using flights_insert [of "R(k := None)" k f'] assms(1) by (simp add: domIff)

lemma flights_member:
  assumes "finite (dom R)"
  shows "f \<in># flights R \<longleftrightarrow> (\<exists>k. R k = Some f)"
  using assms by (force simp: flights_def)

definition numbered :: "'m history \<Rightarrow> bool" where
  "numbered h = (inflight (srv h) = flights (requests h) \<and> dom (requests h) \<subseteq> {..<accepted (srv h)}
     \<and> length (invoked h) = accepted (srv h) \<and> answered (srv h) = map (\<lambda>(k, rsp, n). rsp) (replies h))"

lemma numbered_finite: "numbered h \<Longrightarrow> finite (dom (requests h))"
  unfolding numbered_def by (meson finite_lessThan finite_subset)

lemma history_step_numbered:
  assumes "history_step E M h h'" and "numbered h"
  shows "numbered h'"
proof -
  note fin = numbered_finite [OF assms(2)]
  have fresh: "accepted (srv h) \<notin> dom (requests h)" using assms(2) by (auto simp: numbered_def)
  note upd = flights_insert [OF fin fresh] flights_remove [OF fin] flights_replace [OF fin]
  from assms(1) show ?thesis
    by cases (use assms(2) in \<open>auto simp: numbered_def upd simp del: fun_upd_apply split: if_splits\<close>)
qed

lemma history_step_server:
  assumes "history_step E M h h'" and "numbered h"
  shows "server_step E M (srv h) (srv h')"
proof -
  have mem: "f \<in># inflight (srv h)" if "requests h k = Some f" for k f
    using that flights_member [OF numbered_finite [OF assms(2)]] assms(2) by (auto simp: numbered_def)
  from assms(1) show ?thesis
    by cases (auto dest: mem intro: server_step.intros serve_step.intros)
qed

lemma server_step_history:
  assumes "server_step E M (srv h) s" and "numbered h"
  shows "\<exists>h'. history_step E M h h' \<and> srv h' = s"
proof -
  have num: "\<exists>k. requests h k = Some f" if "f \<in># inflight (srv h)" for f
    using that flights_member [OF numbered_finite [OF assms(2)]] assms(2) by (auto simp: numbered_def)
  have ex: "\<exists>h'. history_step E M h h' \<and> srv h' = s" if "history_step E M h h'" "srv h' = s" for h'
    using that by blast
  from assms(1) show ?thesis
  proof cases
    case (accept c)
    then show ?thesis by (intro ex [OF history_step.accept [of E M h c]]) (cases h, simp)
  next
    case serve
    then show ?thesis
    proof cases
      case (direct c rsp g)
      with num obtain k where k: "requests h k = Some (Arrived c)" by blast
      show ?thesis by (rule ex [OF history_step.direct [OF k direct(3,4)]]) (cases h, simp add: direct(1))
    next
      case (check_known c i)
      with num obtain k where k: "requests h k = Some (Arrived c)" by blast
      show ?thesis by (rule ex [OF history_step.check_known [OF k check_known(3-5)]]) (cases h, simp add: check_known(1))
    next
      case (check_unknown c i)
      with num obtain k where k: "requests h k = Some (Arrived c)" by blast
      show ?thesis by (rule ex [OF history_step.check_unknown [OF k check_unknown(3-5)]]) (cases h, simp add: check_unknown(1))
    next
      case (refuse c rsp g)
      with num obtain k where k: "requests h k = Some (Checked c)" by blast
      show ?thesis by (rule ex [OF history_step.refuse [OF k refuse(3,4)]]) (cases h, simp add: refuse(1))
    next
      case (spawn c q)
      with num obtain k where k: "requests h k = Some (Checked c)" by blast
      show ?thesis by (rule ex [OF history_step.spawn [OF k spawn(3)]]) (cases h, simp add: spawn(1))
    next
      case (finish start c rsp g)
      with num obtain k where k: "requests h k = Some (Running start c)" by blast
      show ?thesis by (rule ex [OF history_step.finish [OF k finish(3)]]) (cases h, simp add: finish(1))
    qed
  next
    case (hang_up_early c)
    with num obtain k where k: "requests h k = Some (Arrived c)" by blast
    show ?thesis by (rule ex [OF history_step.hang_up_early [OF k]]) (cases h, simp add: hang_up_early(1))
  next
    case (hang_up_running start c rsp g)
    with num obtain k where k: "requests h k = Some (Running start c)" by blast
    show ?thesis by (rule ex [OF history_step.hang_up_running [OF k hang_up_running(3)]]) (cases h, simp add: hang_up_running(1))
  qed
qed

lemma history_new_numbered: "numbered (history_new M)"
  by (simp add: numbered_def history_new_def server_new_def)

lemma history_run_server:
  "history_run E M (history_new M) h \<Longrightarrow> numbered h \<and> server_run E M (server_new M) (srv h)"
proof (induction rule: rtranclp_induct)
  case base
  show ?case using history_new_numbered by (simp add: history_new_def)
next
  case (step h h')
  then show ?case
    using history_step_numbered history_step_server by (metis rtranclp.rtrancl_into_rtrancl)
qed

lemma server_run_history:
  "server_run E M (server_new M) s \<Longrightarrow> \<exists>h. history_run E M (history_new M) h \<and> srv h = s"
proof (induction rule: rtranclp_induct)
  case base
  show ?case by (intro exI [of _ "history_new M"]) (simp add: history_new_def)
next
  case (step s t)
  then obtain h where h: "history_run E M (history_new M) h" "srv h = s" by blast
  with server_step_history [of E M h t] history_run_server [OF h(1)] step(2) obtain h'
    where "history_step E M h h'" "srv h' = t" by blast
  with h(1) show ?case by (blast intro: rtranclp.rtrancl_into_rtrancl)
qed

section \<open>The sequential run\<close>

text \<open>
  The calls of an order, one after the other through the abstract API: the status of each
  and the sandboxes at the end. \<open>starts k\<close> says whether the process of request \<open>k\<close> starts.
\<close>

fun replay ::
  "(nat \<Rightarrow> bool) \<Rightarrow> (nat \<times> api_call \<times> uuid) list \<Rightarrow> (uuid \<rightharpoonup> string) \<Rightarrow> (nat \<times> nat) list \<times> (uuid \<rightharpoonup> string)" where
  "replay starts [] m = ([], m)"
| "replay starts ((k, c, drawn) # ops) m =
     (let (code, m') = spec_answer drawn (starts k) c m; (codes, m'') = replay starts ops m'
      in ((k, code) # codes, m''))"

lemma replay_append:
  "replay starts (xs @ [(k, c, drawn)]) m =
     (let (codes, m') = replay starts xs m; (code, m'') = spec_answer drawn (starts k) c m'
      in (codes @ [(k, code)], m''))"
  by (induction xs arbitrary: m) (auto simp: Let_def split: prod.splits)

definition precedes :: "'a \<Rightarrow> 'a \<Rightarrow> 'a list \<Rightarrow> bool" where
  "precedes a b xs = (\<exists>ys zs. xs = ys @ zs \<and> a \<in> set ys \<and> b \<in> set zs)"

lemma precedes_append: "precedes a b xs \<Longrightarrow> precedes a b (xs @ ys)"
  unfolding precedes_def by (metis append.assoc in_set_conv_decomp append_Cons)

lemma precedes_last: "a \<in> set xs \<Longrightarrow> precedes a b (xs @ [b])"
  unfolding precedes_def by (intro exI [of _ xs] exI [of _ "[b]"]) simp

text \<open>The status of a call whose sandbox was found.\<close>

fun found_status :: "api_call \<Rightarrow> bool \<Rightarrow> nat" where
  "found_status (Execute i b) starts = (if supported (eb_runtime b) \<and> starts then 200 else 400)"
| "found_status _ starts = (if starts then 200 else 400)"

lemma spec_answer_found:
  "two_phase c \<Longrightarrow> call_target c = Some i \<Longrightarrow> i \<in> dom m \<Longrightarrow>
     spec_answer drawn starts c m = (found_status c starts, m)"
  by (cases c) auto

lemma spec_answer_missing:
  "two_phase c \<Longrightarrow> call_target c = Some i \<Longrightarrow> i \<notin> dom m \<Longrightarrow> spec_answer drawn starts c m = (404, m)"
  by (cases c) (auto simp del: runtimes_dom)

lemma spec_answer_direct: "\<not> two_phase c \<Longrightarrow> spec_answer drawn a c m = spec_answer drawn b c m"
  by (cases c) auto

lemma finish_call_status:
  assumes "two_phase c" and "finish_call E start c g = (rsp, g')"
  shows "found_status c (rsp_status rsp = 200) = rsp_status rsp"
proof (cases c)
  case (Shell i b)
  with assms show ?thesis
    by (auto simp: finish_call_def await_shell_def run_process_def into_response_def split: sum.splits)
next
  case (Execute i b)
  with assms runtime_command_cases [of "eb_runtime b"] show ?thesis
    by (auto simp: finish_call_def await_code_def run_process_def into_response_def supported_def split: sum.splits)
qed (use assms in simp_all)

section \<open>The invariant\<close>

text \<open>The call of a request that has accessed the pool and is not yet answered.\<close>

fun past_check :: "flight \<Rightarrow> api_call option" where
  "past_check (Arrived c) = None"
| "past_check (Checked c) = Some c"
| "past_check (Running start c) = Some c"

definition waiting :: "'m history \<Rightarrow> nat \<Rightarrow> api_call option" where
  "waiting h k = Option.bind (requests h k) past_check"

text \<open>
  Which requests stand in the order: each at most once, with the call it was made with, and
  none that has not accessed the pool.
\<close>

definition entries_ok :: "'m history \<Rightarrow> bool" where
  "entries_ok h = (distinct (map fst (order h))
     \<and> (\<forall>(k, c, d) \<in> set (order h). k < length (invoked h) \<and> invoked h ! k = c)
     \<and> (\<forall>k c. requests h k = Some (Arrived c) \<longrightarrow> k \<notin> fst ` set (order h) \<and> invoked h ! k = c)
     \<and> (\<forall>k c. waiting h k = Some c \<longrightarrow> k \<in> fst ` set (order h)))"

text \<open>Replies: one for each request, in its place in time.\<close>

definition in_time :: "nat set \<Rightarrow> nat list \<Rightarrow> nat \<Rightarrow> nat \<Rightarrow> nat \<Rightarrow> bool" where
  "in_time opened ks now k n =
     (k \<notin> opened \<and> k < n \<and> n \<le> now \<and> k \<in> set ks \<and> (\<forall>j \<in> set ks. n \<le> j \<longrightarrow> precedes k j ks))"

definition replies_ok :: "'m history \<Rightarrow> bool" where
  "replies_ok h = (distinct (map fst (replies h))
     \<and> (\<forall>(k, rsp, n) \<in> set (replies h). in_time (dom (requests h)) (map fst (order h)) (length (invoked h)) k n))"

lemma in_time_accept: "in_time D ks now k n \<Longrightarrow> in_time (insert now D) ks (Suc now) k n"
  by (auto simp: in_time_def)

lemma in_time_keep: "in_time D ks now k n \<Longrightarrow> D' \<subseteq> D \<Longrightarrow> in_time D' ks now k n"
  by (auto simp: in_time_def)

lemma in_time_append: "in_time D ks now k n \<Longrightarrow> D' \<subseteq> D \<Longrightarrow> in_time D' (ks @ [j]) now k n"
  by (auto simp: in_time_def intro: precedes_append precedes_last)

lemma in_time_now: "k \<in> set ks \<Longrightarrow> \<forall>j \<in> set ks. j < now \<Longrightarrow> k \<notin> D \<Longrightarrow> in_time D ks now k now"
  by (auto simp: in_time_def)

text \<open>
  The sequential run gives the sandboxes of the server, the status of every reply when the
  processes start that were answered 200, and to a request that runs its process a status
  that is still open.
\<close>

definition codes_ok :: "('m \<Rightarrow> (uuid \<times> SandboxEntry) list) \<Rightarrow> (nat \<Rightarrow> bool) \<Rightarrow> 'm history \<Rightarrow> bool" where
  "codes_ok items starts h =
     (let (codes, m) = replay starts (order h) Map.empty in
       m = runtimes items (gw (srv h))
     \<and> (\<forall>k c. waiting h k = Some c \<longrightarrow> two_phase c \<and> (k, found_status c (starts k)) \<in> set codes)
     \<and> (\<forall>(k, rsp, n) \<in> set (replies h). starts k = (rsp_status rsp = 200) \<longrightarrow> (k, rsp_status rsp) \<in> set codes))"

lemma entry_now_fst [simp]: "fst (entry_now E k c s) = k"
  by (simp add: entry_now_def)

lemma history_step_entries:
  assumes "history_step E M h h'" and "numbered h" and "entries_ok h"
  shows "entries_ok h'"
proof -
  have below: "k < length (invoked h)" if "requests h k = Some f" for k f
    using assms(2) that by (auto simp: numbered_def)
  from assms(1) show ?thesis
  proof cases
    case (accept c)
    have "accepted (srv h) = length (invoked h)" using assms(2) by (simp add: numbered_def)
    with accept assms(3) below show ?thesis
      by (auto simp: entries_ok_def waiting_def nth_append less_Suc_eq split: if_splits)
  qed (use assms(3) below in \<open>auto simp: entries_ok_def waiting_def entry_now_def split: if_splits\<close>)
qed

lemma replies_ok_add:
  assumes "replies_ok h" and "requests h k = Some f" and "k \<in> set ks" and "\<forall>j \<in> set ks. j < length (invoked h)"
    and "\<And>j n. in_time (dom (requests h)) (map fst (order h)) (length (invoked h)) j n \<Longrightarrow>
      in_time (dom (requests h) - {k}) ks (length (invoked h)) j n"
    and "invoked h' = invoked h" "requests h' = (requests h)(k := None)" "map fst (order h') = ks"
    and "replies h' = (k, rsp, length (invoked h)) # replies h"
  shows "replies_ok h'"
proof -
  have "in_time (dom (requests h) - {k}) ks (length (invoked h)) k (length (invoked h))"
    using assms(3,4) by (intro in_time_now) auto
  moreover have "k \<notin> fst ` set (replies h)"
    using assms(1,2) by (auto simp: replies_ok_def in_time_def)
  ultimately show ?thesis using assms by (auto simp: replies_ok_def)
qed

lemma history_step_replies:
  assumes "history_step E M h h'" and "numbered h" and "entries_ok h" and "replies_ok h"
  shows "replies_ok h'"
proof -
  let ?ks = "map fst (order h)"
  have n: "accepted (srv h) = length (invoked h)" using assms(2) by (simp add: numbered_def)
  have below: "k < length (invoked h)" if "requests h k = Some f" for k f
    using assms(2) that by (auto simp: numbered_def)
  have old: "\<forall>j \<in> set ?ks. j < length (invoked h)" using assms(3) by (auto simp: entries_ok_def)
  from assms(1) show ?thesis
  proof cases
    case (accept c)
    with assms(4) n show ?thesis by (auto simp: replies_ok_def intro: in_time_accept)
  next
    case (direct k c rsp g)
    show ?thesis
      by (rule replies_ok_add [OF assms(4) direct(2), of "?ks @ [k]"])
        (use direct(1) n old below [OF direct(2)] in \<open>auto intro: in_time_append\<close>)
  next
    case (check_known k c i)
    with assms(4) show ?thesis
      by (auto simp: replies_ok_def insert_absorb domI intro: in_time_append)
  next
    case (check_unknown k c i)
    show ?thesis
      by (rule replies_ok_add [OF assms(4) check_unknown(2), of "?ks @ [k]"])
        (use check_unknown(1) n old below [OF check_unknown(2)] in \<open>auto intro: in_time_append\<close>)
  next
    case (refuse k c rsp g)
    with assms(3) have "k \<in> set ?ks" by (auto simp: entries_ok_def waiting_def)
    then show ?thesis
      by (rule replies_ok_add [OF assms(4) refuse(2) _ old]) (use refuse(1) n in \<open>auto intro: in_time_keep\<close>)
  next
    case (finish k start c rsp g)
    with assms(3) have "k \<in> set ?ks" by (auto simp: entries_ok_def waiting_def)
    then show ?thesis
      by (rule replies_ok_add [OF assms(4) finish(2) _ old]) (use finish(1) n in \<open>auto intro: in_time_keep\<close>)
  next
    case (spawn k c q)
    with assms(4) show ?thesis
      by (auto simp: replies_ok_def insert_absorb domI)
  qed (use assms(4) in \<open>auto simp: replies_ok_def intro: in_time_keep\<close>)
qed

lemma codes_ok_add:
  assumes "codes_ok items starts h"
    and "spec_answer drawn (starts k) c (runtimes items (gw (srv h))) = (code, runtimes items (gw (srv h')))"
    and "order h' = order h @ [(k, c, drawn)]"
    and "\<And>j f. waiting h' j = Some f \<Longrightarrow>
      waiting h j = Some f \<or> j = k \<and> two_phase f \<and> found_status f (starts k) = code"
    and "\<And>r. r \<in> set (replies h') \<Longrightarrow> r \<in> set (replies h) \<or> fst r = k \<and> rsp_status (fst (snd r)) = code"
  shows "codes_ok items starts h'"
proof -
  obtain codes m where r: "replay starts (order h) Map.empty = (codes, m)" by fastforce
  with assms(1,2,3) have "replay starts (order h') Map.empty = (codes @ [(k, code)], runtimes items (gw (srv h')))"
    by (simp add: replay_append codes_ok_def)
  then show ?thesis
    using assms(1,4,5) r by (fastforce simp: codes_ok_def)
qed

lemma codes_ok_keep:
  assumes "codes_ok items starts h" and "runtimes items (gw (srv h')) = runtimes items (gw (srv h))"
    and "order h' = order h"
    and "\<And>j f. waiting h' j = Some f \<Longrightarrow> waiting h j = Some f"
    and "\<And>k rsp n. (k, rsp, n) \<in> set (replies h') \<Longrightarrow> (k, rsp, n) \<notin> set (replies h) \<Longrightarrow>
      \<exists>f. waiting h k = Some f \<and> found_status f (rsp_status rsp = 200) = rsp_status rsp"
  shows "codes_ok items starts h'"
proof -
  obtain codes m where r: "replay starts (order h) Map.empty = (codes, m)" by fastforce
  have rs: "starts k = (rsp_status rsp = 200) \<longrightarrow> (k, rsp_status rsp) \<in> set codes"
    if "(k, rsp, n) \<in> set (replies h')" for k rsp n
  proof (cases "(k, rsp, n) \<in> set (replies h)")
    case True
    with assms(1) r show ?thesis by (auto simp: codes_ok_def)
  next
    case False
    from assms(5) [OF that False] obtain f where
      f: "waiting h k = Some f" "found_status f (rsp_status rsp = 200) = rsp_status rsp" by blast
    from f(1) have "(k, found_status f (starts k)) \<in> set codes" using assms(1) r by (auto simp: codes_ok_def)
    then show ?thesis using f(2) by (intro impI) simp
  qed
  have "two_phase f \<and> (k, found_status f (starts k)) \<in> set codes" if "waiting h' k = Some f" for k f
    using assms(1) assms(4) [OF that] r by (auto simp: codes_ok_def)
  moreover have "m = runtimes items (gw (srv h'))" using assms(1,2) r by (simp add: codes_ok_def)
  ultimately show ?thesis using r rs by (simp add: codes_ok_def assms(3) case_prod_unfold) (metis prod.collapse)
qed

context index_map
begin

lemma history_step_codes:
  assumes "history_step E M h h'" and "\<not> poisoned (pool (gw (srv h)))" and "codes_ok items starts h"
  shows "codes_ok items starts h'"
  using assms(1)
proof cases
  case (accept c)
  then show ?thesis by (intro codes_ok_keep [OF assms(3)]) (auto simp: waiting_def split: if_splits)
next
  case (direct k c rsp g)
  have "spec_answer (gw_drawn E (trace (gw (srv h)))) (starts k) c (runtimes items (gw (srv h)))
      = (rsp_status rsp, runtimes items g)"
    using answer_refines [OF assms(2), of E c] direct(4) spec_answer_direct [OF direct(3)] by fastforce
  with direct show ?thesis
    by (intro codes_ok_add [OF assms(3)]) (auto simp: waiting_def entry_now_def split: if_splits)
next
  case (check_known k c i)
  then have "i \<in> dom (runtimes items (gw (srv h)))"
    using contains_spec [OF assms(2), of i] by simp
  note spec = spec_answer_found [OF check_known(3,4) this, of "gw_drawn E (trace (gw (srv h)))" "starts k"]
  show ?thesis
    by (rule codes_ok_add [OF assms(3), of _ k c])
      (use check_known(1,3) spec in \<open>auto simp: waiting_def entry_now_def simp del: runtimes_dom split: if_splits\<close>)
next
  case (check_unknown k c i)
  then have "i \<notin> dom (runtimes items (gw (srv h)))"
    using contains_spec [OF assms(2), of i] by simp
  note spec = spec_answer_missing [OF check_unknown(3,4) this, of "gw_drawn E (trace (gw (srv h)))" "starts k"]
  show ?thesis
    by (rule codes_ok_add [OF assms(3), of _ k c])
      (use check_unknown(1,3) spec in \<open>auto simp: waiting_def entry_now_def not_found_response_def into_response_def
         simp del: runtimes_dom split: if_splits\<close>)
next
  case (refuse k c rsp g)
  then have w: "waiting h k = Some c" by (simp add: waiting_def)
  then have "two_phase c" using assms(3) by (auto simp: codes_ok_def split: prod.splits)
  from finish_call_status [OF this refuse(4)] finish_call_runtimes [of items E "instant_now_of E (gw (srv h))" c "gw (srv h)"]
    refuse w show ?thesis
    by (intro codes_ok_keep [OF assms(3)]) (auto simp: waiting_def split: if_splits)
next
  case (spawn k c q)
  then show ?thesis by (intro codes_ok_keep [OF assms(3)]) (auto simp: waiting_def split: if_splits)
next
  case (finish k start c rsp g)
  then have w: "waiting h k = Some c" by (simp add: waiting_def)
  then have "two_phase c" using assms(3) by (auto simp: codes_ok_def split: prod.splits)
  from finish_call_status [OF this finish(3)] finish_call_runtimes [of items E start c "gw (srv h)"] finish w show ?thesis
    by (intro codes_ok_keep [OF assms(3)]) (auto simp: waiting_def split: if_splits)
next
  case (hang_up_early k c)
  then show ?thesis by (intro codes_ok_keep [OF assms(3)]) (auto simp: waiting_def split: if_splits)
next
  case (hang_up_running k start c rsp g)
  with finish_call_runtimes [of items E start c "gw (srv h)"] show ?thesis
    by (intro codes_ok_keep [OF assms(3)]) (auto simp: waiting_def split: if_splits)
qed

lemma history_run_ok:
  "history_run E M (history_new M) h \<Longrightarrow> entries_ok h \<and> replies_ok h \<and> (\<forall>starts. codes_ok items starts h)"
proof (induction rule: rtranclp_induct)
  case base
  have "runtimes items (gateway_new M) = Map.empty" using new_spec by (simp add: gateway_new_def runtimes_def)
  then show ?case
    by (simp add: entries_ok_def replies_ok_def codes_ok_def waiting_def history_new_def server_new_def)
next
  case (step h h')
  from history_run_server [OF step(1)] have h: "numbered h" "server_ok items (srv h)"
    using server_run_ok [OF _ server_new_ok] by blast+
  from h(2) have "\<not> poisoned (pool (gw (srv h)))" by (simp add: server_ok_def)
  with step.IH history_step_entries [OF step(2) h(1)] history_step_replies [OF step(2) h(1)]
    history_step_codes [OF step(2)] show ?case by blast
qed

end

section \<open>Linearizability\<close>

definition linearizes ::
  "('m \<Rightarrow> (uuid \<times> SandboxEntry) list) \<Rightarrow> (nat \<Rightarrow> bool) \<Rightarrow> 'm history \<Rightarrow> bool" where
  "linearizes items starts h =
     (let (codes, m) = replay starts (order h) Map.empty in
       m = runtimes items (gw (srv h)) \<and> (\<forall>(k, rsp, n) \<in> set (replies h). (k, rsp_status rsp) \<in> set codes))"

context index_map
begin

lemma history_linearizes:
  assumes "history_run E M (history_new M) h"
  shows "\<exists>starts. linearizes items starts h"
proof
  let ?starts = "\<lambda>k. \<exists>rsp n. (k, rsp, n) \<in> set (replies h) \<and> rsp_status rsp = 200"
  have "distinct (map fst (replies h))" using history_run_ok [OF assms] by (simp add: replies_ok_def)
  then have "?starts k = (rsp_status rsp = 200)" if "(k, rsp, n) \<in> set (replies h)" for k rsp n
    using that by (metis (no_types, lifting) eq_key_imp_eq_value fst_conv)
  moreover have "codes_ok items ?starts h" using history_run_ok [OF assms] by blast
  ultimately show "linearizes items ?starts h"
    by (auto simp: codes_ok_def linearizes_def split: prod.splits)
qed

end

text \<open>
  C7. The gateway is linearizable. Every run of the concurrent server has a history, and in
  every history the requests can be put in an order, each with the call it was made with
  and none twice, such that the abstract API, given the calls one after the other in that
  order, ends with the registered sandboxes of the server and gives each request that was
  answered the status of its answer; and a request answered before another was accepted
  stands before it.
\<close>

theorem gateway_linearizable:
  assumes "index_map M items"
  shows "(\<forall>s. server_run E M (server_new M) s \<longrightarrow> (\<exists>h. history_run E M (history_new M) h \<and> srv h = s))
   \<and> (\<forall>h. history_run E M (history_new M) h \<longrightarrow>
        server_run E M (server_new M) (srv h) \<and> answered (srv h) = map (\<lambda>(k, rsp, n). rsp) (replies h)
      \<and> distinct (map fst (order h)) \<and> (\<forall>(k, c, d) \<in> set (order h). k < length (invoked h) \<and> invoked h ! k = c)
      \<and> (\<exists>starts. linearizes items starts h)
      \<and> (\<forall>(k, rsp, n) \<in> set (replies h). \<forall>j \<in> set (map fst (order h)).
           n \<le> j \<longrightarrow> precedes k j (map fst (order h))))"
proof (intro conjI allI impI)
  show "\<exists>h. history_run E M (history_new M) h \<and> srv h = s" if "server_run E M (server_new M) s" for s
    using that by (rule server_run_history)
next
  fix h assume h: "history_run E M (history_new M) h"
  from history_run_server [OF this] show "server_run E M (server_new M) (srv h)"
    "answered (srv h) = map (\<lambda>(k, rsp, n). rsp) (replies h)" by (simp_all add: numbered_def)
  from index_map.history_run_ok [OF assms h] show "distinct (map fst (order h))"
    "\<forall>(k, c, d) \<in> set (order h). k < length (invoked h) \<and> invoked h ! k = c"
    by (simp_all add: entries_ok_def)
  from index_map.history_linearizes [OF assms h] show "\<exists>starts. linearizes items starts h" .
  from index_map.history_run_ok [OF assms h] show "\<forall>(k, rsp, n) \<in> set (replies h). \<forall>j \<in> set (map fst (order h)).
      n \<le> j \<longrightarrow> precedes k j (map fst (order h))"
    by (fastforce simp: replies_ok_def in_time_def)
qed

theorem gateway_linearizable_witness:
  "\<exists>h starts. history_run demo_env alist_map (history_new alist_map) h \<and> linearizes id starts h
     \<and> map (\<lambda>(k, rsp, n). rsp) (replies h) = [respond 201 (CreateSandboxResponse 0)]"
proof -
  have "gw (server_new alist_map) = gateway_new alist_map" "answered (server_new alist_map) = []"
    by (simp_all add: server_new_def)
  then obtain s where "server_run demo_env alist_map (server_new alist_map) s"
    "answered s = [respond 201 (CreateSandboxResponse 0)]"
    using answer_is_run [of demo_env alist_map demo_create "server_new alist_map"] demo_answers(1) by metis
  moreover from this(1) obtain h where "history_run demo_env alist_map (history_new alist_map) h" "srv h = s"
    using gateway_linearizable [OF alist_map_index_map, of demo_env] by blast
  moreover from this(1) obtain starts where
    "answered (srv h) = map (\<lambda>(k, rsp, n). rsp) (replies h)" "linearizes id starts h"
    using gateway_linearizable [OF alist_map_index_map, of demo_env] by blast
  ultimately show ?thesis by metis
qed

end
