(* ===== verification/Gateway_Api.thy ===== *)
theory Gateway_Api
  imports Gateway_Serde Gateway_Concurrency Serde_Reference
begin

text \<open>
  The gateway as a client sees it: JSON texts in, JSON texts out. The locale
  \<open>json_client\<close> holds what a client and the gateway rely on: both use the same JSON
  text and the same text of an identifier, in documents, in messages and in paths, and
  axum's \<open>Json\<close> extractor reads a body by the derived \<open>Deserialize\<close> of its type and answers 422
  to other documents. It is interpreted by the reference texts and the extractors of
  \<open>Gateway_Serde\<close>.
\<close>

section \<open>A client\<close>

text \<open>A request with a JSON body, and one without a body.\<close>

definition json_post :: "(json \<Rightarrow> string) \<Rightarrow> string \<Rightarrow> string list \<Rightarrow> json \<Rightarrow> request" where
  "json_post to_text t path j =
     \<lparr>rq_method = Post, rq_path = path, rq_content_type = Some t, rq_body = as_bytes (to_text j)\<rparr>"

definition plain_delete :: "string list \<Rightarrow> request" where
  "plain_delete path = \<lparr>rq_method = Delete, rq_path = path, rq_content_type = None, rq_body = []\<rparr>"

text \<open>The text of a reply, and the member of a text that is a string.\<close>

definition reply_text :: "(json \<Rightarrow> string) \<Rightarrow> leaf_texts \<Rightarrow> response \<Rightarrow> string option" where
  "reply_text to_text L rsp = map_option to_text (reply_json L (rsp_body rsp))"

definition string_member :: "(string \<Rightarrow> json option) \<Rightarrow> string \<Rightarrow> string option \<Rightarrow> string option" where
  "string_member from_text n t =
     Option.bind (Option.bind t from_text) (\<lambda>j. case j of
       JObj kvs \<Rightarrow> Option.bind (map_of kvs n) de_string | _ \<Rightarrow> None)"

text \<open>\<open>fits j\<close>: the text of \<open>j\<close> is valid UTF-8 and not too long for a body.\<close>

locale json_client = serde_json to_text from_text + index_map M items
  for to_text :: "json \<Rightarrow> string" and from_text and M :: "'m index_map_ops" and items +
  fixes E :: gw_env and L :: leaf_texts and json_mime :: string and fits :: "json \<Rightarrow> bool"
  assumes reads_create: "fits j \<Longrightarrow> de_create E (Some json_mime) (as_bytes (to_text j)) =
      (case CreateSandboxBody_deserialize j of None \<Rightarrow> Err 422 | Some b \<Rightarrow> Ok b)"
    and reads_shell: "fits j \<Longrightarrow> de_shell E (Some json_mime) (as_bytes (to_text j)) =
      (case ShellBody_deserialize j of None \<Rightarrow> Err 422 | Some b \<Rightarrow> Ok b)"
    and reads_execute: "fits j \<Longrightarrow> de_execute E (Some json_mime) (as_bytes (to_text j)) =
      (case ExecuteBody_deserialize j of None \<Rightarrow> Err 422 | Some b \<Rightarrow> Ok b)"
    and names_ids: "gw_fmt_uuid E = uuid_text L"
    and reads_ids: "parse_uuid E (uuid_text L u) = Ok u"
    and ids_not_empty: "uuid_text L u \<noteq> []"

text \<open>The bodies as a client writes them.\<close>

abbreviation create_doc :: "string \<Rightarrow> json" where
  "create_doc rt \<equiv> JObj [(''runtime'', JStr rt)]"

abbreviation shell_doc :: "string \<Rightarrow> json" where
  "shell_doc cmd \<equiv> JObj [(''command'', JStr cmd)]"

lemma docs_read:
  "CreateSandboxBody_deserialize (create_doc rt) = Some \<lparr>cb_runtime = rt\<rparr>"
  "ShellBody_deserialize (shell_doc cmd) = Some \<lparr>sb_command = cmd\<rparr>"
  by (simp_all add: CreateSandboxBody_deserialize_def ShellBody_deserialize_def)

lemmas request_routing = extract_call_def find_route_def route_table_def Let_def

context json_client
begin

abbreviation served :: "request \<Rightarrow> 'm gateway \<Rightarrow> (response \<times> 'm gateway) option" where
  "served \<equiv> serve E M"

lemma extract_create:
  assumes "fits (create_doc rt)"
  shows "extract_call E (json_post to_text json_mime [''v1'', ''sandbox''] (create_doc rt))
    = Ok (Create \<lparr>cb_runtime = rt\<rparr>)"
  using reads_create [OF assms] by (simp add: request_routing json_post_def docs_read)

lemma extract_shell:
  assumes "fits (shell_doc cmd)"
  shows "extract_call E
      (json_post to_text json_mime [''v1'', ''sandbox'', uuid_text L i, ''shell''] (shell_doc cmd))
    = Ok (Shell i \<lparr>sb_command = cmd\<rparr>)"
  using reads_shell [OF assms]
  by (simp add: request_routing json_post_def docs_read reads_ids ids_not_empty)

lemma extract_delete:
  "extract_call E (plain_delete [''v1'', ''sandbox'', uuid_text L i]) = Ok (Destroy i)"
  by (simp add: request_routing plain_delete_def reads_ids ids_not_empty)

lemma create_served:
  assumes "\<not> poisoned (pool g)" and "supported rt" and "fits (create_doc rt)"
  shows "\<exists>g1. served (json_post to_text json_mime [''v1'', ''sandbox''] (create_doc rt)) g
      = Some (respond 201 (CreateSandboxResponse (gw_drawn E (trace g))), g1)
    \<and> \<not> poisoned (pool g1) \<and> runtimes items g1 = (runtimes items g)(gw_drawn E (trace g) \<mapsto> rt)"
  using create_cases [OF assms(1), of "\<lparr>cb_runtime = rt\<rparr>" E] assms(2)
  by (auto simp: serve_def extract_create [OF assms(3)] render_def runtimes_upd)

lemma shell_served:
  assumes "\<not> poisoned (pool g)" and "i \<in> dom (runtimes items g)" and "fits (shell_doc cmd)"
  shows "\<exists>rsp g'. served (json_post to_text json_mime [''v1'', ''sandbox'', uuid_text L i, ''shell''] (shell_doc cmd)) g
      = Some (rsp, g') \<and> pool g' = pool g \<and> (case process_result E (trace g) ''sh'' [''-c'', cmd] of
        Inl e \<Rightarrow> rsp = respond 400 (ErrorBody (''invalid request: failed to spawn shell: '' @ e))
      | Inr out \<Rightarrow> \<exists>t. rsp = respond 200 (ShellResultBody (shell_result E (gw_instant E (trace g)) t out)))"
  using shell_known [OF assms(1,2), of E "\<lparr>sb_command = cmd\<rparr>"]
  by (auto simp: serve_def extract_shell [OF assms(3)] render_def run_shell_cases into_response_def split: sum.split)

lemma delete_served:
  assumes "\<not> poisoned (pool g)" and "i \<in> dom (runtimes items g)"
  shows "\<exists>g'. served (plain_delete [''v1'', ''sandbox'', uuid_text L i]) g = Some (respond 204 NoBody, g')
    \<and> \<not> poisoned (pool g') \<and> runtimes items g' = (runtimes items g)(i := None)"
  using destroy_cases [OF assms(1), of i] assms(2)
  by (auto simp: serve_def extract_delete render_def simp del: runtimes_dom)

lemma shell_refused:
  assumes "\<not> poisoned (pool g)" and "i \<notin> dom (runtimes items g)" and "fits (shell_doc cmd)"
  shows "served (json_post to_text json_mime [''v1'', ''sandbox'', uuid_text L i, ''shell''] (shell_doc cmd)) g
    = Some (respond 404 (ErrorBody (''sandbox not found: '' @ uuid_text L i)), g)"
  using shell_unknown [OF assms(1,2), of E "\<lparr>sb_command = cmd\<rparr>"]
  by (simp add: serve_def extract_shell [OF assms(3)] render_def into_response_def names_ids)

text \<open>A document that is no body of its endpoint is answered 422 and changes nothing.\<close>

lemma wrong_document:
  assumes "fits j"
  shows "CreateSandboxBody_deserialize j = None \<Longrightarrow>
      served (json_post to_text json_mime [''v1'', ''sandbox''] j) g = Some (respond 422 RejectionBody, g)"
    and "ShellBody_deserialize j = None \<Longrightarrow>
      served (json_post to_text json_mime [''v1'', ''sandbox'', uuid_text L i, ''shell''] j) g = Some (respond 422 RejectionBody, g)"
    and "ExecuteBody_deserialize j = None \<Longrightarrow>
      served (json_post to_text json_mime [''v1'', ''sandbox'', uuid_text L i, ''execute''] j) g = Some (respond 422 RejectionBody, g)"
  using assms
  by (simp_all add: serve_def request_routing json_post_def reads_create reads_shell reads_execute reads_ids ids_not_empty)

lemma created_id_text:
  "string_member from_text ''id'' (reply_text to_text L (respond 201 (CreateSandboxResponse i))) = Some (uuid_text L i)"
  by (simp add: string_member_def reply_text_def ser_uuid_def text_roundtrip)

lemma error_text: "string_member from_text ''error'' (reply_text to_text L (respond code (ErrorBody msg))) = Some msg"
  by (simp add: string_member_def reply_text_def text_roundtrip)

end

section \<open>A session\<close>

text \<open>The document a client reads when its command was run.\<close>

definition result_document :: "process_output \<Rightarrow> nat \<Rightarrow> json" where
  "result_document out ms =
     JObj [(''success'', JBool (status_code out = Some 0)), (''stdout'', JStr (from_utf8_lossy (proc_stdout out))),
           (''stderr'', JStr (from_utf8_lossy (proc_stderr out))),
           (''exit_code'', JNum (sint (case status_code out of Some c \<Rightarrow> c | None \<Rightarrow> - 1))),
           (''execution_time_ms'', JNum (int ms))]"

lemma shell_result_document:
  "\<exists>ms. reply_json L (ShellResultBody (shell_result E start t out)) = Some (result_document out ms)"
  by (auto simp: shell_result_def ShellResult_serialize_def result_document_def)

text \<open>
  C21. A whole session in JSON. A client posts a runtime, reads the identifier from the text
  of the reply and uses that text in the paths of its next requests: its command is run and
  answered with the document of its output (or 400 when no process starts), the sandbox is
  deleted with 204, and the same command is then answered 404 with the identifier in the
  message; all other sandboxes are what they were.
\<close>

theorem json_session:
  assumes "json_client to_text from_text M items E L t fits" and "\<not> poisoned (pool g)" and "supported rt"
    and "fits (create_doc rt)" and "fits (shell_doc cmd)"
  shows "\<exists>rsp1 g1 s rsp2 g2 rsp3 g3 rsp4.
     serve E M (json_post to_text t [''v1'', ''sandbox''] (create_doc rt)) g = Some (rsp1, g1)
   \<and> rsp_status rsp1 = 201 \<and> string_member from_text ''id'' (reply_text to_text L rsp1) = Some s
   \<and> serve E M (json_post to_text t [''v1'', ''sandbox'', s, ''shell''] (shell_doc cmd)) g1 = Some (rsp2, g2)
   \<and> (case process_result E (trace g1) ''sh'' [''-c'', cmd] of
        Inl e \<Rightarrow> rsp_status rsp2 = 400 \<and> string_member from_text ''error'' (reply_text to_text L rsp2)
                  = Some (''invalid request: failed to spawn shell: '' @ e)
      | Inr out \<Rightarrow> rsp_status rsp2 = 200 \<and> (\<exists>ms. reply_json L (rsp_body rsp2) = Some (result_document out ms)))
   \<and> serve E M (plain_delete [''v1'', ''sandbox'', s]) g2 = Some (rsp3, g3) \<and> rsp_status rsp3 = 204
   \<and> serve E M (json_post to_text t [''v1'', ''sandbox'', s, ''shell''] (shell_doc cmd)) g3 = Some (rsp4, g3)
   \<and> rsp_status rsp4 = 404
   \<and> string_member from_text ''error'' (reply_text to_text L rsp4) = Some (''sandbox not found: '' @ s)
   \<and> (\<forall>j. j \<noteq> gw_drawn E (trace g) \<longrightarrow> runtimes items g3 j = runtimes items g j)"
proof -
  note C = assms(1)
  define i where "i = gw_drawn E (trace g)"
  obtain g1 where g1: "serve E M (json_post to_text t [''v1'', ''sandbox''] (create_doc rt)) g
      = Some (respond 201 (CreateSandboxResponse i), g1)"
    "\<not> poisoned (pool g1)" "runtimes items g1 = (runtimes items g)(i \<mapsto> rt)"
    using json_client.create_served [OF C assms(2-4)] by (auto simp: i_def)
  then have known: "i \<in> dom (runtimes items g1)" by (simp del: runtimes_dom)
  obtain rsp2 g2 where g2: "serve E M
      (json_post to_text t [''v1'', ''sandbox'', uuid_text L i, ''shell''] (shell_doc cmd)) g1 = Some (rsp2, g2)"
    "pool g2 = pool g1" and ran: "case process_result E (trace g1) ''sh'' [''-c'', cmd] of
        Inl e \<Rightarrow> rsp2 = respond 400 (ErrorBody (''invalid request: failed to spawn shell: '' @ e))
      | Inr out \<Rightarrow> \<exists>t. rsp2 = respond 200 (ShellResultBody (shell_result E (gw_instant E (trace g1)) t out))"
    using json_client.shell_served [OF C g1(2) known assms(5)] by blast
  have same: "runtimes items g2 = runtimes items g1" "\<not> poisoned (pool g2)"
    using g1(2) g2(2) by (simp_all add: runtimes_def)
  obtain g3 where g3: "serve E M (plain_delete [''v1'', ''sandbox'', uuid_text L i]) g2
      = Some (respond 204 NoBody, g3)" "\<not> poisoned (pool g3)" "runtimes items g3 = (runtimes items g2)(i := None)"
    using json_client.delete_served [OF C same(2), of i] known same(1) by auto
  then have gone: "i \<notin> dom (runtimes items g3)" by (simp add: dom_def del: runtimes_dom)
  note r4 = json_client.shell_refused [OF C g3(2) gone assms(5)]
  have document: "case process_result E (trace g1) ''sh'' [''-c'', cmd] of
        Inl e \<Rightarrow> rsp_status rsp2 = 400 \<and> string_member from_text ''error'' (reply_text to_text L rsp2)
                  = Some (''invalid request: failed to spawn shell: '' @ e)
      | Inr out \<Rightarrow> rsp_status rsp2 = 200 \<and> (\<exists>ms. reply_json L (rsp_body rsp2) = Some (result_document out ms))"
    using ran json_client.error_text [OF C] shell_result_document by (auto split: sum.splits)
  show ?thesis
    by (intro exI conjI, rule g1(1), simp, rule json_client.created_id_text [OF C], rule g2(1), rule document,
        rule g3(1), simp, rule r4, simp, rule json_client.error_text [OF C])
      (simp add: g1(3) same(1) g3(3) flip: i_def)
qed

text \<open>
  The reference texts and extractors: a document that is printed in valid UTF-8 and within
  the limit is read back and handed to \<open>Deserialize\<close>.
\<close>

definition sendable :: "json_input \<Rightarrow> (json \<Rightarrow> string) \<Rightarrow> json \<Rightarrow> bool" where
  "sendable J to_text j =
     (json_ok j \<and> json_depth j < 128 \<and> valid_utf8 (as_bytes (to_text j)) \<and> length (to_text j) \<le> body_limit J)"

lemma json_extractor_sendable:
  assumes "sendable J to_text j" and "serde_json to_text (document J)" and "json_type J t"
  shows "json_extractor J de (Some t) (as_bytes (to_text j)) = (case de j of None \<Rightarrow> Err 422 | Some b \<Rightarrow> Ok b)"
  using assms serde_json.text_roundtrip [OF assms(2), of j]
  by (intro json_extractor_document) (simp_all add: sendable_def from_utf8_def)

definition session_env :: gw_env where
  "session_env = with_json_bodies axum_json (demo_env\<lparr>gw_fmt_uuid := uuid_hyphenated,
     parse_uuid := (\<lambda>s. case uuid_of_hyphenated s of Some u \<Rightarrow> Inr u | None \<Rightarrow> Inl 400)\<rparr>)"

interpretation reference_client: json_client json_text json_read alist_map id session_env reference_leaves
  "''application/json''" "sendable axum_json json_text"
proof unfold_locales
  have "length (uuid_hyphenated u) = 36" for u by (simp add: uuid_hyphenated_def Let_def)
  then show "uuid_text reference_leaves u \<noteq> []" for u
    by (metis reference_leaves_def leaf_texts.select_convs(1) list.size(3) zero_neq_numeral)
  have "serde_json json_text (document axum_json)" "json_type axum_json ''application/json''"
    using compact.serde_json_axioms by (simp_all add: axum_json_def)
  note read = json_extractor_sendable [OF _ this]
  fix j assume j: "sendable axum_json json_text j"
  show "de_create session_env (Some ''application/json'') (as_bytes (json_text j)) =
      (case CreateSandboxBody_deserialize j of None \<Rightarrow> Err 422 | Some b \<Rightarrow> Ok b)"
    "de_shell session_env (Some ''application/json'') (as_bytes (json_text j)) =
      (case ShellBody_deserialize j of None \<Rightarrow> Err 422 | Some b \<Rightarrow> Ok b)"
    "de_execute session_env (Some ''application/json'') (as_bytes (json_text j)) =
      (case ExecuteBody_deserialize j of None \<Rightarrow> Err 422 | Some b \<Rightarrow> Ok b)"
    by (simp_all add: session_env_def with_json_bodies_def read [OF j])
qed (simp_all add: session_env_def with_json_bodies_def reference_leaves_def uuid_of_hyphenated_text)

lemma session_documents:
  "sendable axum_json json_text (create_doc ''node'')" "sendable axum_json json_text (shell_doc ''ls'')"
proof -
  have "valid_utf8 (as_bytes (json_text (create_doc ''node'')))" "length (json_text (create_doc ''node'')) = 18"
    "valid_utf8 (as_bytes (json_text (shell_doc ''ls'')))" "length (json_text (shell_doc ''ls'')) = 16"
    by code_simp+
  then show "sendable axum_json json_text (create_doc ''node'')" "sendable axum_json json_text (shell_doc ''ls'')"
    by (simp_all add: sendable_def axum_json_def del: json_text.simps)
qed

theorem json_session_witness:
  "\<exists>rsp1 g1 s rsp2 g2.
     serve session_env alist_map
       (json_post json_text ''application/json'' [''v1'', ''sandbox''] (create_doc ''node'')) (gateway_new alist_map)
       = Some (rsp1, g1)
   \<and> rsp_status rsp1 = 201 \<and> string_member json_read ''id'' (reply_text json_text reference_leaves rsp1) = Some s
   \<and> serve session_env alist_map
       (json_post json_text ''application/json'' [''v1'', ''sandbox'', s, ''shell''] (shell_doc ''ls'')) g1
       = Some (rsp2, g2)
   \<and> rsp_status rsp2 = 200"
proof -
  have fresh: "\<not> poisoned (pool (gateway_new alist_map))"
    using index_map.gateway_new_ok [OF alist_map_index_map] by (simp add: gateway_ok_def)
  have "supported ''node''" by (simp add: supported_def)
  note session = json_session [OF reference_client.json_client_axioms fresh this session_documents]
  have ran: "process_result session_env tr bin args = Inr demo_output" for tr bin args
    by (simp add: session_env_def with_json_bodies_def demo_env_def)
  from session show ?thesis unfolding ran sum.case by blast
qed

end
