(* ===== verification/Spec2Isabelle.thy ===== *)
theory Spec2Isabelle
  imports Executor_Tests Gateway_Tests Integration_Tests Backend_Interleaving Gateway_Linearization Gateway_Api
begin

text \<open>
  A verification development for Apeiron/Forge, a fabric that runs "blocks" in Firecracker
  microVMs and records the hash of their output. All paths below are under \<open>src/\<close>.

  \<^bold>\<open>The program.\<close> \<open>forge-core\<close> holds the data: identifiers, trust scores, blocks and
  their manifests, execution records. \<open>forge-executor\<close> runs blocks: \<open>runner.rs\<close> turns a
  block into a shell command, has a backend run it in a VM and records the SHA-256 of its
  output; \<open>backend.rs\<close> is the trait of such backends; \<open>firecracker.rs\<close> is the one backend,
  which starts Firecracker processes, configures them over HTTP on a Unix socket
  (\<open>unix_client.rs\<close>) and reads the guest's framed, base64-encoded output from the serial
  console; \<open>orchestrator.rs\<close> keeps a registry of running VMs. \<open>forge-gateway\<close> is an HTTP
  service that registers sandboxes (\<open>pool.rs\<close>) and runs commands for them (\<open>routes.rs\<close>); at
  this commit it runs them as local processes and does not use the executor.

  \<^bold>\<open>The theories.\<close>
  \<^item> \<open>Forge_Prelude\<close>, \<open>Rust_Std\<close>, \<open>Rust_Text\<close>: machine types, \<open>Result\<close>, byte strings, and
    what the sources use of Rust's standard library: \<open>windows\<close>/\<open>position\<close>, number formatting,
    \<open>parse::<i32>\<close> with checked 32-bit arithmetic, UTF-8 validation and lossy decoding, \<open>trim\<close>.
    The locale \<open>draining\<close> holds for step relations that use up a finite amount of work; it
    is interpreted for the calls of the orchestrator and for the requests of the gateway.
  \<^item> \<open>Forge_Ids\<close> (\<open>forge-core/src/id.rs\<close>), \<open>Forge_Trust\<close> (\<open>trust.rs\<close>, \<open>error.rs\<close>; doubles
    are 64-bit words with their IEEE reading), \<open>Rust_Float\<close> (\<open>Display\<close> of a double with the
    shortest digits, and the texts of \<open>error.rs\<close>), \<open>Forge_Blocks\<close> (\<open>block.rs\<close>, \<open>execution.rs\<close>,
    \<open>examples.rs\<close>).
  \<^item> \<open>Json\<close>: JSON documents, with the locale \<open>serde_json\<close> for the text of the crate of that
    name, interpreted by a printer of the compact format and a reader; \<open>Forge_Serde\<close>: the
    implementations of \<open>Serialize\<close> and \<open>Deserialize\<close> derived for the types of \<open>forge-core\<close> and of
    \<open>config.rs\<close>, by serde's rules for structs, newtypes and enums, with the locale
    \<open>leaf_formats\<close> for the texts of UUIDs, timestamps and doubles, which \<open>Serde_Reference\<close>
    interprets; \<open>Gateway_Serde\<close>: the bodies of \<open>routes.rs\<close>, and extractors of such bodies as a
    reference for axum's; \<open>Serde_Properties\<close>.
  \<^item> \<open>Serial_Output\<close>: \<open>parse_execution_output\<close> and the two extraction functions of
    \<open>firecracker.rs\<close>, the stream a guest prints, and the locale \<open>base64_engine\<close> for the
    \<open>base64\<close> crate; \<open>Base64_Reference\<close> interprets it by RFC 4648.
  \<^item> \<open>Vm_Types\<close> (\<open>config.rs\<close>, \<open>error.rs\<close>, \<open>handle.rs\<close>), \<open>Host\<close>: the outside world. Every
    request to the operating system, to Firecracker, to the clock or to a third-party crate
    is answered by a record \<open>env\<close>, as a function of the history of earlier requests, and
    logged as an event. Effectful code maps a history to a result and a longer history;
    \<open>try_bind\<close> is \<open>.await?\<close>.
  \<^item> \<open>Unix_Client\<close> (\<open>unix_client.rs\<close>), \<open>Exec_Logic\<close>: a small logic of triples for such code
    and the locale \<open>history_view\<close>, by which steps that neither send requests nor touch
    processes are skipped.
  \<^item> \<open>Firecracker\<close> (\<open>firecracker.rs\<close>), \<open>Vmm_Backend\<close> (the trait of \<open>backend.rs\<close> as a record
    of operations and its contract as the locale \<open>vmm\<close>, discharged for Firecracker in every
    environment), \<open>Backend_Facts\<close>: errors, snapshots, search of the binary;
    \<open>Backend_Bounds\<close>: every moment of a call and its cancellation there, with the locale
    \<open>event_cost\<close> that bounds processes, requests and time slept alike;
    \<open>Backend_Interleaving\<close>: calls whose events are merged in any order.
  \<^item> \<open>Runner\<close> (\<open>runner.rs\<close>), with the locale \<open>sha256_hasher\<close> for the \<open>sha2\<close> crate;
    \<open>Sha256_Reference\<close> interprets it by FIPS 180-4 and \<open>Sha256_Evaluation\<close> computes known digests.
  \<^item> \<open>Orchestrator\<close> (\<open>orchestrator.rs\<close>): whole calls, and a step relation in which any
    number of calls interleave at the registry's mutex and may be cancelled there or at any
    moment of a backend call.
  \<^item> \<open>Sandbox_Pool\<close> (\<open>pool.rs\<close>), with the locale \<open>index_map\<close> for the \<open>indexmap\<close> crate and
    the locale \<open>sandbox_registry\<close> it gives; \<open>Gateway\<close> (\<open>error.rs\<close>, \<open>routes.rs\<close>): errors,
    handlers, processes, the route table, and the specification of the API;
    \<open>Gateway_Concurrency\<close>: a step relation in which any number of requests interleave
    between the check of the pool, the start of the process and its end, and clients may
    hang up, and the server process of \<open>main.rs\<close>; \<open>Gateway_Linearization\<close>: its runs as
    histories of numbered requests, and the order in which they are sequential;
    \<open>Gateway_Api\<close>: requests and replies as JSON texts, with the locale \<open>json_client\<close> for what
    a client, axum's extractors and the \<open>uuid\<close> crate agree on.
  \<^item> \<open>Simulation\<close>: a concrete world in which everything succeeds, for instances.
  \<^item> \<open>Core_Properties\<close>, \<open>Executor_Properties\<close>, \<open>Gateway_Properties\<close>: the properties, each
    followed by an instance of its hypotheses; this theory holds those that span components.
  \<^item> \<open>Executor_Tests\<close>, \<open>Gateway_Tests\<close>: the unit tests, property tests and fuzz targets as
    predicates on the model, which hold; \<open>Integration_Tests\<close>: the tests under
    \<open>forge-executor/tests\<close> as programs of the model, which pass on every machine of the locale
    \<open>framing_guest\<close>.

  \<^bold>\<open>What is shown.\<close> The console parser recovers exactly what a guest framed and invents
  nothing. Every backend method leaves the right processes running on every path, sends
  the right requests in order, and returns the documented errors, whatever the outside
  world does. The registry of the orchestrator is exact and no process is orphaned under
  every interleaving and cancellation, and calls in flight finish. A record's hash is the
  digest of what the guest printed, independent of timing, noise, line wrapping and identifiers. The gateway refines a small abstract
  API, never panics, and starts only three kinds of processes; with concurrent requests
  every process is still started for a sandbox that was created, though it may have been
  destroyed meanwhile, every accepted request is answered, and the answers are those of the
  abstract API for the calls in some order that respects real time. A client that
  speaks JSON can use the identifier of a reply in its next requests. The message of a rejected
  trust score determines the score. At every moment of a backend call at most one process
  more than before runs, and cancelling it there leaves none; calls whose events interleave
  leave the processes they leave when they run one by one. A snapshot is restored from the
  files its creation named, which no other snapshot has. Configurations, hashes and
  records survive JSON; a block does up to the reading of its trust score, which is
  not validated when it is read. The model passes the program's own tests.

  \<^bold>\<open>Bounds.\<close> The only loop of the program, polling for the API socket, has 50 rounds in the
  source and is modelled as such. The search for the shortest digits of a double goes down
  from \<open>10^309\<close>, above every double, to \<open>10^-1074\<close>, where every double is a whole number, and is
  shown to succeed. The reference reader of JSON allows 128 levels, the limit of \<open>serde_json\<close>, and
  as many items as the text has characters; every printed document below the limit is read
  back. Everything else is structural recursion, so no fuel is used.

  \<^bold>\<open>Not modelled.\<close> Tracing output; the messages of serde's errors, which no code reads (an
  error is \<open>None\<close>); the two fuzz targets that only call the JSON parser; the empty crates
  \<open>forge-auditor\<close> and \<open>forge-nix\<close>. Waiting for a child whose output has ended is taken to
  return. In the interleavings of the orchestrator a backend call that is not cancelled is one step;
  that its events may be spread between those of other calls is the subject of
  \<open>Backend_Interleaving\<close>, where the disturbance by other calls is part of the world a call
  runs in. A child is assumed to
  have been spawned with \<open>kill_on_drop(true)\<close>, as every \<open>Command\<close> of the backend is, so
  dropping its handle ends it. The CORS and tracing layers of the router, and the \<open>HEAD\<close>
  and \<open>OPTIONS\<close> requests, are outside the model.
\<close>

section \<open>From the guest's output to the record\<close>

lemma console_output:
  assumes "base64_engine encode (base64_decode E)" and "quiet_noise noise"
    and "wraps body1 (encode out)" and "wraps body2 (encode err)"
    and "\<And>h p. read_result E h p timeout = ReadOk (guest_serial noise body1 body2 code rest)"
    and "fc_execute_command E b cfg command timeout h = (Ok output, h')"
  shows "output = \<lparr>out_stdout = out, out_stderr = err, exit_code = code\<rparr>"
  using tripleD_Ok [OF execute_command_output TrueI assms(6)] assms(5)
    base64_engine.parse_guest_serial [OF assms(1-4), of code rest] by simp

text \<open>
  C1. End to end: a block run on Firecracker whose guest framed an output \<open>out\<close>, an error
  output \<open>err\<close> and an exit code on the serial console is recorded with the digest of
  \<open>out\<close> followed by \<open>err\<close>, the digest of the input, the block's identifier and the status
  \<open>Succeeded\<close>, whatever noise the console carried, however the text was wrapped, whatever
  the exit code was; and no VM process is left.
\<close>

theorem run_records_guest_output:
  assumes "sha256_hasher H digest" and "base64_engine encode (base64_decode E)"
    and "quiet_noise noise" and "wraps body1 (encode out)" and "wraps body2 (encode err)"
    and "\<And>h p. read_result E h p (run_timeout r) = ReadOk (guest_serial noise body1 body2 code rest)"
    and "backend r = firecracker_vmm E b"
    and "runner_execute E H r block input h = (Ok rcd, h')"
  shows "output_hash rcd = ContentHash (digest (out @ err)) \<and> input_hash rcd = ContentHash (digest input)
    \<and> rec_block_id rcd = block_id block \<and> status rcd = Succeeded \<and> live h' \<subseteq> live h"
proof -
  obtain res h1 where run: "run_output r block h = (Ok res, h1)"
    and rec: "rcd = run_record E H block input res h h1"
    using assms(8) by (auto simp: runner_execute_cases split: prod.splits sum.splits)
  have "res = \<lparr>out_stdout = out, out_stderr = err, exit_code = code\<rparr>"
    using run assms(7) by (intro console_output [OF assms(2-6)]) (simp add: firecracker_vmm_def)
  moreover have "live h' \<subseteq> live h"
    using runner_execute_live [of r E H block input h] firecracker_vmm_contract assms(7,8) by simp
  ultimately show ?thesis
    by (simp add: rec run_record_def sha256_hasher.compute_hash_digest [OF assms(1)])
qed

definition demo_console :: "u8 list" where
  "demo_console = guest_serial [] (b64_encode [104, 105] @ crlf) (b64_encode [33] @ crlf) 3 []"

lemma demo_wraps:
  "wraps (b64_encode [104, 105] @ crlf) (b64_encode [104, 105])"
  "wraps (b64_encode [33] @ crlf) (b64_encode [33])"
  by (rule wraps_crlf, code_simp)+

lemma demo_engine: "base64_engine b64_encode (base64_decode (sim_env c))"
  using rfc4648.base64_engine_axioms by simp

theorem run_records_guest_output_witness:
  "\<exists>rcd h'. runner_execute (sim_env demo_console) collecting_hasher (sim_runner (sim_env demo_console))
       sim_block [7] [] = (Ok rcd, h')
     \<and> output_hash rcd = ContentHash (sha256 [104, 105, 33]) \<and> status rcd = Succeeded"
proof -
  obtain rcd h' where run: "runner_execute (sim_env demo_console) collecting_hasher
      (sim_runner (sim_env demo_console)) sim_block [7] [] = (Ok rcd, h')"
    using sim_run_Ok by blast
  have "output_hash rcd = ContentHash (sha256 ([104, 105] @ [33])) \<and> input_hash rcd = ContentHash (sha256 [7])
    \<and> rec_block_id rcd = block_id sim_block \<and> status rcd = Succeeded \<and> live h' \<subseteq> live []"
    by (rule run_records_guest_output [OF fips180.sha256_hasher_axioms demo_engine quiet_noise_Nil
          demo_wraps _ _ run])
      (simp_all add: demo_console_def sim_runner_def BlockRunner_new_def)
  with run show ?thesis by auto
qed


definition demo_console2 :: "u8 list" where
  "demo_console2 = guest_serial (as_bytes ''boot'' @ crlf) (b64_encode [104, 105] @ crlf) (b64_encode [33] @ crlf) 0 [1]"


section \<open>Records as JSON\<close>

text \<open>
  C20. Every record a run returns, on any backend, survives JSON: written with the derived
  serialisation to the text of \<open>serde_json\<close> and read again, it is the same record, provided the
  run took at most \<open>u64::MAX\<close> seconds.
\<close>

theorem run_record_survives_json:
  assumes "sha256_hasher H digest" and "serde_json to_text from_text" and "leaf_formats L"
    and "runner_execute E H r block input h = (Ok rcd, h')" and "as_secs (rec_duration rcd) < 2 ^ 64"
  shows "from_str from_text (ExecutionRecord_deserialize L) (to_text (ExecutionRecord_serialize L rcd)) = Some rcd"
proof -
  have texts: "serde_texts to_text from_text L" using assms(2,3) by (rule serde_texts.intro)
  have "wf_ContentHash (input_hash rcd)" "wf_ContentHash (output_hash rcd)"
    using assms(4) sha256_hasher.compute_hash_wf [OF assms(1)]
    by (auto simp: runner_execute_cases run_record_def split: prod.splits sum.splits)
  then show ?thesis by (rule serde_texts.ExecutionRecord_text [OF texts _ _ assms(5)])
qed

theorem run_record_survives_json_witness:
  "\<exists>rcd h'. runner_execute git_env collecting_hasher (make_runner git_env ''/forge'') sim_block [7] [] = (Ok rcd, h')
     \<and> from_str json_read (ExecutionRecord_deserialize reference_leaves)
         (json_text (ExecutionRecord_serialize reference_leaves rcd)) = Some rcd"
proof -
  have "backend (make_runner git_env ''/forge'') = firecracker_vmm git_env make_backend"
    by (simp add: make_runner_def BlockRunner_with_timeout_def)
  from git_guest.runner_Ok [OF this] obtain rcd h' where
    run: "runner_execute git_env collecting_hasher (make_runner git_env ''/forge'') sim_block [7] [] = (Ok rcd, h')"
    by blast
  then have "rec_duration rcd = 0"
    by (auto simp: runner_execute_cases run_record_def git_env_def split: prod.splits sum.splits)
  then have "as_secs (rec_duration rcd) < 2 ^ 64" by (simp add: as_secs_def)
  with run show ?thesis
    using run_record_survives_json [OF fips180.sha256_hasher_axioms compact.serde_json_axioms
        reference.leaf_formats_axioms run] by blast
qed

end
